theory Spec2Isabelle
  imports Complex_Main "HOL-Library.AList" "HOL-Library.Multiset"
begin

section \<open>JavaScript values\<close>

text \<open>
  The server keeps its three collections as JSON documents and receives JSON request
  bodies and parsed query strings, so every datum the handlers touch is a JSON value (or
  \<open>undefined\<close>, the result of reading a property that is not there).

  Numbers are IEEE doubles in the source. Every finite double is a rational number, so a
  finite number is a rational here (negative zero is identified with zero), and the three
  non-finite doubles are kept. An arithmetic operation of the source computes the exact
  result and rounds it to a double; the rounding is the runtime's \<open>rt_round\<close> below, and
  the operations the handlers use (\<open>+\<close>, \<open>*\<close>, \<open>/\<close>, \<open>parseInt\<close>) apply it to their exact
  result.
\<close>

datatype jsnum = Fin rat | PInf | NInf | NaN

datatype jsval =
    JUndefined
  | JNull
  | JBool bool
  | JNum jsnum
  | JStr string
  | JArr "jsval list"
  | JObj "(string \<times> jsval) list"

type_synonym obj = "(string \<times> jsval) list"

text \<open>Property read \<open>o.k\<close> on an object: \<open>undefined\<close> when the key is absent.\<close>

definition get_prop :: "obj \<Rightarrow> string \<Rightarrow> jsval" where
  "get_prop ob k = (case map_of ob k of None \<Rightarrow> JUndefined | Some v \<Rightarrow> v)"

text \<open>
  Object spread \<open>{...a, ...b}\<close>: the keys of \<open>b\<close> are written onto \<open>a\<close> in order; a
  key already present keeps its place and takes the new value, a new key goes to the end.
\<close>

definition spread :: "obj \<Rightarrow> obj \<Rightarrow> obj" where
  "spread a b = fold (\<lambda>(k, v) acc. AList.update k v acc) b a"

text \<open>Truthiness (\<open>ToBoolean\<close>).\<close>

fun truthy :: "jsval \<Rightarrow> bool" where
  "truthy JUndefined = False"
| "truthy JNull = False"
| "truthy (JBool b) = b"
| "truthy (JNum n) = (n \<noteq> Fin 0 \<and> n \<noteq> NaN)"
| "truthy (JStr s) = (s \<noteq> [])"
| "truthy (JArr _) = True"
| "truthy (JObj _) = True"

text \<open>
  Strict equality \<open>===\<close>. No coercion: values of different types are never equal, and
  \<open>NaN\<close> is not equal to itself. Arrays and objects are compared by reference; every use
  of \<open>===\<close> in the server compares values of two different documents (or a document value
  with a literal), which are never the same reference.
\<close>

fun strict_eq :: "jsval \<Rightarrow> jsval \<Rightarrow> bool" where
  "strict_eq JUndefined JUndefined = True"
| "strict_eq JNull JNull = True"
| "strict_eq (JBool a) (JBool b) = (a = b)"
| "strict_eq (JNum a) (JNum b) = (a \<noteq> NaN \<and> a = b)"
| "strict_eq (JStr a) (JStr b) = (a = b)"
| "strict_eq _ _ = False"

subsection \<open>Arithmetic on numbers\<close>

text \<open>
  The exact results of the operations, before any rounding: on two finite numbers the sum,
  product or quotient as a rational, on the others the result IEEE arithmetic fixes.
\<close>

fun num_neg :: "jsnum \<Rightarrow> jsnum" where
  "num_neg (Fin a) = Fin (- a)"
| "num_neg PInf = NInf"
| "num_neg NInf = PInf"
| "num_neg NaN = NaN"

fun num_add :: "jsnum \<Rightarrow> jsnum \<Rightarrow> jsnum" where
  "num_add (Fin a) (Fin b) = Fin (a + b)"
| "num_add NaN _ = NaN"
| "num_add _ NaN = NaN"
| "num_add PInf NInf = NaN"
| "num_add NInf PInf = NaN"
| "num_add PInf _ = PInf"
| "num_add _ PInf = PInf"
| "num_add NInf _ = NInf"
| "num_add _ NInf = NInf"

definition num_sub :: "jsnum \<Rightarrow> jsnum \<Rightarrow> jsnum" where
  "num_sub a b = num_add a (num_neg b)"

text \<open>The sign of a number: \<open>None\<close> for \<open>NaN\<close>.\<close>

fun num_sgn :: "jsnum \<Rightarrow> int option" where
  "num_sgn (Fin a) = Some (if a < 0 then - 1 else if a = 0 then 0 else 1)"
| "num_sgn PInf = Some 1"
| "num_sgn NInf = Some (- 1)"
| "num_sgn NaN = None"

fun num_mul :: "jsnum \<Rightarrow> jsnum \<Rightarrow> jsnum" where
  "num_mul (Fin a) (Fin b) = Fin (a * b)"
| "num_mul a b =
     (case (num_sgn a, num_sgn b) of
        (Some s, Some t) \<Rightarrow>
          (if s * t = 0 then NaN else if s * t < 0 then NInf else PInf)
      | _ \<Rightarrow> NaN)"

fun num_div :: "jsnum \<Rightarrow> jsnum \<Rightarrow> jsnum" where
  "num_div (Fin a) (Fin b) =
     (if b = 0 then (if a = 0 then NaN else if a < 0 then NInf else PInf)
      else Fin (a / b))"
| "num_div (Fin a) PInf = Fin 0"
| "num_div (Fin a) NInf = Fin 0"
| "num_div PInf (Fin b) = (if b < 0 then NInf else PInf)"
| "num_div NInf (Fin b) = (if b < 0 then PInf else NInf)"
| "num_div _ _ = NaN"

fun num_lt :: "jsnum \<Rightarrow> jsnum \<Rightarrow> bool" where
  "num_lt (Fin a) (Fin b) = (a < b)"
| "num_lt NaN _ = False"
| "num_lt _ NaN = False"
| "num_lt NInf b = (b \<noteq> NInf)"
| "num_lt a PInf = (a \<noteq> PInf)"
| "num_lt _ _ = False"

text \<open>\<open>Math.ceil\<close>.\<close>

fun num_ceil :: "jsnum \<Rightarrow> jsnum" where
  "num_ceil (Fin a) = Fin (of_int \<lceil>a\<rceil>)"
| "num_ceil n = n"

subsection \<open>Strings\<close>

text \<open>
  A string is a list of characters. \<open>str_includes\<close> is \<open>String.prototype.includes\<close>: the
  argument occurs as a contiguous run.
\<close>

fun starts_with :: "string \<Rightarrow> string \<Rightarrow> bool" where
  "starts_with s [] = True"
| "starts_with [] (c # t) = False"
| "starts_with (d # s) (c # t) = (d = c \<and> starts_with s t)"

fun str_includes :: "string \<Rightarrow> string \<Rightarrow> bool" where
  "str_includes [] t = (t = [])"
| "str_includes (c # s) t = (starts_with (c # s) t \<or> str_includes s t)"

text \<open>The order of \<open><\<close> on two strings: lexicographic on the character codes.\<close>

fun str_lt :: "string \<Rightarrow> string \<Rightarrow> bool" where
  "str_lt _ [] = False"
| "str_lt [] (c # t) = True"
| "str_lt (d # s) (c # t) =
     ((of_char d :: nat) < of_char c \<or> (d = c \<and> str_lt s t))"

text \<open>Decimal digits of an integer, as \<open>Number.prototype.toString\<close> prints them.\<close>

fun digits :: "nat \<Rightarrow> string" where
  "digits n =
     (if n < 10 then [''0123456789'' ! n]
      else digits (n div 10) @ [''0123456789'' ! (n mod 10)])"

declare digits.simps [simp del]

definition show_int :: "int \<Rightarrow> string" where
  "show_int i = (if i < 0 then CHR ''-'' # digits (nat (- i)) else digits (nat i))"

subsection \<open>The runtime\<close>

text \<open>
  Built-ins of the JavaScript runtime and of the two libraries the server calls, whose
  results depend on Unicode tables, the locale, the clock or a cryptographic key. They are
  parameters of the model: every theorem below holds whatever they compute, unless it
  names a property of them as a hypothesis.
  \<^item> \<open>rt_toLowerCase\<close>, \<open>rt_trim\<close>: \<open>String.prototype.toLowerCase\<close> and \<open>trim\<close>;
  \<^item> \<open>rt_localeCompare\<close>: \<open>String.prototype.localeCompare\<close> (negative, zero or positive);
  \<^item> \<open>rt_StringToNumber\<close>: the conversion of a string to a number by \<open>ToNumber\<close>;
  \<^item> \<open>rt_NumberToString\<close>: the digits of a number that is not an integer below \<open>10^21\<close>;
  \<^item> \<open>rt_parseFloat\<close>: \<open>parseFloat\<close> on a string;
  \<^item> \<open>rt_Date\<close>: the time value of \<open>new Date(v)\<close>, \<open>NaN\<close> for an invalid date;
  \<^item> \<open>rt_bcrypt_compare\<close>: \<open>bcrypt.compare(password, hash)\<close> on two strings;
  \<^item> \<open>rt_jwt_sign\<close>: \<open>jwt.sign(payload, secret, {expiresIn: "8h"})\<close>;
  \<^item> \<open>rt_round\<close>: the double a real number is rounded to (to nearest, ties to even), an
    infinity when the number is beyond the range of the doubles.
\<close>

record runtime =
  rt_toLowerCase :: "string \<Rightarrow> string"
  rt_trim :: "string \<Rightarrow> string"
  rt_localeCompare :: "string \<Rightarrow> string \<Rightarrow> int"
  rt_StringToNumber :: "string \<Rightarrow> jsnum"
  rt_NumberToString :: "rat \<Rightarrow> string"
  rt_parseFloat :: "string \<Rightarrow> jsnum"
  rt_Date :: "jsval \<Rightarrow> jsnum"
  rt_bcrypt_compare :: "string \<Rightarrow> string \<Rightarrow> bool"
  rt_jwt_sign :: "obj \<Rightarrow> string"
  rt_round :: "rat \<Rightarrow> jsnum"

text \<open>
  The operations as the source computes them: the exact result, rounded when it is
  finite.
\<close>

fun fl :: "runtime \<Rightarrow> jsnum \<Rightarrow> jsnum" where
  "fl rt (Fin r) = rt_round rt r"
| "fl rt n = n"

definition fl_add :: "runtime \<Rightarrow> jsnum \<Rightarrow> jsnum \<Rightarrow> jsnum" where
  "fl_add rt a b = fl rt (num_add a b)"

definition fl_sub :: "runtime \<Rightarrow> jsnum \<Rightarrow> jsnum \<Rightarrow> jsnum" where
  "fl_sub rt a b = fl rt (num_sub a b)"

definition fl_mul :: "runtime \<Rightarrow> jsnum \<Rightarrow> jsnum \<Rightarrow> jsnum" where
  "fl_mul rt a b = fl rt (num_mul a b)"

definition fl_div :: "runtime \<Rightarrow> jsnum \<Rightarrow> jsnum \<Rightarrow> jsnum" where
  "fl_div rt a b = fl rt (num_div a b)"

text \<open>
  What the theorems below use of the rounding, where they need a result to be exact. All
  five hold of the rounding of IEEE doubles: an integer of magnitude at most \<open>2^53\<close> is a
  double; the rounding is monotone; it never yields \<open>NaN\<close>; in the normal range the
  relative error is at most \<open>2^-53\<close>; the smallest positive double is \<open>2^-1074\<close>.
\<close>

definition ieee_rounding :: "runtime \<Rightarrow> bool" where
  "ieee_rounding rt \<longleftrightarrow>
     (\<forall>i :: int. \<bar>i\<bar> \<le> 2 ^ 53 \<longrightarrow> rt_round rt (of_int i) = Fin (of_int i))
     \<and> (\<forall>x y. x \<le> y \<longrightarrow> \<not> num_lt (rt_round rt y) (rt_round rt x))
     \<and> (\<forall>x. rt_round rt x \<noteq> NaN)
     \<and> (\<forall>x. 1 / 2 ^ 1022 \<le> \<bar>x\<bar> \<and> \<bar>x\<bar> \<le> 2 ^ 1023
            \<longrightarrow> (\<exists>y. rt_round rt x = Fin y \<and> \<bar>y - x\<bar> * 2 ^ 53 \<le> \<bar>x\<bar>))
     \<and> rt_round rt (1 / 2 ^ 1074) = Fin (1 / 2 ^ 1074)"

subsection \<open>Conversions and operators\<close>

definition NumberToString :: "runtime \<Rightarrow> jsnum \<Rightarrow> string" where
  "NumberToString rt n =
     (case n of
        Fin r \<Rightarrow>
          (if of_int \<lfloor>r\<rfloor> = r \<and> \<bar>r\<bar> < 10 ^ 21 then show_int \<lfloor>r\<rfloor>
           else rt_NumberToString rt r)
      | PInf \<Rightarrow> ''Infinity''
      | NInf \<Rightarrow> ''-Infinity''
      | NaN \<Rightarrow> ''NaN'')"

fun join_comma :: "string list \<Rightarrow> string" where
  "join_comma [] = []"
| "join_comma [s] = s"
| "join_comma (s # t # ss) = s @ CHR '','' # join_comma (t # ss)"

text \<open>
  \<open>ToString\<close>. An array prints its elements separated by commas, \<open>null\<close> and
  \<open>undefined\<close> elements as the empty string; a plain object prints as
  \<open>[object Object]\<close>.
\<close>

fun ToString :: "runtime \<Rightarrow> jsval \<Rightarrow> string" where
  "ToString rt JUndefined = ''undefined''"
| "ToString rt JNull = ''null''"
| "ToString rt (JBool b) = (if b then ''true'' else ''false'')"
| "ToString rt (JNum n) = NumberToString rt n"
| "ToString rt (JStr s) = s"
| "ToString rt (JArr xs) =
     join_comma (map (\<lambda>x. if x = JUndefined \<or> x = JNull then [] else ToString rt x) xs)"
| "ToString rt (JObj kvs) = ''[object Object]''"

text \<open>\<open>ToPrimitive\<close>: an array or object is replaced by its string.\<close>

fun ToPrimitive :: "runtime \<Rightarrow> jsval \<Rightarrow> jsval" where
  "ToPrimitive rt (JArr xs) = JStr (ToString rt (JArr xs))"
| "ToPrimitive rt (JObj kvs) = JStr (ToString rt (JObj kvs))"
| "ToPrimitive rt v = v"

fun ToNumber :: "runtime \<Rightarrow> jsval \<Rightarrow> jsnum" where
  "ToNumber rt JUndefined = NaN"
| "ToNumber rt JNull = Fin 0"
| "ToNumber rt (JBool b) = Fin (if b then 1 else 0)"
| "ToNumber rt (JNum n) = n"
| "ToNumber rt (JStr s) = rt_StringToNumber rt s"
| "ToNumber rt v = rt_StringToNumber rt (ToString rt v)"

text \<open>
  \<open>a < b\<close>: two strings are compared as strings, anything else as numbers (a comparison
  with \<open>NaN\<close> is false). \<open>a > b\<close> is \<open>b < a\<close>.
\<close>

definition js_lt :: "runtime \<Rightarrow> jsval \<Rightarrow> jsval \<Rightarrow> bool" where
  "js_lt rt a b =
     (case (ToPrimitive rt a, ToPrimitive rt b) of
        (JStr s, JStr t) \<Rightarrow> str_lt s t
      | (pa, pb) \<Rightarrow> num_lt (ToNumber rt pa) (ToNumber rt pb))"

definition js_gt :: "runtime \<Rightarrow> jsval \<Rightarrow> jsval \<Rightarrow> bool" where
  "js_gt rt a b = js_lt rt b a"

fun is_JStr :: "jsval \<Rightarrow> bool" where
  "is_JStr (JStr s) = True"
| "is_JStr _ = False"

text \<open>
  \<open>a + b\<close>: concatenation as soon as one side is a string, addition otherwise. \<open>a * b\<close>
  is the rounded product.

  \<open>a - b\<close> is kept exact: the handlers subtract only inside the comparators they pass to
  \<open>sort\<close>, which reads the sign of the result, and rounding to nearest keeps the sign of
  a difference of two doubles (the difference of two distinct doubles is at least the
  smallest positive double in magnitude).
\<close>

definition js_add :: "runtime \<Rightarrow> jsval \<Rightarrow> jsval \<Rightarrow> jsval" where
  "js_add rt a b =
     (let pa = ToPrimitive rt a; pb = ToPrimitive rt b
      in if is_JStr pa \<or> is_JStr pb then JStr (ToString rt pa @ ToString rt pb)
         else JNum (fl_add rt (ToNumber rt pa) (ToNumber rt pb)))"

definition js_sub :: "runtime \<Rightarrow> jsval \<Rightarrow> jsval \<Rightarrow> jsnum" where
  "js_sub rt a b = num_sub (ToNumber rt a) (ToNumber rt b)"

definition js_mul :: "runtime \<Rightarrow> jsval \<Rightarrow> jsval \<Rightarrow> jsnum" where
  "js_mul rt a b = fl_mul rt (ToNumber rt a) (ToNumber rt b)"

text \<open>\<open>a || b\<close>.\<close>

definition js_or :: "jsval \<Rightarrow> jsval \<Rightarrow> jsval" where
  "js_or a b = (if truthy a then a else b)"

text \<open>The number a value holds, for values that are finite numbers.\<close>

fun num_of :: "jsval \<Rightarrow> rat" where
  "num_of (JNum (Fin r)) = r"
| "num_of _ = 0"

section \<open>Failures\<close>

text \<open>
  Every handler answers a failure with a status code and a message. \<open>ServerError\<close> is
  the \<open>catch\<close> branch of a handler: an exception (a \<open>TypeError\<close> on a value of the wrong
  type) was thrown somewhere in its \<open>try\<close> block.
\<close>

datatype error =
    MissingProduct
  | ProductNotFound
  | InsufficientStock
  | MissingFields "string list"
  | NegativeValue string
  | InvalidDiscount
  | MissingCredentials
  | AdminNotFound
  | WrongPassword
  | ServerError

fun http_status :: "error \<Rightarrow> nat" where
  "http_status MissingProduct = 400"
| "http_status ProductNotFound = 404"
| "http_status InsufficientStock = 400"
| "http_status (MissingFields fs) = 400"
| "http_status (NegativeValue f) = 400"
| "http_status InvalidDiscount = 400"
| "http_status MissingCredentials = 400"
| "http_status AdminNotFound = 401"
| "http_status WrongPassword = 401"
| "http_status ServerError = 500"

definition bindE :: "error + 'a \<Rightarrow> ('a \<Rightarrow> error + 'b) \<Rightarrow> error + 'b" where
  "bindE m f = (case m of Inl e \<Rightarrow> Inl e | Inr x \<Rightarrow> f x)"

text \<open>\<open>a || b\<close> on two conditions that may throw: \<open>b\<close> is not evaluated when \<open>a\<close> holds.\<close>

definition orE :: "error + bool \<Rightarrow> error + bool \<Rightarrow> error + bool" where
  "orE a b = (case a of Inl e \<Rightarrow> Inl e | Inr x \<Rightarrow> if x then Inr True else b)"

text \<open>\<open>Array.prototype.filter\<close> with a callback that may throw.\<close>

fun filterE :: "('a \<Rightarrow> error + bool) \<Rightarrow> 'a list \<Rightarrow> error + 'a list" where
  "filterE f [] = Inr []"
| "filterE f (x # xs) =
     (case f x of
        Inl e \<Rightarrow> Inl e
      | Inr b \<Rightarrow>
          (case filterE f xs of
             Inl e \<Rightarrow> Inl e
           | Inr ys \<Rightarrow> Inr (if b then x # ys else ys)))"

text \<open>
  \<open>v.toLowerCase()\<close>: a \<open>TypeError\<close> unless \<open>v\<close> is a string (\<open>undefined\<close> has no
  properties, the other values have no such method).
\<close>

fun js_toLowerCase :: "runtime \<Rightarrow> jsval \<Rightarrow> error + string" where
  "js_toLowerCase rt (JStr s) = Inr (rt_toLowerCase rt s)"
| "js_toLowerCase rt _ = Inl ServerError"

text \<open>
  \<open>Array.prototype.sort(cmp)\<close>. The language asks for a stable sort and leaves to the
  engine the sequence of comparator calls and, when the comparator is not a consistent
  ordering of the elements (when it answers \<open>NaN\<close>, say), the resulting order. The model
  is a stable insertion sort: it inserts the elements from left to right, each one (the
  pivot) before the first earlier element \<open>e\<close> with \<open>cmp(pivot, e) < 0\<close>, and a result that
  is not negative, \<open>NaN\<close> included, leaves the pivot behind \<open>e\<close>. For a consistent
  comparator every engine returns the list the model returns; for an inconsistent one the
  model returns a permutation that an engine may or may not return, and the theorems
  below that depend on the order name the consistency they need as a hypothesis.
\<close>

fun sort_insert :: "('a \<Rightarrow> 'a \<Rightarrow> error + jsnum) \<Rightarrow> 'a \<Rightarrow> 'a list \<Rightarrow> error + 'a list" where
  "sort_insert cmp p [] = Inr [p]"
| "sort_insert cmp p (e # es) =
     (case cmp p e of
        Inl err \<Rightarrow> Inl err
      | Inr v \<Rightarrow>
          (if num_lt v (Fin 0) then Inr (p # e # es)
           else (case sort_insert cmp p es of
                   Inl err \<Rightarrow> Inl err
                 | Inr r \<Rightarrow> Inr (e # r))))"

fun sort_from :: "('a \<Rightarrow> 'a \<Rightarrow> error + jsnum) \<Rightarrow> 'a list \<Rightarrow> 'a list \<Rightarrow> error + 'a list" where
  "sort_from cmp acc [] = Inr acc"
| "sort_from cmp acc (p # ps) =
     (case sort_insert cmp p acc of
        Inl err \<Rightarrow> Inl err
      | Inr acc' \<Rightarrow> sort_from cmp acc' ps)"

definition js_sort :: "('a \<Rightarrow> 'a \<Rightarrow> error + jsnum) \<Rightarrow> 'a list \<Rightarrow> error + 'a list" where
  "js_sort cmp xs = sort_from cmp [] xs"

section \<open>Public catalogue: \<open>GET /api/products\<close>\<close>

record public_response =
  pr_products :: "obj list"
  pr_total :: nat
  pr_category :: jsval
  pr_search :: jsval
  pr_sort :: jsval

text \<open>\<open>p.category.toLowerCase() === req.query.category.toLowerCase()\<close>\<close>

definition public_category_match :: "runtime \<Rightarrow> jsval \<Rightarrow> obj \<Rightarrow> error + bool" where
  "public_category_match rt category p =
     bindE (js_toLowerCase rt (get_prop p ''category'')) (\<lambda>pc.
     bindE (js_toLowerCase rt category) (\<lambda>qc. Inr (pc = qc)))"

text \<open>\<open>p[field].toLowerCase().includes(keyword)\<close>\<close>

definition text_match :: "runtime \<Rightarrow> string \<Rightarrow> obj \<Rightarrow> string \<Rightarrow> error + bool" where
  "text_match rt keyword p field =
     bindE (js_toLowerCase rt (get_prop p field)) (\<lambda>s. Inr (str_includes s keyword))"

text \<open>\<open>a.title.localeCompare(b.title)\<close>: the receiver must be a string.\<close>

definition js_localeCompare :: "runtime \<Rightarrow> jsval \<Rightarrow> jsval \<Rightarrow> error + jsnum" where
  "js_localeCompare rt a b =
     (case a of
        JStr s \<Rightarrow> Inr (Fin (of_int (rt_localeCompare rt s (ToString rt b))))
      | _ \<Rightarrow> Inl ServerError)"

definition public_sort :: "runtime \<Rightarrow> jsval \<Rightarrow> obj list \<Rightarrow> error + obj list" where
  "public_sort rt sortp products =
     (if \<not> truthy sortp then Inr products
      else if strict_eq sortp (JStr ''price_asc'') then
        js_sort (\<lambda>a b. Inr (js_sub rt (get_prop a ''price'') (get_prop b ''price''))) products
      else if strict_eq sortp (JStr ''price_desc'') then
        js_sort (\<lambda>a b. Inr (js_sub rt (get_prop b ''price'') (get_prop a ''price''))) products
      else if strict_eq sortp (JStr ''title_asc'') then
        js_sort (\<lambda>a b. js_localeCompare rt (get_prop a ''title'') (get_prop b ''title'')) products
      else if strict_eq sortp (JStr ''title_desc'') then
        js_sort (\<lambda>a b. js_localeCompare rt (get_prop b ''title'') (get_prop a ''title'')) products
      else Inr products)"

definition public_filter :: "runtime \<Rightarrow> obj list \<Rightarrow> obj \<Rightarrow> error + obj list" where
  "public_filter rt products query =
     (let active = filter (\<lambda>p. strict_eq (get_prop p ''isActive'') (JBool True)) products;
          category = get_prop query ''category'';
          search = get_prop query ''search''
      in bindE (if truthy category then filterE (public_category_match rt category) active
                else Inr active) (\<lambda>in_category.
         if truthy search then
           bindE (js_toLowerCase rt search) (\<lambda>keyword.
             filterE (\<lambda>p. orE (text_match rt keyword p ''title'')
                               (text_match rt keyword p ''author'')) in_category)
         else Inr in_category))"

definition queryPublic :: "runtime \<Rightarrow> obj list \<Rightarrow> obj \<Rightarrow> error + public_response" where
  "queryPublic rt products query =
     bindE (public_filter rt products query) (\<lambda>filtered.
     bindE (public_sort rt (get_prop query ''sort'') filtered) (\<lambda>sorted.
       Inr \<lparr> pr_products = sorted,
             pr_total = length sorted,
             pr_category = js_or (get_prop query ''category'') JNull,
             pr_search = js_or (get_prop query ''search'') JNull,
             pr_sort = js_or (get_prop query ''sort'') JNull \<rparr>))"

section \<open>Admin catalogue: \<open>GET /api/admin/products\<close>\<close>

subsection \<open>\<open>parseInt\<close> and \<open>slice\<close>\<close>

definition digit_of :: "nat \<Rightarrow> char \<Rightarrow> nat option" where
  "digit_of radix c =
     (let n = (of_char c :: nat);
          d = (if 48 \<le> n \<and> n \<le> 57 then Some (n - 48)
               else if 97 \<le> n \<and> n \<le> 122 then Some (n - 87)
               else if 65 \<le> n \<and> n \<le> 90 then Some (n - 55)
               else None)
      in case d of None \<Rightarrow> None | Some v \<Rightarrow> if v < radix then Some v else None)"

fun read_digits :: "nat \<Rightarrow> string \<Rightarrow> nat list" where
  "read_digits radix [] = []"
| "read_digits radix (c # s) =
     (case digit_of radix c of None \<Rightarrow> [] | Some d \<Rightarrow> d # read_digits radix s)"

definition digits_value :: "nat \<Rightarrow> nat list \<Rightarrow> nat" where
  "digits_value radix ds = foldl (\<lambda>acc d. acc * radix + d) 0 ds"

text \<open>
  The white space and line terminators that \<open>parseInt\<close> skips, each as the bytes of its
  UTF-8 encoding (which is how a string of the model holds a character outside ASCII):
  TAB, LF, VT, FF, CR, SP, U+00A0, U+1680, U+2000 to U+200A, U+2028, U+2029, U+202F,
  U+205F, U+3000 and U+FEFF.
\<close>

definition white_space :: "string list" where
  "white_space =
     [[CHR 0x09], [CHR 0x0A], [CHR 0x0B], [CHR 0x0C], [CHR 0x0D], [CHR 0x20],
      [CHR 0xC2, CHR 0xA0],
      [CHR 0xE1, CHR 0x9A, CHR 0x80],
      [CHR 0xE2, CHR 0x80, CHR 0x80], [CHR 0xE2, CHR 0x80, CHR 0x81],
      [CHR 0xE2, CHR 0x80, CHR 0x82], [CHR 0xE2, CHR 0x80, CHR 0x83],
      [CHR 0xE2, CHR 0x80, CHR 0x84], [CHR 0xE2, CHR 0x80, CHR 0x85],
      [CHR 0xE2, CHR 0x80, CHR 0x86], [CHR 0xE2, CHR 0x80, CHR 0x87],
      [CHR 0xE2, CHR 0x80, CHR 0x88], [CHR 0xE2, CHR 0x80, CHR 0x89],
      [CHR 0xE2, CHR 0x80, CHR 0x8A],
      [CHR 0xE2, CHR 0x80, CHR 0xA8], [CHR 0xE2, CHR 0x80, CHR 0xA9],
      [CHR 0xE2, CHR 0x80, CHR 0xAF],
      [CHR 0xE2, CHR 0x81, CHR 0x9F],
      [CHR 0xE3, CHR 0x80, CHR 0x80],
      [CHR 0xEF, CHR 0xBB, CHR 0xBF]]"

text \<open>
  Skipping leading white space. The first argument bounds the number of characters
  skipped; \<open>skip_ws\<close> gives it the length of the string, which no run of white space
  exceeds.
\<close>

fun skip_ws_upto :: "nat \<Rightarrow> string \<Rightarrow> string" where
  "skip_ws_upto 0 s = s"
| "skip_ws_upto (Suc n) s =
     (case find (starts_with s) white_space of
        None \<Rightarrow> s
      | Some w \<Rightarrow> skip_ws_upto n (drop (length w) s))"

definition skip_ws :: "string \<Rightarrow> string" where
  "skip_ws s = skip_ws_upto (length s) s"

text \<open>
  \<open>parseInt(s)\<close> with no radix: leading white space is skipped, then an optional sign, an
  optional \<open>0x\<close> prefix that selects base 16, and the longest run of digits. Anything
  after the digits is ignored. \<open>parse_int\<close> is the integer those digits denote, \<open>None\<close>
  when the run is empty; \<open>parseInt\<close> answers \<open>NaN\<close> then, and otherwise that integer
  rounded to a double. (Beyond 20 significant decimal digits the language lets an engine
  round a nearby integer instead; the model rounds the integer itself.)
\<close>

definition parse_int :: "string \<Rightarrow> int option" where
  "parse_int s =
     (let s1 = skip_ws s;
          neg = (case s1 of [] \<Rightarrow> False | c # r \<Rightarrow> c = CHR ''-'');
          s2 = (case s1 of [] \<Rightarrow> s1
                | c # r \<Rightarrow> if c = CHR ''-'' \<or> c = CHR ''+'' then r else s1);
          hex = (starts_with s2 ''0x'' \<or> starts_with s2 ''0X'');
          radix = (if hex then 16 else 10);
          ds = read_digits radix (if hex then drop 2 s2 else s2)
      in if ds = [] then None
         else Some (int (digits_value radix ds) * (if neg then - 1 else 1)))"

definition parseInt_str :: "runtime \<Rightarrow> string \<Rightarrow> jsnum" where
  "parseInt_str rt s =
     (case parse_int s of None \<Rightarrow> NaN | Some i \<Rightarrow> rt_round rt (of_int i))"

definition js_parseInt :: "runtime \<Rightarrow> jsval \<Rightarrow> jsnum" where
  "js_parseInt rt v = parseInt_str rt (ToString rt v)"

text \<open>
  \<open>Array.prototype.slice(start, end)\<close>. Each bound is truncated to an integer, \<open>NaN\<close>
  counts as 0, a negative bound counts from the end of the array, and both are clamped to
  \<open>0 .. length\<close>.
\<close>

definition slice_index :: "nat \<Rightarrow> jsnum \<Rightarrow> nat" where
  "slice_index len n =
     (case n of
        NaN \<Rightarrow> 0
      | NInf \<Rightarrow> 0
      | PInf \<Rightarrow> len
      | Fin r \<Rightarrow>
          (let i = (if r < 0 then \<lceil>r\<rceil> else \<lfloor>r\<rfloor>)
           in if i < 0 then nat (max (int len + i) 0) else min (nat i) len))"

definition js_slice :: "'a list \<Rightarrow> jsnum \<Rightarrow> jsnum \<Rightarrow> 'a list" where
  "js_slice xs start end =
     (let k = slice_index (length xs) start; final = slice_index (length xs) end
      in take (final - k) (drop k xs))"

subsection \<open>The handler\<close>

record pagination =
  currentPage :: jsnum
  totalPages :: jsnum
  totalProducts :: nat
  productsPerPage :: jsnum
  hasNextPage :: bool
  hasPrevPage :: bool

record statistics =
  st_total :: nat
  st_active :: nat
  st_inactive :: nat
  st_lowStock :: nat
  st_outOfStock :: nat

record admin_response =
  ar_products :: "obj list"
  ar_pagination :: pagination
  ar_statistics :: statistics
  ar_category :: jsval
  ar_search :: jsval
  ar_status :: jsval
  ar_sortBy :: jsval
  ar_sortOrder :: jsval

text \<open>A destructuring default \<open>{k = d} = o\<close>: taken only when the property is \<open>undefined\<close>.\<close>

definition with_default :: "jsval \<Rightarrow> jsval \<Rightarrow> jsval" where
  "with_default d v = (if v = JUndefined then d else v)"

text \<open>\<open>p.category.toLowerCase().includes(category.toLowerCase())\<close>\<close>

definition admin_category_match :: "runtime \<Rightarrow> jsval \<Rightarrow> obj \<Rightarrow> error + bool" where
  "admin_category_match rt category p =
     bindE (js_toLowerCase rt (get_prop p ''category'')) (\<lambda>pc.
     bindE (js_toLowerCase rt category) (\<lambda>qc. Inr (str_includes pc qc)))"

text \<open>
  \<open>p.isbn && p.isbn.includes(search)\<close>, as a condition. \<open>search\<close> is a string here. A
  string \<open>isbn\<close> is searched for the substring, an array for the element; any other truthy
  value has no \<open>includes\<close> method.
\<close>

definition isbn_match :: "string \<Rightarrow> obj \<Rightarrow> error + bool" where
  "isbn_match search p =
     (let isbn = get_prop p ''isbn''
      in if \<not> truthy isbn then Inr False
         else (case isbn of
                 JStr s \<Rightarrow> Inr (str_includes s search)
               | JArr xs \<Rightarrow> Inr (JStr search \<in> set xs)
               | _ \<Rightarrow> Inl ServerError))"

definition admin_filter :: "runtime \<Rightarrow> obj list \<Rightarrow> obj \<Rightarrow> error + obj list" where
  "admin_filter rt products query =
     (let category = get_prop query ''category'';
          search = get_prop query ''search'';
          status = with_default (JStr ''all'') (get_prop query ''status'');
          by_status =
            (if strict_eq status (JStr ''active'') then
               filter (\<lambda>p. strict_eq (get_prop p ''isActive'') (JBool True)) products
             else if strict_eq status (JStr ''inactive'') then
               filter (\<lambda>p. strict_eq (get_prop p ''isActive'') (JBool False)) products
             else products)
      in bindE (if truthy category \<and> \<not> strict_eq category (JStr ''all'') then
                  filterE (admin_category_match rt category) by_status
                else Inr by_status) (\<lambda>in_category.
         if truthy search then
           (case search of
              JStr s \<Rightarrow>
                filterE (\<lambda>p. orE (text_match rt (rt_toLowerCase rt s) p ''title'')
                             (orE (text_match rt (rt_toLowerCase rt s) p ''author'')
                                  (isbn_match s p))) in_category
            | _ \<Rightarrow> Inl ServerError)
         else Inr in_category))"

text \<open>
  The comparator of the admin sort. \<open>a[sortField]\<close> reads the property whose key is the
  string of \<open>sortField\<close>.
\<close>

definition admin_compare :: "runtime \<Rightarrow> jsval \<Rightarrow> jsnum \<Rightarrow> obj \<Rightarrow> obj \<Rightarrow> error + jsnum" where
  "admin_compare rt sortField order a b =
     (let x = get_prop a (ToString rt sortField); y = get_prop b (ToString rt sortField)
      in if strict_eq sortField (JStr ''title'') \<or> strict_eq sortField (JStr ''author'')
            \<or> strict_eq sortField (JStr ''category'') then
           bindE (js_localeCompare rt x y) (\<lambda>c. Inr (num_mul order c))
         else if strict_eq sortField (JStr ''price'') \<or> strict_eq sortField (JStr ''stock'')
            \<or> strict_eq sortField (JStr ''rating'') then
           Inr (num_mul order (js_sub rt x y))
         else Inr (num_mul order (num_sub (rt_Date rt x) (rt_Date rt y))))"

definition admin_statistics :: "runtime \<Rightarrow> obj list \<Rightarrow> statistics" where
  "admin_statistics rt products =
     \<lparr> st_total = length products,
       st_active = length (filter (\<lambda>p. truthy (get_prop p ''isActive'')) products),
       st_inactive = length (filter (\<lambda>p. \<not> truthy (get_prop p ''isActive'')) products),
       st_lowStock =
         length (filter (\<lambda>p. js_lt rt (get_prop p ''stock'') (JNum (Fin 10))
                            \<and> js_gt rt (get_prop p ''stock'') (JNum (Fin 0))) products),
       st_outOfStock =
         length (filter (\<lambda>p. strict_eq (get_prop p ''stock'') (JNum (Fin 0))) products) \<rparr>"

text \<open>The products after the three filters and the sort.\<close>

definition admin_sorted :: "runtime \<Rightarrow> obj list \<Rightarrow> obj \<Rightarrow> error + obj list" where
  "admin_sorted rt products query =
     (let sortBy = with_default (JStr ''createdAt'') (get_prop query ''sortBy'');
          sortOrder = with_default (JStr ''desc'') (get_prop query ''sortOrder'');
          sortField = js_or sortBy (JStr ''createdAt'');
          order = (if strict_eq sortOrder (JStr ''asc'') then Fin 1 else Fin (- 1))
      in bindE (admin_filter rt products query) (\<lambda>filtered.
           js_sort (admin_compare rt sortField order) filtered))"

text \<open>
  The answer for the filtered and sorted products \<open>srt\<close>: the page cut out of them, the
  page data and the statistics.
\<close>

definition admin_page :: "runtime \<Rightarrow> obj \<Rightarrow> obj list \<Rightarrow> admin_response" where
  "admin_page rt query srt =
     (let page = with_default (JNum (Fin 1)) (get_prop query ''page'');
          limit = with_default (JNum (Fin 50)) (get_prop query ''limit'');
          sortBy = with_default (JStr ''createdAt'') (get_prop query ''sortBy'');
          sortOrder = with_default (JStr ''desc'') (get_prop query ''sortOrder'');
          pageNum = js_parseInt rt page;
          limitNum = js_parseInt rt limit;
          startIndex = fl_mul rt (fl_sub rt pageNum (Fin 1)) limitNum;
          endIndex = fl_add rt startIndex limitNum;
          total = length srt
      in \<lparr> ar_products = js_slice srt startIndex endIndex,
           ar_pagination =
             \<lparr> currentPage = pageNum,
               totalPages = num_ceil (fl_div rt (Fin (of_nat total)) limitNum),
               totalProducts = total,
               productsPerPage = limitNum,
               hasNextPage = num_lt endIndex (Fin (of_nat total)),
               hasPrevPage = num_lt (Fin 0) startIndex \<rparr>,
           ar_statistics = admin_statistics rt srt,
           ar_category = js_or (get_prop query ''category'') (JStr ''all''),
           ar_search = js_or (get_prop query ''search'') (JStr []),
           ar_status = with_default (JStr ''all'') (get_prop query ''status''),
           ar_sortBy = js_or sortBy (JStr ''createdAt''),
           ar_sortOrder = sortOrder \<rparr>)"

definition queryAdmin :: "runtime \<Rightarrow> obj list \<Rightarrow> obj \<Rightarrow> error + admin_response" where
  "queryAdmin rt products query =
     bindE (admin_sorted rt products query) (\<lambda>srt. Inr (admin_page rt query srt))"

section \<open>Product administration\<close>

text \<open>
  Each handler reads the whole collection, changes it in memory and writes it back. The
  model takes the stored collection and returns the answer together with the collection
  that is stored afterwards. Reading and writing the file itself is assumed to succeed.
  The clock (\<open>new Date().toISOString()\<close>) is the argument \<open>now\<close>.

  The admin routes run behind \<open>authenticateToken\<close> and \<open>requireAdmin\<close>; the model is
  the handler that runs once both have passed, and \<open>user\<close> is the payload of the verified
  token (\<open>req.user\<close>).
\<close>

subsection \<open>\<open>POST /api/admin/products\<close>\<close>

text \<open>\<open>v.trim()\<close>: a \<open>TypeError\<close> unless \<open>v\<close> is a string.\<close>

fun js_trim :: "runtime \<Rightarrow> jsval \<Rightarrow> error + string" where
  "js_trim rt (JStr s) = Inr (rt_trim rt s)"
| "js_trim rt _ = Inl ServerError"

definition nullish :: "jsval \<Rightarrow> bool" where
  "nullish v = (v = JUndefined \<or> v = JNull)"

text \<open>\<open>v?.trim() || d\<close>\<close>

definition trim_or :: "runtime \<Rightarrow> jsval \<Rightarrow> string \<Rightarrow> error + jsval" where
  "trim_or rt v d =
     (if nullish v then Inr (JStr d)
      else bindE (js_trim rt v) (\<lambda>s. Inr (JStr (if s = [] then d else s))))"

text \<open>\<open>v?.toString() || ""\<close>\<close>

definition toString_or_empty :: "runtime \<Rightarrow> jsval \<Rightarrow> jsval" where
  "toString_or_empty rt v = (if nullish v then JStr [] else JStr (ToString rt v))"

definition js_parseFloat :: "runtime \<Rightarrow> jsval \<Rightarrow> jsnum" where
  "js_parseFloat rt v = rt_parseFloat rt (ToString rt v)"

definition requiredFields :: "string list" where
  "requiredFields = [''title'', ''author'', ''price'', ''stock'']"

definition missingFields :: "obj \<Rightarrow> string list" where
  "missingFields body = filter (\<lambda>field. \<not> truthy (get_prop body field)) requiredFields"

text \<open>\<open>lastProduct ? lastProduct.id + 1 : 1\<close>, with \<open>lastProduct\<close> the last element.\<close>

definition newId :: "runtime \<Rightarrow> obj list \<Rightarrow> jsval" where
  "newId rt products =
     (if products = [] then JNum (Fin 1)
      else js_add rt (get_prop (last products) ''id'') (JNum (Fin 1)))"

definition newProduct :: "runtime \<Rightarrow> string \<Rightarrow> obj \<Rightarrow> obj list \<Rightarrow> obj \<Rightarrow> error + obj" where
  "newProduct rt now user products body =
     bindE (js_trim rt (get_prop body ''title'')) (\<lambda>title.
     bindE (js_trim rt (get_prop body ''author'')) (\<lambda>author.
     bindE (trim_or rt (get_prop body ''isbn'') []) (\<lambda>isbn.
     bindE (trim_or rt (get_prop body ''category'') ''General'') (\<lambda>category.
     bindE (trim_or rt (get_prop body ''description'') []) (\<lambda>description.
     bindE (trim_or rt (get_prop body ''imageUrl'') ''/images/default-book.jpg'') (\<lambda>imageUrl.
     bindE (trim_or rt (get_prop body ''publisher'') []) (\<lambda>publisher.
       Inr [(''id'', newId rt products),
            (''title'', JStr title),
            (''author'', JStr author),
            (''isbn'', isbn),
            (''category'', category),
            (''price'', JNum (js_parseFloat rt (get_prop body ''price''))),
            (''discountPrice'',
               if truthy (get_prop body ''discountPrice'')
               then JNum (js_parseFloat rt (get_prop body ''discountPrice'')) else JNull),
            (''description'', description),
            (''imageUrl'', imageUrl),
            (''stock'', JNum (js_parseInt rt (get_prop body ''stock''))),
            (''isActive'', JBool True),
            (''featured'', js_or (get_prop body ''featured'') (JBool False)),
            (''rating'',
               if truthy (get_prop body ''rating'')
               then JNum (js_parseFloat rt (get_prop body ''rating'')) else JNull),
            (''reviewCount'',
               if truthy (get_prop body ''reviewCount'')
               then JNum (js_parseInt rt (get_prop body ''reviewCount'')) else JNum (Fin 0)),
            (''tags'', js_or (get_prop body ''tags'') (JArr [])),
            (''specifications'',
               JObj [(''pages'', toString_or_empty rt (get_prop body ''pages'')),
                     (''language'', JStr ''Romanian''),
                     (''publisher'', publisher),
                     (''year'', toString_or_empty rt (get_prop body ''year'')),
                     (''format'', JStr ''Paperback'')]),
            (''createdAt'', JStr now),
            (''updatedAt'', JStr now),
            (''createdBy'', get_prop user ''id'')])))))))"

definition create_product ::
  "runtime \<Rightarrow> string \<Rightarrow> obj \<Rightarrow> obj list \<Rightarrow> obj \<Rightarrow> (error + obj) \<times> obj list" where
  "create_product rt now user products body =
     (let price = get_prop body ''price'';
          stock = get_prop body ''stock'';
          discountPrice = get_prop body ''discountPrice''
      in if missingFields body \<noteq> [] then (Inl (MissingFields (missingFields body)), products)
         else if js_lt rt price (JNum (Fin 0)) then (Inl (NegativeValue ''price''), products)
         else if js_lt rt stock (JNum (Fin 0)) then (Inl (NegativeValue ''stock''), products)
         else if truthy discountPrice \<and> js_gt rt discountPrice price then
           (Inl InvalidDiscount, products)
         else (case newProduct rt now user products body of
                 Inl e \<Rightarrow> (Inl e, products)
               | Inr p \<Rightarrow> (Inr p, products @ [p])))"

subsection \<open>\<open>PUT /api/admin/products/:id\<close> and \<open>DELETE /api/admin/products/:id\<close>\<close>

text \<open>\<open>Array.prototype.findIndex\<close>: \<open>None\<close> is the result \<open>-1\<close>.\<close>

fun findIndex :: "('a \<Rightarrow> bool) \<Rightarrow> 'a list \<Rightarrow> nat option" where
  "findIndex P [] = None"
| "findIndex P (x # xs) =
     (if P x then Some 0 else map_option Suc (findIndex P xs))"

text \<open>An assignment \<open>o.k = v\<close>.\<close>

definition set_prop :: "obj \<Rightarrow> string \<Rightarrow> jsval \<Rightarrow> obj" where
  "set_prop ob k v = AList.update k v ob"

text \<open>
  The update: \<open>{...products[i], ...updates, updatedAt: now}\<close> replaces the product.
  The path parameter \<open>id\<close> is a string.
\<close>

definition update_product ::
  "runtime \<Rightarrow> string \<Rightarrow> obj list \<Rightarrow> string \<Rightarrow> obj \<Rightarrow> (error + obj) \<times> obj list" where
  "update_product rt now products idParam updates =
     (case findIndex (\<lambda>p. strict_eq (get_prop p ''id'') (JNum (parseInt_str rt idParam)))
             products of
        None \<Rightarrow> (Inl ProductNotFound, products)
      | Some i \<Rightarrow>
          (let p = spread (spread (products ! i) updates) [(''updatedAt'', JStr now)]
           in (Inr p, products[i := p])))"

datatype deletion = Deleted | Deactivated

text \<open>
  The deletion: \<open>splice(i, 1)\<close> when the query parameter \<open>permanent\<close> is truthy, otherwise
  \<open>isActive = false\<close> and a new \<open>updatedAt\<close>.
\<close>

definition delete_product ::
  "runtime \<Rightarrow> string \<Rightarrow> obj list \<Rightarrow> string \<Rightarrow> obj \<Rightarrow> (error + deletion) \<times> obj list" where
  "delete_product rt now products idParam query =
     (let permanent = with_default (JBool False) (get_prop query ''permanent'')
      in case findIndex (\<lambda>p. strict_eq (get_prop p ''id'') (JNum (parseInt_str rt idParam)))
              products of
           None \<Rightarrow> (Inl ProductNotFound, products)
         | Some i \<Rightarrow>
             (if truthy permanent then (Inr Deleted, take i products @ drop (Suc i) products)
              else (Inr Deactivated,
                    products[i := set_prop (set_prop (products ! i) ''isActive'' (JBool False))
                                           ''updatedAt'' (JStr now)])))"

section \<open>Admin login: \<open>POST /api/admin/login\<close>\<close>

record login_response =
  lr_token :: string
  lr_user :: obj

text \<open>
  \<open>bcrypt.compare(password, hash)\<close> rejects arguments that are not two strings; the
  rejection is caught by the handler.
\<close>

definition bcrypt_compare :: "runtime \<Rightarrow> jsval \<Rightarrow> jsval \<Rightarrow> error + bool" where
  "bcrypt_compare rt password hash =
     (case (password, hash) of
        (JStr p, JStr h) \<Rightarrow> Inr (rt_bcrypt_compare rt p h)
      | _ \<Rightarrow> Inl ServerError)"

definition is_admin_with_email :: "jsval \<Rightarrow> obj \<Rightarrow> bool" where
  "is_admin_with_email email u =
     (strict_eq (get_prop u ''email'') email \<and> strict_eq (get_prop u ''role'') (JStr ''admin''))"

definition login :: "runtime \<Rightarrow> obj list \<Rightarrow> obj \<Rightarrow> error + login_response" where
  "login rt users body =
     (let email = get_prop body ''email''; password = get_prop body ''password''
      in if \<not> truthy email \<or> \<not> truthy password then Inl MissingCredentials
         else (case find (is_admin_with_email email) users of
                 None \<Rightarrow> Inl AdminNotFound
               | Some user \<Rightarrow>
                   bindE (bcrypt_compare rt password (get_prop user ''password'')) (\<lambda>valid.
                     if \<not> valid then Inl WrongPassword
                     else Inr \<lparr> lr_token =
                                  rt_jwt_sign rt [(''id'', get_prop user ''id''),
                                                  (''email'', get_prop user ''email''),
                                                  (''role'', get_prop user ''role''),
                                                  (''name'', get_prop user ''name'')],
                                lr_user = [(''id'', get_prop user ''id''),
                                           (''email'', get_prop user ''email''),
                                           (''name'', get_prop user ''name''),
                                           (''role'', get_prop user ''role'')] \<rparr>)))"

section \<open>Cart: \<open>POST /api/cart\<close>\<close>

text \<open>
  The cart document. The stored cart is \<open>None\<close> when the file is missing or unreadable;
  \<open>readCart\<close> then answers a fresh empty cart.
\<close>

record cart =
  items :: "obj list"
  total :: jsval
  totalItems :: jsval
  lastUpdated :: jsval

definition readCart :: "string \<Rightarrow> cart option \<Rightarrow> cart" where
  "readCart now stored =
     (case stored of
        None \<Rightarrow> \<lparr> items = [], total = JNum (Fin 0), totalItems = JNum (Fin 0),
                  lastUpdated = JStr now \<rparr>
      | Some c \<Rightarrow> c)"

definition saveCart :: "string \<Rightarrow> cart \<Rightarrow> cart" where
  "saveCart now c = c\<lparr> lastUpdated := JStr now \<rparr>"

text \<open>\<open>items.reduce((sum, item) => sum + item.price * item.quantity, 0)\<close>\<close>

definition cart_total :: "runtime \<Rightarrow> obj list \<Rightarrow> jsval" where
  "cart_total rt its =
     foldl (\<lambda>sum item. js_add rt sum
               (JNum (js_mul rt (get_prop item ''price'') (get_prop item ''quantity''))))
           (JNum (Fin 0)) its"

text \<open>\<open>items.reduce((sum, item) => sum + item.quantity, 0)\<close>\<close>

definition cart_totalItems :: "runtime \<Rightarrow> obj list \<Rightarrow> jsval" where
  "cart_totalItems rt its =
     foldl (\<lambda>sum item. js_add rt sum (get_prop item ''quantity'')) (JNum (Fin 0)) its"

definition find_product :: "jsval \<Rightarrow> obj list \<Rightarrow> obj option" where
  "find_product productId products =
     find (\<lambda>p. strict_eq (get_prop p ''id'') productId
              \<and> strict_eq (get_prop p ''isActive'') (JBool True)) products"

definition new_item :: "string \<Rightarrow> obj \<Rightarrow> jsval \<Rightarrow> jsval \<Rightarrow> obj" where
  "new_item now product productId quantity =
     [(''productId'', productId),
      (''quantity'', quantity),
      (''title'', get_prop product ''title''),
      (''author'', get_prop product ''author''),
      (''price'', js_or (get_prop product ''discountPrice'') (get_prop product ''price'')),
      (''imageUrl'', get_prop product ''imageUrl''),
      (''addedAt'', JStr now)]"

text \<open>The line items after the add: the quantity of the matching line grows, or a line is appended.\<close>

definition merge_item :: "runtime \<Rightarrow> string \<Rightarrow> obj \<Rightarrow> jsval \<Rightarrow> jsval \<Rightarrow> obj list \<Rightarrow> obj list" where
  "merge_item rt now product productId quantity its =
     (case findIndex (\<lambda>item. strict_eq (get_prop item ''productId'') productId) its of
        Some i \<Rightarrow>
          its[i := set_prop (its ! i) ''quantity''
                     (js_add rt (get_prop (its ! i) ''quantity'') quantity)]
      | None \<Rightarrow> its @ [new_item now product productId quantity])"

text \<open>
  The handler: the answer and the cart that is stored afterwards. Only the last step
  writes the cart.
\<close>

definition addItem ::
  "runtime \<Rightarrow> string \<Rightarrow> obj list \<Rightarrow> cart option \<Rightarrow> obj \<Rightarrow> (error + cart) \<times> cart option" where
  "addItem rt now products stored body =
     (let productId = get_prop body ''productId'';
          quantity = with_default (JNum (Fin 1)) (get_prop body ''quantity'')
      in if \<not> truthy productId then (Inl MissingProduct, stored)
         else (case find_product productId products of
                 None \<Rightarrow> (Inl ProductNotFound, stored)
               | Some product \<Rightarrow>
                   if js_lt rt (get_prop product ''stock'') quantity then
                     (Inl InsufficientStock, stored)
                   else
                     (let c = readCart now stored;
                          its = merge_item rt now product productId quantity (items c);
                          c' = saveCart now
                                 (c\<lparr> items := its,
                                     total := cart_total rt its,
                                     totalItems := cart_totalItems rt its \<rparr>)
                      in (Inr c', Some c'))))"

section \<open>Sample data\<close>

text \<open>
  A small runtime and a small catalogue, on which the handlers are evaluated below. The
  runtime is a stand-in (ASCII lower case, integers only, a recognisable fake hash, no
  rounding); the general theorems do not depend on it.
\<close>

definition ascii_lower :: "char \<Rightarrow> char" where
  "ascii_lower c =
     (case map_of (zip ''ABCDEFGHIJKLMNOPQRSTUVWXYZ'' ''abcdefghijklmnopqrstuvwxyz'') c of
        None \<Rightarrow> c | Some d \<Rightarrow> d)"

definition is_ws :: "char \<Rightarrow> bool" where
  "is_ws c = (c \<in> set [CHR '' '', CHR 0x09, CHR 0x0A, CHR 0x0B, CHR 0x0C, CHR 0x0D])"

definition sample_parse :: "string \<Rightarrow> jsnum" where
  "sample_parse s = (case parse_int s of None \<Rightarrow> NaN | Some i \<Rightarrow> Fin (of_int i))"

definition sample_runtime :: runtime where
  "sample_runtime =
     \<lparr> rt_toLowerCase = map ascii_lower,
       rt_trim = (\<lambda>s. rev (dropWhile is_ws (rev (dropWhile is_ws s)))),
       rt_localeCompare = (\<lambda>s t. if s = t then 0 else if str_lt s t then - 1 else 1),
       rt_StringToNumber = (\<lambda>s. if skip_ws s = [] then Fin 0 else sample_parse s),
       rt_NumberToString = (\<lambda>r. show_int \<lfloor>r\<rfloor>),
       rt_parseFloat = sample_parse,
       rt_Date = (\<lambda>v. NaN),
       rt_bcrypt_compare = (\<lambda>p h. h = ''bcrypt:'' @ p),
       rt_jwt_sign = (\<lambda>payload. ''jwt''),
       rt_round = Fin \<rparr>"

definition book :: "rat \<Rightarrow> string \<Rightarrow> rat \<Rightarrow> rat \<Rightarrow> bool \<Rightarrow> obj" where
  "book i t p s a =
     [(''id'', JNum (Fin i)), (''title'', JStr t), (''author'', JStr ''Ion Creanga''),
      (''category'', JStr ''Fiction''), (''price'', JNum (Fin p)), (''stock'', JNum (Fin s)),
      (''isActive'', JBool a)]"

definition sample_products :: "obj list" where
  "sample_products =
     [book 1 ''Amintiri'' 30 5 True, book 2 ''Povesti'' 25 0 False, book 3 ''Basme'' 20 12 True]"

text \<open>An administrator whose password is \<open>passAdm\<close>, and a customer with the same password.\<close>

definition sample_admin :: obj where
  "sample_admin =
     [(''id'', JNum (Fin 1)), (''email'', JStr ''admin@bookstore.com''),
      (''password'', JStr ''bcrypt:passAdm''), (''role'', JStr ''admin''),
      (''name'', JStr ''Admin'')]"

definition sample_customer :: obj where
  "sample_customer =
     [(''id'', JNum (Fin 2)), (''email'', JStr ''ana@bookstore.com''),
      (''password'', JStr ''bcrypt:passAdm''), (''role'', JStr ''customer''),
      (''name'', JStr ''Ana'')]"

text \<open>A stored cart that holds five copies of the first sample book.\<close>

definition sample_cart :: cart where
  "sample_cart =
     \<lparr> items = [[(''productId'', JNum (Fin 1)), (''quantity'', JNum (Fin 5)),
                 (''title'', JStr ''Amintiri''), (''author'', JStr ''Ion Creanga''),
                 (''price'', JNum (Fin 30)), (''imageUrl'', JUndefined),
                 (''addedAt'', JStr ''2026-01-01'')]],
       total = JNum (Fin 150), totalItems = JNum (Fin 5),
       lastUpdated = JStr ''2026-01-01'' \<rparr>"

section \<open>General facts\<close>

lemma strict_eq_JBool [simp]: "strict_eq v (JBool b) \<longleftrightarrow> v = JBool b"
  by (cases v) auto

lemma strict_eq_JStr [simp]: "strict_eq v (JStr s) \<longleftrightarrow> v = JStr s"
  by (cases v) auto

lemma bindE_Inr_iff: "bindE m f = Inr y \<longleftrightarrow> (\<exists>x. m = Inr x \<and> f x = Inr y)"
  by (cases m) (auto simp: bindE_def)

lemma filterE_Inr: "filterE f xs = Inr ys \<Longrightarrow> ys = filter (\<lambda>x. f x = Inr True) xs"
  by (induction xs arbitrary: ys) (auto split: sum.splits if_splits)

text \<open>A sort that returns, returns a permutation of its input.\<close>

lemma sort_insert_mset: "sort_insert cmp p es = Inr r \<Longrightarrow> mset r = add_mset p (mset es)"
  by (induction es arbitrary: r) (auto split: sum.splits if_splits)

lemma sort_from_mset: "sort_from cmp acc ps = Inr r \<Longrightarrow> mset r = mset acc + mset ps"
  by (induction ps arbitrary: acc r) (auto split: sum.splits dest!: sort_insert_mset)

lemma js_sort_mset: "js_sort cmp xs = Inr ys \<Longrightarrow> mset ys = mset xs"
  unfolding js_sort_def by (drule sort_from_mset) simp

section \<open>The public catalogue shows active products only\<close>

lemma public_sort_mset: "public_sort rt s xs = Inr ys \<Longrightarrow> mset ys = mset xs"
  unfolding public_sort_def by (auto split: if_splits dest: js_sort_mset)

lemma public_filter_subset:
  assumes "public_filter rt products query = Inr ys"
  shows "set ys \<subseteq> {p \<in> set products. get_prop p ''isActive'' = JBool True}"
  using assms unfolding public_filter_def Let_def
  by (auto simp: bindE_Inr_iff split: if_splits dest!: filterE_Inr)

text \<open>
  Claim C1. Whatever the stored products and whatever the query (category, search and
  sort in any combination), every product in the list that the public catalogue returns
  is one of the stored products and has \<open>isActive === true\<close>; in particular none has
  \<open>isActive\<close> false.
\<close>

theorem queryPublic_only_active:
  assumes "queryPublic rt products query = Inr res"
  shows "\<forall>p \<in> set (pr_products res).
           p \<in> set products \<and> get_prop p ''isActive'' = JBool True
           \<and> get_prop p ''isActive'' \<noteq> JBool False"
proof -
  from assms obtain filtered sorted where
    f: "public_filter rt products query = Inr filtered" and
    s: "public_sort rt (get_prop query ''sort'') filtered = Inr sorted" and
    r: "pr_products res = sorted"
    unfolding queryPublic_def by (auto simp: bindE_Inr_iff)
  from s have "set sorted = set filtered"
    by (metis public_sort_mset set_mset_mset)
  with public_filter_subset[OF f] r show ?thesis by auto
qed

text \<open>
  On the sample catalogue, whose second book is inactive, a search for \<open>a\<close> sorted by
  ascending price returns the two active books.
\<close>

theorem queryPublic_only_active_witness:
  "queryPublic sample_runtime sample_products
       [(''sort'', JStr ''price_asc''), (''search'', JStr ''a'')]
     = Inr \<lparr> pr_products = [book 3 ''Basme'' 20 12 True, book 1 ''Amintiri'' 30 5 True],
             pr_total = 2, pr_category = JNull, pr_search = JStr ''a'',
             pr_sort = JStr ''price_asc'' \<rparr>
   \<and> book 3 ''Basme'' 20 12 True \<in> set sample_products
   \<and> get_prop (book 3 ''Basme'' 20 12 True) ''isActive'' = JBool True
   \<and> book 1 ''Amintiri'' 30 5 True \<in> set sample_products
   \<and> get_prop (book 1 ''Amintiri'' 30 5 True) ''isActive'' = JBool True"
proof -
  have h: "queryPublic sample_runtime sample_products
             [(''sort'', JStr ''price_asc''), (''search'', JStr ''a'')]
           = Inr \<lparr> pr_products = [book 3 ''Basme'' 20 12 True, book 1 ''Amintiri'' 30 5 True],
                   pr_total = 2, pr_category = JNull, pr_search = JStr ''a'',
                   pr_sort = JStr ''price_asc'' \<rparr>"
    by (simp add: queryPublic_def public_filter_def public_sort_def sample_products_def
        book_def get_prop_def bindE_def orE_def text_match_def js_sort_def js_sub_def
        num_sub_def js_or_def sample_runtime_def ascii_lower_def)
  from queryPublic_only_active[OF h] h show ?thesis by simp
qed

section \<open>Sorting by price, ascending and descending\<close>

lemma sort_insert_key:
  assumes cmp: "\<And>a b. a \<in> S \<Longrightarrow> b \<in> S \<Longrightarrow> cmp a b = Inr (Fin (k a - k b))"
      and "p \<in> S" "set es \<subseteq> S" "sorted (map k es)"
  shows "\<exists>r. sort_insert cmp p es = Inr r \<and> sorted (map k r)"
  using assms(2-)
proof (induction es)
  case Nil
  then show ?case by simp
next
  case (Cons e es)
  then obtain r where r: "sort_insert cmp p es = Inr r" "sorted (map k r)" by auto
  have c: "cmp p e = Inr (Fin (k p - k e))" using Cons.prems cmp by simp
  show ?case
  proof (cases "k p < k e")
    case True
    with c Cons.prems show ?thesis by (auto simp: less_imp_le order_trans[OF less_imp_le])
  next
    case False
    have "set r = insert p (set es)"
      using sort_insert_mset[OF r(1)] by (metis set_mset_add_mset_insert set_mset_mset)
    with False c r Cons.prems show ?thesis by auto
  qed
qed

lemma sort_from_key:
  assumes cmp: "\<And>a b. a \<in> S \<Longrightarrow> b \<in> S \<Longrightarrow> cmp a b = Inr (Fin (k a - k b))"
      and "set acc \<subseteq> S" "set ps \<subseteq> S" "sorted (map k acc)"
  shows "\<exists>r. sort_from cmp acc ps = Inr r \<and> sorted (map k r)"
  using assms(2-)
proof (induction ps arbitrary: acc)
  case Nil
  then show ?case by simp
next
  case (Cons p ps)
  have "\<exists>r. sort_insert cmp p acc = Inr r \<and> sorted (map k r)"
    by (rule sort_insert_key[where S=S]) (use cmp Cons.prems in auto)
  then obtain a where a: "sort_insert cmp p acc = Inr a" "sorted (map k a)" by auto
  have "set a = insert p (set acc)"
    using sort_insert_mset[OF a(1)] by (metis set_mset_add_mset_insert set_mset_mset)
  with Cons.prems have "set a \<subseteq> S" by auto
  from Cons.IH[OF this _ a(2)] Cons.prems a(1) show ?case by auto
qed

lemma js_sort_key:
  assumes cmp: "\<And>a b. a \<in> set xs \<Longrightarrow> b \<in> set xs \<Longrightarrow> cmp a b = Inr (Fin (k a - k b))"
  shows "\<exists>r. js_sort cmp xs = Inr r \<and> sorted (map k r) \<and> mset r = mset xs"
proof -
  have "\<exists>r. sort_from cmp [] xs = Inr r \<and> sorted (map k r)"
    by (rule sort_from_key[where S="set xs"]) (use cmp in auto)
  then obtain r where r: "sort_from cmp [] xs = Inr r" "sorted (map k r)" by auto
  then show ?thesis using js_sort_mset[of cmp xs r] by (auto simp: js_sort_def)
qed

lemma sorted_key_unique:
  fixes k :: "'a \<Rightarrow> rat"
  assumes "sorted (map k xs)" "sorted (map k ys)" "mset xs = mset ys" "inj_on k (set xs)"
  shows "xs = ys"
proof -
  have s: "set xs = set ys" using assms(3) by (metis set_mset_mset)
  have "mset (map k xs) = mset (map k ys)" using assms(3) by simp
  then have "map k xs = map k ys"
    using assms(1,2) by (metis properties_for_sort)
  with assms(4) s show ?thesis by (simp add: inj_on_map_eq_map[of k xs ys])
qed

lemma js_sub_Fin: "js_sub rt (JNum (Fin a)) (JNum (Fin b)) = Fin (a - b)"
  by (simp add: js_sub_def num_sub_def)

lemma price_sorts_reverse:
  assumes num: "\<forall>p \<in> set xs. \<exists>r. get_prop p ''price'' = JNum (Fin r)"
      and dist: "distinct (map (\<lambda>p. get_prop p ''price'') xs)"
  shows "\<exists>a d. js_sort (\<lambda>a b. Inr (js_sub rt (get_prop a ''price'') (get_prop b ''price''))) xs = Inr a
         \<and> js_sort (\<lambda>a b. Inr (js_sub rt (get_prop b ''price'') (get_prop a ''price''))) xs = Inr d
         \<and> a = rev d"
proof -
  let ?k = "\<lambda>p. num_of (get_prop p ''price'')"
  have ka: "Inr (js_sub rt (get_prop a ''price'') (get_prop b ''price''))
              = (Inr (Fin (?k a - ?k b)) :: error + jsnum)"
    if "a \<in> set xs" "b \<in> set xs" for a b
  proof -
    from num that obtain ra rb where
      "get_prop a ''price'' = JNum (Fin ra)" "get_prop b ''price'' = JNum (Fin rb)" by blast
    then show ?thesis by (simp add: js_sub_Fin)
  qed
  have kd: "Inr (js_sub rt (get_prop b ''price'') (get_prop a ''price''))
              = (Inr (Fin ((- ?k a) - (- ?k b))) :: error + jsnum)"
    if "a \<in> set xs" "b \<in> set xs" for a b
  proof -
    from num that obtain ra rb where
      "get_prop a ''price'' = JNum (Fin ra)" "get_prop b ''price'' = JNum (Fin rb)" by blast
    then show ?thesis by (simp add: js_sub_Fin)
  qed
  from js_sort_key[of xs _ ?k, OF ka] obtain a where
    a: "js_sort (\<lambda>a b. Inr (js_sub rt (get_prop a ''price'') (get_prop b ''price''))) xs = Inr a"
       "sorted (map ?k a)" "mset a = mset xs" by blast
  from js_sort_key[of xs _ "\<lambda>p. - ?k p", OF kd] obtain d where
    d: "js_sort (\<lambda>a b. Inr (js_sub rt (get_prop b ''price'') (get_prop a ''price''))) xs = Inr d"
       "sorted (map (\<lambda>p. - ?k p) d)" "mset d = mset xs" by blast
  have "sorted (map ?k (rev d))"
    using d(2) by (simp add: sorted_map sorted_wrt_rev)
  moreover have "mset a = mset (rev d)" using a(3) d(3) by simp
  moreover have "inj_on ?k (set a)"
  proof -
    have sa: "set a = set xs" using a(3) by (metis set_mset_mset)
    have "inj_on (\<lambda>p. get_prop p ''price'') (set xs)" using dist by (simp add: distinct_map)
    then have "\<And>x y. x \<in> set xs \<Longrightarrow> y \<in> set xs \<Longrightarrow>
        get_prop x ''price'' = get_prop y ''price'' \<Longrightarrow> x = y"
      by (auto dest: inj_onD)
    moreover have "get_prop x ''price'' = get_prop y ''price''"
      if "x \<in> set xs" "y \<in> set xs" "?k x = ?k y" for x y
    proof -
      from num that obtain rx ry where
        "get_prop x ''price'' = JNum (Fin rx)" "get_prop y ''price'' = JNum (Fin ry)" by blast
      with that(3) show ?thesis by simp
    qed
    ultimately show ?thesis unfolding sa by (intro inj_onI) blast

  qed
  ultimately have "a = rev d" using a(2) by (intro sorted_key_unique[of ?k]) auto
  with a(1) d(1) show ?thesis by blast
qed

lemma public_filter_cong:
  assumes "get_prop qa ''category'' = get_prop qd ''category''"
      and "get_prop qa ''search'' = get_prop qd ''search''"
  shows "public_filter rt products qa = public_filter rt products qd"
  using assms by (simp add: public_filter_def)

lemma public_filter_distinct:
  assumes "public_filter rt products query = Inr ys" "distinct (map k products)"
  shows "distinct (map k ys)"
  using assms unfolding public_filter_def Let_def
  by (auto simp: bindE_Inr_iff distinct_map_filter split: if_splits dest!: filterE_Inr)

text \<open>
  Claim C9. When every stored price is a finite number and the prices are pairwise
  distinct, the public query sorted by \<open>price_asc\<close> and the same query (same category and
  search) sorted by \<open>price_desc\<close> fail together or return lists that are the reverse of
  each other.
\<close>

theorem price_asc_is_reverse_of_price_desc:
  assumes num: "\<forall>p \<in> set products. \<exists>r. get_prop p ''price'' = JNum (Fin r)"
      and dist: "distinct (map (\<lambda>p. get_prop p ''price'') products)"
      and asc: "get_prop qa ''sort'' = JStr ''price_asc''"
      and desc: "get_prop qd ''sort'' = JStr ''price_desc''"
      and cat: "get_prop qa ''category'' = get_prop qd ''category''"
      and search: "get_prop qa ''search'' = get_prop qd ''search''"
  shows "map_sum id pr_products (queryPublic rt products qa)
         = map_sum id (\<lambda>r. rev (pr_products r)) (queryPublic rt products qd)"
proof (cases "public_filter rt products qd")
  case (Inl e)
  then show ?thesis
    using public_filter_cong[OF cat search, of rt products]
    by (simp add: queryPublic_def bindE_def)
next
  case (Inr xs)
  from public_filter_subset[OF Inr] have sub: "set xs \<subseteq> set products" by auto
  have fa: "public_filter rt products qa = Inr xs"
    using public_filter_cong[OF cat search, of rt products] Inr by simp
  have dx: "distinct (map (\<lambda>p. get_prop p ''price'') xs)"
    using Inr dist by (rule public_filter_distinct)
  have nx: "\<forall>p \<in> set xs. \<exists>r. get_prop p ''price'' = JNum (Fin r)" using num sub by auto
  from price_sorts_reverse[OF nx dx, of rt] obtain a d where
    "js_sort (\<lambda>a b. Inr (js_sub rt (get_prop a ''price'') (get_prop b ''price''))) xs = Inr a"
    "js_sort (\<lambda>a b. Inr (js_sub rt (get_prop b ''price'') (get_prop a ''price''))) xs = Inr d"
    "a = rev d" by blast
  then show ?thesis
    using Inr fa asc desc
    by (simp add: queryPublic_def bindE_def public_sort_def)
qed

text \<open>On the sample catalogue: cheapest first is the reverse of dearest first.\<close>

theorem price_asc_is_reverse_of_price_desc_witness:
  "map_sum id pr_products
       (queryPublic sample_runtime sample_products [(''sort'', JStr ''price_asc'')])
     = Inr [book 3 ''Basme'' 20 12 True, book 1 ''Amintiri'' 30 5 True]
   \<and> map_sum id pr_products
       (queryPublic sample_runtime sample_products [(''sort'', JStr ''price_desc'')])
     = Inr [book 1 ''Amintiri'' 30 5 True, book 3 ''Basme'' 20 12 True]"
proof -
  have num: "\<forall>p \<in> set sample_products. \<exists>r. get_prop p ''price'' = JNum (Fin r)"
    by (simp add: sample_products_def book_def get_prop_def)
  have dist: "distinct (map (\<lambda>p. get_prop p ''price'') sample_products)"
    by (simp add: sample_products_def book_def get_prop_def)
  have d: "map_sum id pr_products
             (queryPublic sample_runtime sample_products [(''sort'', JStr ''price_desc'')])
           = Inr [book 1 ''Amintiri'' 30 5 True, book 3 ''Basme'' 20 12 True]"
    by (simp add: queryPublic_def public_filter_def public_sort_def sample_products_def
        book_def get_prop_def bindE_def js_sort_def js_sub_def num_sub_def js_or_def)
  have "map_sum id pr_products
          (queryPublic sample_runtime sample_products [(''sort'', JStr ''price_asc'')])
        = map_sum id (\<lambda>r. rev (pr_products r))
            (queryPublic sample_runtime sample_products [(''sort'', JStr ''price_desc'')])"
    by (rule price_asc_is_reverse_of_price_desc[OF num dist]) (simp_all add: get_prop_def)
  also have "\<dots> = Inr [book 3 ''Basme'' 20 12 True, book 1 ''Amintiri'' 30 5 True]"
    by (simp add: queryPublic_def public_filter_def public_sort_def sample_products_def
        book_def get_prop_def bindE_def js_sort_def js_sub_def num_sub_def js_or_def)
  finally show ?thesis using d by simp
qed

section \<open>The admin catalogue: statistics\<close>

lemma js_lt_JNum_right: "js_lt rt v (JNum n) = num_lt (ToNumber rt v) n"
  by (cases v) (simp_all add: js_lt_def)

lemma js_lt_JNum_left: "js_lt rt (JNum n) v = num_lt n (ToNumber rt v)"
  by (cases v) (simp_all add: js_lt_def)

lemma strict_eq_JNum_Fin: "strict_eq v (JNum (Fin r)) \<longleftrightarrow> v = JNum (Fin r)"
  by (cases v) auto

lemma length_filter_mset: "mset ys = mset xs \<Longrightarrow> length (filter P ys) = length (filter P xs)"
  by (metis mset_filter size_mset)

lemma admin_statistics_mset:
  "mset ys = mset xs \<Longrightarrow> admin_statistics rt ys = admin_statistics rt xs"
  unfolding admin_statistics_def
  by (simp add: length_filter_mset[of ys xs] mset_eq_length[of ys xs])

lemma admin_filter_cong:
  assumes "get_prop q' ''category'' = get_prop q ''category''"
      and "get_prop q' ''search'' = get_prop q ''search''"
      and "get_prop q' ''status'' = get_prop q ''status''"
  shows "admin_filter rt products q' = admin_filter rt products q"
  using assms by (simp add: admin_filter_def)

lemma admin_sorted_cong:
  assumes "\<forall>k. k \<noteq> ''page'' \<and> k \<noteq> ''limit'' \<longrightarrow> get_prop q' k = get_prop q k"
  shows "admin_sorted rt products q' = admin_sorted rt products q"
proof -
  have "get_prop q' ''category'' = get_prop q ''category''"
       "get_prop q' ''search'' = get_prop q ''search''"
       "get_prop q' ''status'' = get_prop q ''status''"
       "get_prop q' ''sortBy'' = get_prop q ''sortBy''"
       "get_prop q' ''sortOrder'' = get_prop q ''sortOrder''"
    using assms by simp_all
  then show ?thesis
    by (simp add: admin_sorted_def admin_filter_cong[of q' q])
qed

lemma admin_sorted_mset:
  assumes "admin_sorted rt products query = Inr srt"
  shows "\<exists>filtered. admin_filter rt products query = Inr filtered \<and> mset srt = mset filtered"
  using assms unfolding admin_sorted_def Let_def
  by (auto simp: bindE_Inr_iff dest: js_sort_mset)

lemma ar_statistics_admin_page [simp]:
  "ar_statistics (admin_page rt query srt) = admin_statistics rt srt"
  by (simp add: admin_page_def Let_def)

lemma queryAdmin_Inr:
  assumes "queryAdmin rt products query = Inr res"
  shows "\<exists>srt. admin_sorted rt products query = Inr srt \<and> res = admin_page rt query srt"
  using assms unfolding queryAdmin_def
  by (auto simp: bindE_Inr_iff)

lemma queryAdmin_statistics_eq:
  "map_sum id ar_statistics (queryAdmin rt products query)
     = map_sum id (admin_statistics rt) (admin_sorted rt products query)"
  unfolding queryAdmin_def
  by (cases "admin_sorted rt products query") (simp_all add: bindE_def)

text \<open>
  Claim C4. When the admin query answers, its statistics are those of the whole filtered
  list (the products left by the status, category and search filters), whatever the page
  and the limit: \<open>total\<close> is its length, \<open>active + inactive = total\<close>, \<open>lowStock\<close> counts
  the products whose stock is a number strictly between 0 and 10, \<open>outOfStock\<close> those
  whose stock is 0, and a query that differs in \<open>page\<close> and \<open>limit\<close> only answers with the
  same statistics.
\<close>

theorem queryAdmin_statistics_over_filtered_set:
  assumes "queryAdmin rt products query = Inr res"
  shows "\<exists>filtered. admin_filter rt products query = Inr filtered
           \<and> st_total (ar_statistics res) = length filtered
           \<and> st_active (ar_statistics res) + st_inactive (ar_statistics res)
               = st_total (ar_statistics res)
           \<and> st_active (ar_statistics res)
               = length (filter (\<lambda>p. truthy (get_prop p ''isActive'')) filtered)
           \<and> st_lowStock (ar_statistics res)
               = length (filter (\<lambda>p. num_lt (Fin 0) (ToNumber rt (get_prop p ''stock''))
                                    \<and> num_lt (ToNumber rt (get_prop p ''stock'')) (Fin 10)) filtered)
           \<and> st_outOfStock (ar_statistics res)
               = length (filter (\<lambda>p. get_prop p ''stock'' = JNum (Fin 0)) filtered)
           \<and> (\<forall>query'. (\<forall>k. k \<noteq> ''page'' \<and> k \<noteq> ''limit'' \<longrightarrow> get_prop query' k = get_prop query k)
                 \<longrightarrow> map_sum id ar_statistics (queryAdmin rt products query')
                       = Inr (ar_statistics res))"
proof -
  from queryAdmin_Inr[OF assms] obtain srt where
    s: "admin_sorted rt products query = Inr srt" and
    st: "ar_statistics res = admin_statistics rt srt" by auto
  from admin_sorted_mset[OF s] obtain filtered where
    f: "admin_filter rt products query = Inr filtered" and m: "mset srt = mset filtered"
    by blast
  have st': "ar_statistics res = admin_statistics rt filtered"
    using st admin_statistics_mset[OF m] by simp
  have indep: "map_sum id ar_statistics (queryAdmin rt products query') = Inr (ar_statistics res)"
    if "\<forall>k. k \<noteq> ''page'' \<and> k \<noteq> ''limit'' \<longrightarrow> get_prop query' k = get_prop query k" for query'
    using admin_sorted_cong[OF that, of rt products] s st
    by (simp add: queryAdmin_statistics_eq)
  have "st_active (ar_statistics res) + st_inactive (ar_statistics res)
               = st_total (ar_statistics res)"
    unfolding st' admin_statistics_def by (simp add: sum_length_filter_compl)
  moreover have "st_lowStock (ar_statistics res)
               = length (filter (\<lambda>p. num_lt (Fin 0) (ToNumber rt (get_prop p ''stock''))
                                    \<and> num_lt (ToNumber rt (get_prop p ''stock'')) (Fin 10)) filtered)"
    unfolding st' admin_statistics_def
    by (simp add: js_gt_def js_lt_JNum_right js_lt_JNum_left conj_commute)
  moreover have "st_outOfStock (ar_statistics res)
               = length (filter (\<lambda>p. get_prop p ''stock'' = JNum (Fin 0)) filtered)"
    unfolding st' admin_statistics_def by (simp add: strict_eq_JNum_Fin)
  moreover have "st_total (ar_statistics res) = length filtered"
      "st_active (ar_statistics res)
               = length (filter (\<lambda>p. truthy (get_prop p ''isActive'')) filtered)"
    unfolding st' admin_statistics_def by simp_all
  ultimately show ?thesis using f indep by blast
qed

text \<open>
  On the sample catalogue the second page of two products holds one product, and the
  statistics count all three; the first page of fifty gives the same statistics.
\<close>

theorem queryAdmin_statistics_over_filtered_set_witness:
  "queryAdmin sample_runtime sample_products [(''page'', JStr ''2''), (''limit'', JStr ''2'')]
     = Inr \<lparr> ar_products = [book 3 ''Basme'' 20 12 True],
           ar_pagination =
             \<lparr> currentPage = Fin 2, totalPages = Fin 2, totalProducts = 3,
               productsPerPage = Fin 2, hasNextPage = False, hasPrevPage = True \<rparr>,
           ar_statistics =
             \<lparr> st_total = 3, st_active = 2, st_inactive = 1, st_lowStock = 1,
               st_outOfStock = 1 \<rparr>,
           ar_category = JStr ''all'', ar_search = JStr [], ar_status = JStr ''all'',
           ar_sortBy = JStr ''createdAt'', ar_sortOrder = JStr ''desc'' \<rparr>
   \<and> map_sum id ar_statistics
         (queryAdmin sample_runtime sample_products
            [(''page'', JStr ''1''), (''limit'', JStr ''50'')])
       = Inr \<lparr> st_total = 3, st_active = 2, st_inactive = 1, st_lowStock = 1,
               st_outOfStock = 1 \<rparr>"
proof -
  have h: "queryAdmin sample_runtime sample_products [(''page'', JStr ''2''), (''limit'', JStr ''2'')]
     = Inr \<lparr> ar_products = [book 3 ''Basme'' 20 12 True],
           ar_pagination =
             \<lparr> currentPage = Fin 2, totalPages = Fin 2, totalProducts = 3,
               productsPerPage = Fin 2, hasNextPage = False, hasPrevPage = True \<rparr>,
           ar_statistics =
             \<lparr> st_total = 3, st_active = 2, st_inactive = 1, st_lowStock = 1,
               st_outOfStock = 1 \<rparr>,
           ar_category = JStr ''all'', ar_search = JStr [], ar_status = JStr ''all'',
           ar_sortBy = JStr ''createdAt'', ar_sortOrder = JStr ''desc'' \<rparr>"
    by code_simp
  have same: "\<forall>k. k \<noteq> ''page'' \<and> k \<noteq> ''limit''
                \<longrightarrow> get_prop [(''page'', JStr ''1''), (''limit'', JStr ''50'')] k
                    = get_prop [(''page'', JStr ''2''), (''limit'', JStr ''2'')] k"
    by (simp add: get_prop_def)
  from queryAdmin_statistics_over_filtered_set[OF h] same
  have "map_sum id ar_statistics
          (queryAdmin sample_runtime sample_products
             [(''page'', JStr ''1''), (''limit'', JStr ''50'')])
        = Inr \<lparr> st_total = 3, st_active = 2, st_inactive = 1, st_lowStock = 1,
                st_outOfStock = 1 \<rparr>"
    by (elim exE conjE) (drule spec, drule mp, assumption, simp)
  with h show ?thesis by simp
qed

section \<open>Rounding\<close>

text \<open>Consequences of \<open>ieee_rounding\<close>, and the sample runtime has it.\<close>

lemma ieee_rounding_sample: "ieee_rounding sample_runtime"
  by (simp add: ieee_rounding_def sample_runtime_def)

lemma ieee_int:
  "ieee_rounding rt \<Longrightarrow> \<bar>i\<bar> \<le> 2 ^ 53 \<Longrightarrow> rt_round rt (of_int i) = Fin (of_int i)"
  by (simp add: ieee_rounding_def)

lemma ieee_nat:
  assumes "ieee_rounding rt" "n \<le> 2 ^ 53"
  shows "rt_round rt (of_nat n) = Fin (of_nat n)"
proof -
  have "\<bar>int n\<bar> \<le> 2 ^ 53" using assms(2) by (simp add: of_nat_le_iff[of n "2 ^ 53", where ?'a = int, simplified])
  from ieee_int[OF assms(1) this] show ?thesis by simp
qed

lemma ieee_mono:
  "ieee_rounding rt \<Longrightarrow> x \<le> y \<Longrightarrow> \<not> num_lt (rt_round rt y) (rt_round rt x)"
  by (simp add: ieee_rounding_def)

lemma ieee_not_NaN: "ieee_rounding rt \<Longrightarrow> rt_round rt x \<noteq> NaN"
  by (simp add: ieee_rounding_def)

lemma ieee_big:
  assumes "ieee_rounding rt" "2 ^ 53 \<le> x"
  shows "rt_round rt x = PInf \<or> (\<exists>y. rt_round rt x = Fin y \<and> 2 ^ 53 \<le> y)"
proof -
  have e: "rt_round rt (2 ^ 53) = Fin (2 ^ 53)"
    using ieee_int[OF assms(1), of "2 ^ 53"] by simp
  from ieee_mono[OF assms] e have m: "\<not> num_lt (rt_round rt x) (Fin (2 ^ 53))"
    by simp
  show ?thesis
  proof (cases "rt_round rt x")
    case (Fin y)
    with m show ?thesis by simp
  next
    case PInf
    then show ?thesis by simp
  next
    case NInf
    with m show ?thesis by simp
  next
    case NaN
    with ieee_not_NaN[OF assms(1)] show ?thesis by simp
  qed
qed

lemma two53_le_of_nat:
  assumes "2 ^ 53 \<le> (n :: nat)"
  shows "(2 ^ 53 :: rat) \<le> of_nat n"
proof -
  have "(of_nat (2 ^ 53) :: rat) \<le> of_nat n" using assms by (simp only: of_nat_le_iff)
  moreover have "(of_nat (2 ^ 53) :: rat) = 2 ^ 53" by simp
  ultimately show ?thesis by (simp only:)
qed

lemma ieee_normal:
  assumes "ieee_rounding rt" "1 \<le> x" "x \<le> 2 ^ 53"
  shows "\<exists>y. rt_round rt x = Fin y \<and> \<bar>y - x\<bar> * 2 ^ 53 \<le> x"
proof -
  have "(1::rat) / 2 ^ 1022 \<le> 1" by (simp add: divide_le_eq)
  with assms(2) have a: "1 / 2 ^ 1022 \<le> \<bar>x\<bar>" by linarith
  have "(2::rat) ^ 53 \<le> 2 ^ 1023" by (rule power_increasing) simp_all
  with assms(2,3) have b: "\<bar>x\<bar> \<le> 2 ^ 1023" by linarith
  from assms(1) a b have "\<exists>y. rt_round rt x = Fin y \<and> \<bar>y - x\<bar> * 2 ^ 53 \<le> \<bar>x\<bar>"
    unfolding ieee_rounding_def by blast
  moreover have "\<bar>x\<bar> = x" using assms(2) by simp
  ultimately show ?thesis by (simp only:)
qed

lemma ieee_tiny:
  assumes r: "ieee_rounding rt" and x: "1 / 2 ^ 1074 \<le> x" "x \<le> 1"
  shows "\<exists>y. rt_round rt x = Fin y \<and> 0 < y \<and> y \<le> 1"
proof -
  have one: "rt_round rt 1 = Fin 1" using ieee_int[OF r, of 1] by simp
  have low: "rt_round rt (1 / 2 ^ 1074) = Fin (1 / 2 ^ 1074)"
    using r unfolding ieee_rounding_def by blast
  have u: "\<not> num_lt (Fin 1) (rt_round rt x)"
    using ieee_mono[OF r x(2)] unfolding one .
  have l: "\<not> num_lt (rt_round rt x) (Fin (1 / 2 ^ 1074))"
    using ieee_mono[OF r x(1)] unfolding low .
  have pos: "(0::rat) < 1 / 2 ^ 1074" by simp
  show ?thesis
  proof (cases "rt_round rt x")
    case (Fin y)
    from u l have b: "y \<le> 1" "1 / 2 ^ 1074 \<le> y"
      unfolding Fin by (simp_all only: num_lt.simps not_less)
    from pos b(2) have "0 < y" by (rule less_le_trans)
    with Fin b(1) show ?thesis by blast
  next
    case PInf
    with u show ?thesis by simp
  next
    case NInf
    with l show ?thesis by simp
  next
    case NaN
    with ieee_not_NaN[OF r] show ?thesis by simp
  qed
qed

section \<open>The admin catalogue: pagination\<close>

lemma slice_index_nat: "slice_index len (Fin (of_nat n)) = min n len"
  by (simp add: slice_index_def Let_def)

lemma js_slice_nat:
  "js_slice xs (Fin (of_nat s)) (Fin (of_nat e)) = take (e - s) (drop s xs)"
proof (cases "s < length xs")
  case True
  then show ?thesis
    by (cases "e \<le> length xs") (simp_all add: js_slice_def slice_index_nat Let_def min_def)
next
  case False
  then show ?thesis by (simp add: js_slice_def slice_index_nat Let_def min_def)
qed

lemma ceil_div_least:
  fixes t l :: nat
  assumes "0 < l"
  shows "\<exists>n::nat. \<lceil>(of_nat t :: rat) / of_nat l\<rceil> = int n \<and> t \<le> n * l
            \<and> (\<forall>m. t \<le> m * l \<longrightarrow> n \<le> m)"
proof -
  let ?x = "(of_nat t :: rat) / of_nat l"
  have lpos: "(0::rat) < of_nat l" using assms by simp
  have "0 \<le> ?x" by simp
  then have "0 \<le> \<lceil>?x\<rceil>" using ceiling_mono[of 0 ?x] by simp
  then obtain n :: nat where n: "\<lceil>?x\<rceil> = int n" using nonneg_int_cases by blast
  have "?x \<le> of_int \<lceil>?x\<rceil>" by (rule le_of_int_ceiling)
  then have "?x \<le> of_nat n" using n by simp
  then have "(of_nat t :: rat) \<le> of_nat n * of_nat l"
    using lpos by (simp add: pos_divide_le_eq)
  then have "(of_nat t :: rat) \<le> of_nat (n * l)" by simp
  then have 1: "t \<le> n * l" using of_nat_le_iff by blast
  have 2: "n \<le> m" if "t \<le> m * l" for m
  proof -
    from that have "(of_nat t :: rat) \<le> of_nat (m * l)" using of_nat_le_iff by blast
    then have "(of_nat t :: rat) \<le> of_nat m * of_nat l" by simp
    then have "?x \<le> of_nat m" using lpos by (simp add: pos_divide_le_eq)
    then have "?x \<le> of_int (int m)" by simp
    then have "\<lceil>?x\<rceil> \<le> int m" by (simp only: ceiling_le_iff)
    with n show ?thesis by simp
  qed
  from n 1 2 show ?thesis by blast
qed


lemma slice_index_big:
  assumes "n = PInf \<or> (\<exists>y. n = Fin y \<and> 2 ^ 53 \<le> y)" "len \<le> 2 ^ 53"
  shows "slice_index len n = len"
proof -
  from assms(1) consider "n = PInf" | y where "n = Fin y" "2 ^ 53 \<le> y" by blast
  then show ?thesis
  proof cases
    case 1
    then show ?thesis by (simp add: slice_index_def)
  next
    case 2
    have "(of_int (2 ^ 53) :: rat) \<le> y" using 2(2) by simp
    then have f: "(2 ^ 53 :: int) \<le> \<lfloor>y\<rfloor>" by (simp only: le_floor_iff)
    have "int len \<le> 2 ^ 53" using assms(2) by (simp add: of_nat_le_iff[of len "2 ^ 53", where ?'a = int, simplified])
    with f have "len \<le> nat \<lfloor>y\<rfloor>" by linarith
    moreover have "\<not> y < 0" using 2(2) by (smt (verit) zero_le_power zero_le_numeral order_trans not_less)
    moreover have "\<not> \<lfloor>y\<rfloor> < 0" using f by (smt (verit) zero_le_power)
    ultimately show ?thesis using 2(1) by (simp add: slice_index_def Let_def min_def)
  qed
qed

lemma fl_sub_page:
  assumes "1 \<le> pg"
  shows "fl_sub rt (Fin (of_nat pg)) (Fin 1) = rt_round rt (of_nat (pg - 1))"
  using assms by (simp add: fl_sub_def num_sub_def of_nat_diff)

lemma page_window:
  assumes r: "ieee_rounding rt" and pg: "1 \<le> pg" and lm: "1 \<le> lm"
    and len: "length xs \<le> 2 ^ 53"
  shows "js_slice xs (fl_mul rt (fl_sub rt (Fin (of_nat pg)) (Fin 1)) (Fin (of_nat lm)))
           (fl_add rt (fl_mul rt (fl_sub rt (Fin (of_nat pg)) (Fin 1)) (Fin (of_nat lm)))
              (Fin (of_nat lm)))
         = take lm (drop ((pg - 1) * lm) xs)"
proof -
  let ?s = "(pg - 1) * lm"
  let ?s' = "fl_mul rt (fl_sub rt (Fin (of_nat pg)) (Fin 1)) (Fin (of_nat lm))"
  have le: "pg - 1 \<le> ?s" using lm by simp
  have small: "?s' = Fin (of_nat ?s)" if "?s \<le> 2 ^ 53"
  proof -
    from le that have "pg - 1 \<le> 2 ^ 53" by linarith
    then have "fl_sub rt (Fin (of_nat pg)) (Fin 1) = Fin (of_nat (pg - 1))"
      by (simp add: fl_sub_page[OF pg] ieee_nat[OF r])
    then have "?s' = rt_round rt (of_nat ?s)" by (simp add: fl_mul_def)
    with ieee_nat[OF r that] show ?thesis by simp
  qed
  have big: "?s' = PInf \<or> (\<exists>y. ?s' = Fin y \<and> 2 ^ 53 \<le> y)" if "2 ^ 53 < ?s"
  proof (cases "pg - 1 \<le> 2 ^ 53")
    case True
    then have "fl_sub rt (Fin (of_nat pg)) (Fin 1) = Fin (of_nat (pg - 1))"
      by (simp add: fl_sub_page[OF pg] ieee_nat[OF r])
    then have e: "?s' = rt_round rt (of_nat ?s)" by (simp add: fl_mul_def)
    have "(2 ^ 53 :: rat) \<le> of_nat ?s" using that by (intro two53_le_of_nat) simp
    from ieee_big[OF r this] e show ?thesis by (simp only:)
  next
    case False
    then have b: "(2 ^ 53 :: rat) \<le> of_nat (pg - 1)" by (intro two53_le_of_nat) simp
    from ieee_big[OF r b] consider
      "rt_round rt (of_nat (pg - 1)) = PInf"
      | y where "rt_round rt (of_nat (pg - 1)) = Fin y" "2 ^ 53 \<le> y" by blast
    then show ?thesis
    proof cases
      case 1
      then show ?thesis using lm by (simp add: fl_sub_page[OF pg] fl_mul_def)
    next
      case 2
      have "1 \<le> (of_nat lm :: rat)" using lm by simp
      moreover have "0 \<le> y" using 2(2) by (rule order_trans[rotated]) simp
      ultimately have "y * 1 \<le> y * of_nat lm" by (rule mult_left_mono)
      then have "y \<le> y * of_nat lm" by (simp only: mult_1_right)
      with 2(2) have "2 ^ 53 \<le> y * of_nat lm" by (rule order_trans)
      from ieee_big[OF r this] 2(1) show ?thesis
        by (simp add: fl_sub_page[OF pg] fl_mul_def)
    qed
  qed
  consider "?s + lm \<le> 2 ^ 53" | "?s \<le> 2 ^ 53" "2 ^ 53 < ?s + lm" | "2 ^ 53 < ?s"
    by linarith
  then show ?thesis
  proof cases
    case 1
    then have "?s \<le> 2 ^ 53" by simp
    from small[OF this] have s: "?s' = Fin (of_nat ?s)" .
    have "fl_add rt (Fin (of_nat ?s)) (Fin (of_nat lm)) = rt_round rt (of_nat (?s + lm))"
      by (simp add: fl_add_def)
    with ieee_nat[OF r 1]
    have e: "fl_add rt (Fin (of_nat ?s)) (Fin (of_nat lm)) = Fin (of_nat (?s + lm))"
      by simp
    show ?thesis unfolding s e js_slice_nat by simp
  next
    case 2
    from small[OF 2(1)] have s: "?s' = Fin (of_nat ?s)" .
    have a: "fl_add rt (Fin (of_nat ?s)) (Fin (of_nat lm)) = rt_round rt (of_nat (?s + lm))"
      by (simp add: fl_add_def)
    have "(2 ^ 53 :: rat) \<le> of_nat (?s + lm)" using 2(2) by (intro two53_le_of_nat) simp
    from ieee_big[OF r this] have
      se: "slice_index (length xs) (fl_add rt (Fin (of_nat ?s)) (Fin (of_nat lm))) = length xs"
      unfolding a by (rule slice_index_big) (rule len)
    have ss: "slice_index (length xs) (Fin (of_nat ?s)) = min ?s (length xs)"
      by (rule slice_index_nat)
    have "js_slice xs ?s' (fl_add rt ?s' (Fin (of_nat lm)))
               = take (length xs - min ?s (length xs)) (drop (min ?s (length xs)) xs)"
      unfolding s js_slice_def Let_def se ss ..
    also have "\<dots> = drop ?s xs" by (simp add: min_def)
    also have "\<dots> = take lm (drop ?s xs)" using 2(2) len by simp
    finally show ?thesis .
  next
    case 3
    from big[OF 3] have "slice_index (length xs) ?s' = length xs"
      by (rule slice_index_big) (rule len)
    then have "js_slice xs ?s' (fl_add rt ?s' (Fin (of_nat lm))) = []"
      by (simp add: js_slice_def Let_def)
    moreover have "length xs \<le> ?s" using 3 len by linarith
    ultimately show ?thesis by simp
  qed
qed

lemma total_pages_exact:
  assumes r: "ieee_rounding rt" and lm: "1 \<le> lm" "lm < 2 ^ 1024" and t: "t < 2 ^ 53"
  shows "num_ceil (fl_div rt (Fin (of_nat t)) (Fin (of_nat lm)))
         = Fin (of_int \<lceil>(of_nat t :: rat) / of_nat lm\<rceil>)"
proof -
  define L :: rat where "L = of_nat lm"
  define T :: rat where "T = of_nat t"
  define K :: rat where "K = 2 ^ 53"
  have L1: "1 \<le> L" using lm(1) by (simp add: L_def)
  then have Lpos: "0 < L" by linarith
  have T0: "0 \<le> T" by (simp add: T_def)
  have "(of_nat t :: rat) < of_nat (2 ^ 53)" using t by (simp only: of_nat_less_iff)
  then have TK: "T < K" by (simp add: T_def K_def)
  have Kpos: "0 < K" by (simp add: K_def)
  have d: "fl_div rt (Fin (of_nat t)) (Fin (of_nat lm)) = rt_round rt (T / L)"
    using Lpos by (simp add: fl_div_def L_def T_def)
  have goal: "num_ceil (rt_round rt (T / L)) = Fin (of_int \<lceil>T / L\<rceil>)"
  proof -
    consider "t = 0" | "0 < t" "t < lm" | "lm \<le> t" by linarith
    then show ?thesis
    proof cases
      case 1
      then have z: "T / L = 0" by (simp add: T_def)
      have "rt_round rt 0 = Fin 0" using ieee_int[OF r, of 0] by simp
      then show ?thesis unfolding z by simp
    next
      case 2
      have T1: "1 \<le> T" using 2(1) by (simp add: T_def)
      have TL: "T < L" using 2(2) by (simp add: T_def L_def)
      have "(of_nat lm :: rat) < of_nat (2 ^ 1024)" using lm(2) by (simp only: of_nat_less_iff)
      then have "L < 2 ^ 1024" by (simp add: L_def)
      moreover have "(2::rat) ^ 1024 \<le> 2 ^ 1074" by (rule power_increasing) simp_all
      ultimately have "L \<le> 2 ^ 1074" by linarith
      then have "1 / 2 ^ 1074 \<le> 1 / L" using Lpos by (simp add: frac_le)
      moreover have "1 / L \<le> T / L" using T1 Lpos by (simp add: divide_right_mono)
      ultimately have lo: "1 / 2 ^ 1074 \<le> T / L" by linarith
      have hi: "T / L \<le> 1" using TL Lpos by simp
      have xpos: "0 < T / L" using T1 Lpos by simp
      from ieee_tiny[OF r lo hi] obtain y where
        y: "rt_round rt (T / L) = Fin y" "0 < y" "y \<le> 1" by blast
      have "\<lceil>y\<rceil> = 1" using y(2,3) by (simp add: ceiling_eq_iff)
      moreover have "\<lceil>T / L\<rceil> = 1" using xpos hi by (simp add: ceiling_eq_iff)
      ultimately show ?thesis using y(1) by simp
    next
      case 3
      have LT: "L \<le> T" using 3 by (simp add: T_def L_def)
      then have x1: "1 \<le> T / L" using Lpos by simp
      have xT: "T / L \<le> T" using L1 T0 Lpos by (simp add: pos_divide_le_eq mult_left_mono[of 1 L T, simplified])
      have xK: "T / L \<le> 2 ^ 53" using xT TK by (simp add: K_def)
      from ieee_normal[OF r x1 xK] obtain y where
        y: "rt_round rt (T / L) = Fin y" "\<bar>y - T / L\<bar> * K \<le> T / L" by (auto simp: K_def)
      define n where "n = \<lceil>T / L\<rceil>"
      have n1: "of_int n - 1 < T / L" and n2: "T / L \<le> of_int n"
        unfolding n_def by linarith+
      have "T / L \<le> of_int (int t)" using xT by (simp add: T_def)
      then have "n \<le> int t" unfolding n_def by (simp only: ceiling_le_iff)
      moreover have "int t \<le> 2 ^ 53" using t by (simp add: of_nat_le_iff[of t "2 ^ 53", where ?'a = int, simplified] less_imp_le)
      moreover have "0 \<le> n" using x1 n2 by (smt (verit) of_int_le_iff of_int_0 order_trans zero_le_one)
      ultimately have "\<bar>n\<bar> \<le> 2 ^ 53" by linarith
      from ieee_int[OF r this] ieee_mono[OF r n2] y(1) have up: "y \<le> of_int n" by simp
      have "(of_int n - 1) * L < T" using n1 Lpos by (simp add: pos_less_divide_eq)
      then have "(of_int ((n - 1) * int lm) :: rat) < of_int (int t)"
        by (simp add: L_def T_def)
      then have "(n - 1) * int lm < int t" by (simp only: of_int_less_iff)
      then have "(n - 1) * int lm + 1 \<le> int t" by linarith
      then have "(of_int ((n - 1) * int lm + 1) :: rat) \<le> of_int (int t)"
        by (simp only: of_int_le_iff)
      then have "(of_int n - 1) * L + 1 \<le> T" by (simp add: L_def T_def)
      then have "((of_int n - 1) * L + 1) / L \<le> T / L" using Lpos by (simp add: divide_right_mono)
      moreover have "((of_int n - 1) * L + 1) / L = of_int n - 1 + 1 / L"
        using Lpos by (simp add: field_simps)
      ultimately have gap: "of_int n - 1 + 1 / L \<le> T / L" by linarith
      have "(T / L - y) * K \<le> \<bar>y - T / L\<bar> * K" using Kpos by (simp add: mult_right_mono)
      with y(2) have "(T / L - y) * K \<le> T / L" by linarith
      then have "T / L - y \<le> T / L / K" by (simp only: pos_le_divide_eq[OF Kpos])
      moreover have "T / L / K < 1 / L"
      proof -
        have "T / K < 1" using TK Kpos by simp
        then have "T / K / L < 1 / L" using Lpos by (rule divide_strict_right_mono)
        moreover have "T / L / K = T / K / L" by simp
        ultimately show ?thesis by (simp only:)
      qed
      ultimately have "T / L - 1 / L < y" by linarith
      with gap have low: "of_int n - 1 < y" by linarith
      from low up have "\<lceil>y\<rceil> = n" by (simp add: ceiling_eq_iff)
      then show ?thesis using y(1) by (simp add: n_def)
    qed
  qed
  show ?thesis unfolding d using goal by (simp add: T_def L_def)
qed

lemma parseInt_str_NaN_or_int:
  "parseInt_str rt s = NaN \<or> (\<exists>i::int. parseInt_str rt s = rt_round rt (of_int i))"
  by (cases "parse_int s") (auto simp: parseInt_str_def)

lemma parse_int_1: "parse_int ''1'' = Some 1"
  by code_simp

lemma parse_int_50: "parse_int ''50'' = Some 50"
  by code_simp

lemma js_parseInt_default_page:
  "ieee_rounding rt \<Longrightarrow> js_parseInt rt (JNum (Fin 1)) = Fin 1"
  using ieee_int[of rt 1]
  by (simp add: js_parseInt_def NumberToString_def show_int_def digits.simps parseInt_str_def
      parse_int_1)

lemma js_parseInt_default_limit:
  "ieee_rounding rt \<Longrightarrow> js_parseInt rt (JNum (Fin 50)) = Fin 50"
  using ieee_int[of rt 50]
  by (simp add: js_parseInt_def NumberToString_def show_int_def digits.simps parseInt_str_def
      parse_int_50)

text \<open>
  Claim C8, as stated, fails: a page that \<open>parseInt\<close> cannot read is \<open>NaN\<close>, not 1, and
  the slice is then empty, whereas page 1 of the same catalogue holds its three products.
\<close>

theorem unreadable_page_is_not_page_one:
  "queryAdmin sample_runtime sample_products [(''page'', JStr ''abc'')]
     = Inr \<lparr> ar_products = [],
             ar_pagination =
               \<lparr> currentPage = NaN, totalPages = Fin 1, totalProducts = 3,
                 productsPerPage = Fin 50, hasNextPage = False, hasPrevPage = False \<rparr>,
             ar_statistics =
               \<lparr> st_total = 3, st_active = 2, st_inactive = 1, st_lowStock = 1,
                 st_outOfStock = 1 \<rparr>,
             ar_category = JStr ''all'', ar_search = JStr [], ar_status = JStr ''all'',
             ar_sortBy = JStr ''createdAt'', ar_sortOrder = JStr ''desc'' \<rparr>
   \<and> queryAdmin sample_runtime sample_products []
     = Inr \<lparr> ar_products = sample_products,
             ar_pagination =
               \<lparr> currentPage = Fin 1, totalPages = Fin 1, totalProducts = 3,
                 productsPerPage = Fin 50, hasNextPage = False, hasPrevPage = False \<rparr>,
             ar_statistics =
               \<lparr> st_total = 3, st_active = 2, st_inactive = 1, st_lowStock = 1,
                 st_outOfStock = 1 \<rparr>,
             ar_category = JStr ''all'', ar_search = JStr [], ar_status = JStr ''all'',
             ar_sortBy = JStr ''createdAt'', ar_sortOrder = JStr ''desc'' \<rparr>"
  by code_simp

text \<open>
  Claim C8, amended. The answer is the page cut out of the filtered and sorted list \<open>srt\<close>.
  Page and limit are read with \<open>parseInt\<close>: each is \<open>NaN\<close> when unreadable (not 1 or 50),
  and otherwise the integer read, rounded to a double. The slice runs from
  \<open>(page - 1) * limit\<close> to that plus \<open>limit\<close>, and \<open>totalPages\<close> is
  \<open>Math.ceil(total / limit)\<close>, all three in the arithmetic of doubles.

  With the rounding of IEEE doubles: a missing page is 1 and a missing limit is 50; when
  page and limit are integers from 1 on, the slice is exactly the elements of \<open>srt\<close> at
  the indices from \<open>(page - 1) * limit\<close> up to, not including, \<open>page * limit\<close>; and
  \<open>totalPages\<close> is the least \<open>n\<close> with \<open>total \<le> n * limit\<close>, the ceiling of
  \<open>total / limit\<close>. (An array holds fewer than \<open>2^32\<close> elements, and a finite double is
  below \<open>2^1024\<close>.)
\<close>

theorem queryAdmin_pagination:
  assumes "queryAdmin rt products query = Inr res"
  shows "\<exists>srt. admin_sorted rt products query = Inr srt
       \<and> res = admin_page rt query srt
       \<and> totalProducts (ar_pagination res) = length srt
       \<and> currentPage (ar_pagination res)
           = js_parseInt rt (with_default (JNum (Fin 1)) (get_prop query ''page''))
       \<and> productsPerPage (ar_pagination res)
           = js_parseInt rt (with_default (JNum (Fin 50)) (get_prop query ''limit''))
       \<and> (currentPage (ar_pagination res) = NaN
            \<or> (\<exists>i::int. currentPage (ar_pagination res) = rt_round rt (of_int i)))
       \<and> (productsPerPage (ar_pagination res) = NaN
            \<or> (\<exists>i::int. productsPerPage (ar_pagination res) = rt_round rt (of_int i)))
       \<and> ar_products res
           = js_slice srt
               (fl_mul rt (fl_sub rt (currentPage (ar_pagination res)) (Fin 1))
                  (productsPerPage (ar_pagination res)))
               (fl_add rt
                  (fl_mul rt (fl_sub rt (currentPage (ar_pagination res)) (Fin 1))
                     (productsPerPage (ar_pagination res)))
                  (productsPerPage (ar_pagination res)))
       \<and> totalPages (ar_pagination res)
           = num_ceil (fl_div rt (Fin (of_nat (length srt))) (productsPerPage (ar_pagination res)))
       \<and> (ieee_rounding rt \<longrightarrow>
            (get_prop query ''page'' = JUndefined \<longrightarrow> currentPage (ar_pagination res) = Fin 1)
          \<and> (get_prop query ''limit'' = JUndefined
               \<longrightarrow> productsPerPage (ar_pagination res) = Fin 50)
          \<and> (\<forall>pg lm.
                currentPage (ar_pagination res) = Fin (of_nat pg)
                \<and> productsPerPage (ar_pagination res) = Fin (of_nat lm)
                \<and> 1 \<le> pg \<and> 1 \<le> lm \<and> length srt < 2 ^ 53
                \<longrightarrow> ar_products res = take lm (drop ((pg - 1) * lm) srt))
          \<and> (\<forall>lm.
                productsPerPage (ar_pagination res) = Fin (of_nat lm)
                \<and> 1 \<le> lm \<and> lm < 2 ^ 1024 \<and> length srt < 2 ^ 53
                \<longrightarrow> (\<exists>n. totalPages (ar_pagination res) = Fin (of_nat n)
                       \<and> length srt \<le> n * lm
                       \<and> (\<forall>m. length srt \<le> m * lm \<longrightarrow> n \<le> m))))"
proof -
  from queryAdmin_Inr[OF assms] obtain srt where
    s: "admin_sorted rt products query = Inr srt" and res: "res = admin_page rt query srt"
    by blast
  have tot: "totalProducts (ar_pagination res) = length srt"
    unfolding res by (simp add: admin_page_def Let_def)
  have cp: "currentPage (ar_pagination res)
          = js_parseInt rt (with_default (JNum (Fin 1)) (get_prop query ''page''))"
    unfolding res by (simp add: admin_page_def Let_def)
  have pp: "productsPerPage (ar_pagination res)
          = js_parseInt rt (with_default (JNum (Fin 50)) (get_prop query ''limit''))"
    unfolding res by (simp add: admin_page_def Let_def)
  have sl: "ar_products res
           = js_slice srt
               (fl_mul rt (fl_sub rt (currentPage (ar_pagination res)) (Fin 1))
                  (productsPerPage (ar_pagination res)))
               (fl_add rt
                  (fl_mul rt (fl_sub rt (currentPage (ar_pagination res)) (Fin 1))
                     (productsPerPage (ar_pagination res)))
                  (productsPerPage (ar_pagination res)))"
    unfolding res by (simp add: admin_page_def Let_def)
  have tp: "totalPages (ar_pagination res)
           = num_ceil (fl_div rt (Fin (of_nat (length srt))) (productsPerPage (ar_pagination res)))"
    unfolding res by (simp add: admin_page_def Let_def)
  have ic: "currentPage (ar_pagination res) = NaN
              \<or> (\<exists>i::int. currentPage (ar_pagination res) = rt_round rt (of_int i))"
    unfolding cp js_parseInt_def by (rule parseInt_str_NaN_or_int)
  have ip: "productsPerPage (ar_pagination res) = NaN
              \<or> (\<exists>i::int. productsPerPage (ar_pagination res) = rt_round rt (of_int i))"
    unfolding pp js_parseInt_def by (rule parseInt_str_NaN_or_int)
  have dp: "get_prop query ''page'' = JUndefined \<longrightarrow> currentPage (ar_pagination res) = Fin 1"
    if "ieee_rounding rt"
    unfolding cp by (simp add: with_default_def js_parseInt_default_page[OF that])
  have dl: "get_prop query ''limit'' = JUndefined
            \<longrightarrow> productsPerPage (ar_pagination res) = Fin 50"
    if "ieee_rounding rt"
    unfolding pp by (simp add: with_default_def js_parseInt_default_limit[OF that])
  have window: "ar_products res = take lm (drop ((pg - 1) * lm) srt)"
    if r: "ieee_rounding rt"
      and h: "currentPage (ar_pagination res) = Fin (of_nat pg)"
          "productsPerPage (ar_pagination res) = Fin (of_nat lm)" "1 \<le> pg" "1 \<le> lm"
          "length srt < 2 ^ 53"
    for pg lm
  proof -
    from h(5) have "length srt \<le> 2 ^ 53" by (rule less_imp_le)
    from page_window[OF r h(3) h(4) this] show ?thesis unfolding sl h(1,2) .
  qed
  have pages: "\<exists>n. totalPages (ar_pagination res) = Fin (of_nat n)
                       \<and> length srt \<le> n * lm
                       \<and> (\<forall>m. length srt \<le> m * lm \<longrightarrow> n \<le> m)"
    if r: "ieee_rounding rt"
      and h: "productsPerPage (ar_pagination res) = Fin (of_nat lm)" "1 \<le> lm"
          "lm < 2 ^ 1024" "length srt < 2 ^ 53"
    for lm
  proof -
    from ceil_div_least[of lm "length srt"] h(2) obtain n :: nat where
      n: "\<lceil>(of_nat (length srt) :: rat) / of_nat lm\<rceil> = int n" "length srt \<le> n * lm"
         "\<forall>m. length srt \<le> m * lm \<longrightarrow> n \<le> m" by auto
    have "totalPages (ar_pagination res) = Fin (of_nat n)"
      unfolding tp h(1) total_pages_exact[OF r h(2) h(3) h(4)] n(1) by simp
    with n(2,3) show ?thesis by blast
  qed
  from dp dl window pages
  have ieee: "ieee_rounding rt \<longrightarrow>
            (get_prop query ''page'' = JUndefined \<longrightarrow> currentPage (ar_pagination res) = Fin 1)
          \<and> (get_prop query ''limit'' = JUndefined
               \<longrightarrow> productsPerPage (ar_pagination res) = Fin 50)
          \<and> (\<forall>pg lm.
                currentPage (ar_pagination res) = Fin (of_nat pg)
                \<and> productsPerPage (ar_pagination res) = Fin (of_nat lm)
                \<and> 1 \<le> pg \<and> 1 \<le> lm \<and> length srt < 2 ^ 53
                \<longrightarrow> ar_products res = take lm (drop ((pg - 1) * lm) srt))
          \<and> (\<forall>lm.
                productsPerPage (ar_pagination res) = Fin (of_nat lm)
                \<and> 1 \<le> lm \<and> lm < 2 ^ 1024 \<and> length srt < 2 ^ 53
                \<longrightarrow> (\<exists>n. totalPages (ar_pagination res) = Fin (of_nat n)
                       \<and> length srt \<le> n * lm
                       \<and> (\<forall>m. length srt \<le> m * lm \<longrightarrow> n \<le> m)))"
    by blast
  show ?thesis
    by (intro exI[of _ srt] conjI s res tot cp pp ic ip sl tp ieee)
qed

text \<open>On the sample catalogue, page 2 of size 2 is the third product, and there are 2 pages.\<close>

theorem queryAdmin_pagination_witness:
  "queryAdmin sample_runtime sample_products [(''page'', JStr ''2''), (''limit'', JStr ''2'')]
     = Inr \<lparr> ar_products = [book 3 ''Basme'' 20 12 True],
           ar_pagination =
             \<lparr> currentPage = Fin 2, totalPages = Fin 2, totalProducts = 3,
               productsPerPage = Fin 2, hasNextPage = False, hasPrevPage = True \<rparr>,
           ar_statistics =
             \<lparr> st_total = 3, st_active = 2, st_inactive = 1, st_lowStock = 1,
               st_outOfStock = 1 \<rparr>,
           ar_category = JStr ''all'', ar_search = JStr [], ar_status = JStr ''all'',
           ar_sortBy = JStr ''createdAt'', ar_sortOrder = JStr ''desc'' \<rparr>
   \<and> ieee_rounding sample_runtime
   \<and> (\<exists>srt n. admin_sorted sample_runtime sample_products
                  [(''page'', JStr ''2''), (''limit'', JStr ''2'')] = Inr srt
          \<and> length srt = 3
          \<and> [book 3 ''Basme'' 20 12 True] = take 2 (drop ((2 - 1) * 2) srt)
          \<and> Fin 2 = Fin (of_nat n)
          \<and> length srt \<le> n * 2
          \<and> (\<forall>m. length srt \<le> m * 2 \<longrightarrow> n \<le> m))"
proof -
  let ?res = "\<lparr> ar_products = [book 3 ''Basme'' 20 12 True],
           ar_pagination =
             \<lparr> currentPage = Fin 2, totalPages = Fin 2, totalProducts = 3,
               productsPerPage = Fin 2, hasNextPage = False, hasPrevPage = True \<rparr>,
           ar_statistics =
             \<lparr> st_total = 3, st_active = 2, st_inactive = 1, st_lowStock = 1,
               st_outOfStock = 1 \<rparr>,
           ar_category = JStr ''all'', ar_search = JStr [], ar_status = JStr ''all'',
           ar_sortBy = JStr ''createdAt'', ar_sortOrder = JStr ''desc'' \<rparr>"
  have h: "queryAdmin sample_runtime sample_products [(''page'', JStr ''2''), (''limit'', JStr ''2'')]
     = Inr ?res"
    by code_simp
  from queryAdmin_pagination[OF h] obtain srt where
    s: "admin_sorted sample_runtime sample_products
          [(''page'', JStr ''2''), (''limit'', JStr ''2'')] = Inr srt" and
    len: "totalProducts (ar_pagination ?res) = length srt" and
    w: "\<forall>pg lm.
                currentPage (ar_pagination ?res) = Fin (of_nat pg)
                \<and> productsPerPage (ar_pagination ?res) = Fin (of_nat lm)
                \<and> 1 \<le> pg \<and> 1 \<le> lm \<and> length srt < 2 ^ 53
                \<longrightarrow> ar_products ?res = take lm (drop ((pg - 1) * lm) srt)" and
    p: "\<forall>lm.
                productsPerPage (ar_pagination ?res) = Fin (of_nat lm)
                \<and> 1 \<le> lm \<and> lm < 2 ^ 1024 \<and> length srt < 2 ^ 53
                \<longrightarrow> (\<exists>n. totalPages (ar_pagination ?res) = Fin (of_nat n)
                       \<and> length srt \<le> n * lm
                       \<and> (\<forall>m. length srt \<le> m * lm \<longrightarrow> n \<le> m))"
    using ieee_rounding_sample by blast
  from len have l3: "length srt = 3" by simp
  from w[rule_format, of 2 2] l3
  have win: "[book 3 ''Basme'' 20 12 True] = take 2 (drop ((2 - 1) * 2) srt)" by simp
  from p[rule_format, of 2] l3 obtain n where
    n: "Fin 2 = Fin (of_nat n)" "length srt \<le> n * 2" "\<forall>m. length srt \<le> m * 2 \<longrightarrow> n \<le> m"
    by auto
  from s l3 win n have "\<exists>srt n. admin_sorted sample_runtime sample_products
                  [(''page'', JStr ''2''), (''limit'', JStr ''2'')] = Inr srt
          \<and> length srt = 3
          \<and> [book 3 ''Basme'' 20 12 True] = take 2 (drop ((2 - 1) * 2) srt)
          \<and> Fin 2 = Fin (of_nat n)
          \<and> length srt \<le> n * 2
          \<and> (\<forall>m. length srt \<le> m * 2 \<longrightarrow> n \<le> m)"
    by blast
  with h ieee_rounding_sample show ?thesis by (intro conjI)
qed

section \<open>Creating a product: validation\<close>

lemma create_product_failure_keeps:
  "fst (create_product rt now user products body) = Inl e
   \<Longrightarrow> snd (create_product rt now user products body) = products"
  unfolding create_product_def Let_def
  by (auto split: if_splits sum.splits)






section \<open>Identifiers of stored products\<close>

lemma map_of_spread:
  "map_of (spread a b) k = (case map_of (rev b) k of None \<Rightarrow> map_of a k | Some v \<Rightarrow> Some v)"
  unfolding spread_def
proof (induction b arbitrary: a)
  case Nil
  then show ?case by simp
next
  case (Cons kv b)
  obtain k' v' where kv: "kv = (k', v')" by (cases kv)
  show ?case
    by (simp add: kv Cons.IH update_conv' map_add_def split: option.splits)
qed

lemma get_prop_spread_absent:
  "map_of b k = None \<Longrightarrow> get_prop (spread a b) k = get_prop a k"
proof -
  assume "map_of b k = None"
  then have "k \<notin> fst ` set b" by (simp add: map_of_eq_None_iff)
  then have "map_of (rev b) k = None" by (simp add: map_of_eq_None_iff)
  then show ?thesis by (simp add: get_prop_def map_of_spread)
qed

lemma get_prop_set_prop:
  "get_prop (set_prop ob k v) k' = (if k' = k then v else get_prop ob k')"
  by (simp add: get_prop_def set_prop_def update_conv')

lemma findIndex_Some: "findIndex P xs = Some i \<Longrightarrow> i < length xs \<and> P (xs ! i)"
proof (induction xs arbitrary: i)
  case Nil
  then show ?case by simp
next
  case (Cons x xs)
  then show ?case by (cases "P x") (auto split: if_splits)
qed

lemma map_list_update_same:
  "f y = f (xs ! i) \<Longrightarrow> map f (xs[i := y]) = map f xs"
  by (cases "i < length xs") (simp_all add: map_update list_update_same_conv list_update_beyond)

lemma distinct_map_remove_nth:
  assumes "distinct (map f xs)"
  shows "distinct (map f (take i xs @ drop (Suc i) xs))"
proof -
  have "distinct (take i (map f xs) @ drop (Suc i) (map f xs))"
    using assms by (simp add: set_take_disj_set_drop_if_distinct)
  then show ?thesis by (simp add: take_map drop_map)
qed

lemma update_product_ids:
  assumes "map_of updates ''id'' = None"
  shows "map (\<lambda>p. get_prop p ''id'') (snd (update_product rt now products idParam updates))
         = map (\<lambda>p. get_prop p ''id'') products"
proof (cases "findIndex (\<lambda>p. strict_eq (get_prop p ''id'') (JNum (parseInt_str rt idParam))) products")
  case None
  then show ?thesis by (simp add: update_product_def)
next
  case (Some i)
  have "get_prop (spread (spread (products ! i) updates) [(''updatedAt'', JStr now)]) ''id''
        = get_prop (products ! i) ''id''"
    using assms by (simp add: get_prop_spread_absent)
  then show ?thesis using Some
    by (simp add: update_product_def Let_def map_list_update_same)
qed

lemma delete_product_soft_ids:
  assumes "\<not> truthy (with_default (JBool False) (get_prop query ''permanent''))"
  shows "map (\<lambda>p. get_prop p ''id'') (snd (delete_product rt now products idParam query))
         = map (\<lambda>p. get_prop p ''id'') products"
proof (cases "findIndex (\<lambda>p. strict_eq (get_prop p ''id'') (JNum (parseInt_str rt idParam))) products")
  case None
  then show ?thesis by (simp add: delete_product_def)
next
  case (Some i)
  then show ?thesis using assms
    by (simp add: delete_product_def Let_def map_list_update_same get_prop_set_prop)
qed

lemma delete_product_distinct:
  assumes "distinct (map (\<lambda>p. get_prop p ''id'') products)"
  shows "distinct (map (\<lambda>p. get_prop p ''id'') (snd (delete_product rt now products idParam query)))"
proof (cases "truthy (with_default (JBool False) (get_prop query ''permanent''))")
  case False
  then show ?thesis using assms by (simp add: delete_product_soft_ids)
next
  case True
  show ?thesis
  proof (cases "findIndex (\<lambda>p. strict_eq (get_prop p ''id'') (JNum (parseInt_str rt idParam))) products")
    case None
    then show ?thesis using assms by (simp add: delete_product_def)
  next
    case (Some i)
    then show ?thesis using True distinct_map_remove_nth[OF assms, of i]
      by (simp add: delete_product_def Let_def)
  qed
qed

lemma create_product_prefix:
  "take (length products) (snd (create_product rt now user products body)) = products"
  unfolding create_product_def Let_def
  by (auto split: sum.splits)

lemma newProduct_id:
  "newProduct rt now user products body = Inr p \<Longrightarrow> get_prop p ''id'' = newId rt products"
  unfolding newProduct_def by (auto simp: bindE_Inr_iff get_prop_def)

lemma delete_product_permanent:
  assumes "truthy (with_default (JBool False) (get_prop query ''permanent''))"
  shows "\<exists>i. snd (delete_product rt now products idParam query)
                = take i products @ drop (Suc i) products
             \<and> (fst (delete_product rt now products idParam query) = Inr Deleted
                  \<longleftrightarrow> i < length products)
             \<and> (i < length products
                  \<longrightarrow> strict_eq (get_prop (products ! i) ''id'')
                        (JNum (parseInt_str rt idParam)))"
proof (cases "findIndex (\<lambda>p. strict_eq (get_prop p ''id'') (JNum (parseInt_str rt idParam))) products")
  case None
  then have "snd (delete_product rt now products idParam query)
               = take (length products) products @ drop (Suc (length products)) products"
    and "fst (delete_product rt now products idParam query) \<noteq> Inr Deleted"
    by (simp_all add: delete_product_def)
  then show ?thesis by (intro exI[of _ "length products"]) simp
next
  case (Some i)
  from findIndex_Some[OF Some] have "i < length products"
    "strict_eq (get_prop (products ! i) ''id'') (JNum (parseInt_str rt idParam))" by simp_all
  moreover have "snd (delete_product rt now products idParam query)
               = take i products @ drop (Suc i) products"
    and "fst (delete_product rt now products idParam query) = Inr Deleted"
    using Some assms by (simp_all add: delete_product_def Let_def)
  ultimately show ?thesis by (intro exI[of _ i]) simp
qed

lemma js_add_Fin: "js_add rt (JNum (Fin a)) (JNum (Fin b)) = JNum (rt_round rt (a + b))"
  by (simp add: js_add_def fl_add_def)

lemma create_product_distinct:
  assumes d: "distinct (map (\<lambda>p. get_prop p ''id'') products)"
      and mx: "products \<noteq> []
               \<longrightarrow> (\<exists>m. get_prop (last products) ''id'' = JNum (Fin m)
                       \<and> rt_round rt (m + 1) = Fin (m + 1)
                       \<and> (\<forall>p \<in> set products. \<exists>r. get_prop p ''id'' = JNum (Fin r) \<and> r \<le> m))"
  shows "distinct (map (\<lambda>p. get_prop p ''id'')
                    (snd (create_product rt now user products body)))"
proof (cases "fst (create_product rt now user products body)")
  case (Inl e)
  then show ?thesis using d by (simp add: create_product_failure_keeps)
next
  case (Inr p)
  then have np: "newProduct rt now user products body = Inr p"
    and s: "snd (create_product rt now user products body) = products @ [p]"
    unfolding create_product_def Let_def by (auto split: if_splits sum.splits)
  have "get_prop p ''id'' \<notin> (\<lambda>p. get_prop p ''id'') ` set products"
  proof (cases "products = []")
    case True
    then show ?thesis by simp
  next
    case False
    with mx obtain m where
      m: "get_prop (last products) ''id'' = JNum (Fin m)"
         "rt_round rt (m + 1) = Fin (m + 1)"
         "\<forall>p \<in> set products. \<exists>r. get_prop p ''id'' = JNum (Fin r) \<and> r \<le> m" by blast
    have "get_prop p ''id'' = JNum (Fin (m + 1))"
      using newProduct_id[OF np] False m(1,2) by (simp add: newId_def js_add_Fin)
    with m(3) show ?thesis by force
  qed
  with d s show ?thesis by simp
qed

lemma create_product_id:
  "fst (create_product rt now user products body) = Inr p
   \<Longrightarrow> get_prop p ''id'' = newId rt products"
  unfolding create_product_def Let_def
  by (auto split: if_splits sum.splits dest: newProduct_id)

text \<open>
  Claim C7, as stated, fails: the update merges the whole patch, an \<open>id\<close> key included.
  Updating product 1 with the patch \<open>{id: 3}\<close> changes its identifier to 3, which product 3
  already has.
\<close>

theorem update_overwrites_id:
  "update_product sample_runtime ''2026-01-01''
       [book 1 ''Amintiri'' 30 5 True, book 3 ''Basme'' 20 12 True] ''1'' [(''id'', JNum (Fin 3))]
     = (Inr [(''id'', JNum (Fin 3)), (''title'', JStr ''Amintiri''),
             (''author'', JStr ''Ion Creanga''), (''category'', JStr ''Fiction''),
             (''price'', JNum (Fin 30)), (''stock'', JNum (Fin 5)), (''isActive'', JBool True),
             (''updatedAt'', JStr ''2026-01-01'')],
        [[(''id'', JNum (Fin 3)), (''title'', JStr ''Amintiri''),
          (''author'', JStr ''Ion Creanga''), (''category'', JStr ''Fiction''),
          (''price'', JNum (Fin 30)), (''stock'', JNum (Fin 5)), (''isActive'', JBool True),
          (''updatedAt'', JStr ''2026-01-01'')],
         book 3 ''Basme'' 20 12 True])
   \<and> get_prop (book 1 ''Amintiri'' 30 5 True) ''id'' = JNum (Fin 1)
   \<and> get_prop (book 3 ''Basme'' 20 12 True) ''id'' = JNum (Fin 3)"
  by code_simp

text \<open>
  Claim C7, amended.
  \<^item> An update whose patch has no \<open>id\<close> key, and a soft deletion, leave the list of the
    identifiers of the stored products as it is (so they stay pairwise distinct).
  \<^item> A permanent deletion removes one product, the first whose identifier is strictly
    equal to the number read from the path, or none; the other products stay as they
    are, in their order, so no identifier changes and they stay pairwise distinct.
  \<^item> A creation leaves every stored product as it is and gives the new product the
    identifier 1 for an empty collection, and otherwise the last product's identifier
    \<open>+ 1\<close>. The identifiers stay pairwise distinct when the last product's identifier is a
    number \<open>m\<close>, the largest of all, and \<open>m + 1\<close> is computed exactly, as it is with IEEE
    doubles when \<open>m\<close> is an integer and \<open>m + 1\<close> is at most \<open>2^53\<close>.
\<close>

theorem product_ids_preserved:
  "(map_of updates ''id'' = None
      \<longrightarrow> map (\<lambda>p. get_prop p ''id'') (snd (update_product rt now products idParam updates))
            = map (\<lambda>p. get_prop p ''id'') products)
   \<and> (\<not> truthy (with_default (JBool False) (get_prop query ''permanent''))
      \<longrightarrow> map (\<lambda>p. get_prop p ''id'') (snd (delete_product rt now products idParam query))
            = map (\<lambda>p. get_prop p ''id'') products)
   \<and> (truthy (with_default (JBool False) (get_prop query ''permanent''))
      \<longrightarrow> (\<exists>i. snd (delete_product rt now products idParam query)
                  = take i products @ drop (Suc i) products
               \<and> (fst (delete_product rt now products idParam query) = Inr Deleted
                    \<longleftrightarrow> i < length products)
               \<and> (i < length products
                    \<longrightarrow> strict_eq (get_prop (products ! i) ''id'')
                          (JNum (parseInt_str rt idParam)))))
   \<and> (distinct (map (\<lambda>p. get_prop p ''id'') products)
      \<longrightarrow> distinct (map (\<lambda>p. get_prop p ''id'')
                      (snd (delete_product rt now products idParam query))))
   \<and> (map_of updates ''id'' = None \<and> distinct (map (\<lambda>p. get_prop p ''id'') products)
      \<longrightarrow> distinct (map (\<lambda>p. get_prop p ''id'')
                      (snd (update_product rt now products idParam updates))))
   \<and> take (length products) (snd (create_product rt now user products body)) = products
   \<and> (\<forall>p. fst (create_product rt now user products body) = Inr p
        \<longrightarrow> snd (create_product rt now user products body) = products @ [p]
            \<and> get_prop p ''id''
                = (if products = [] then JNum (Fin 1)
                   else js_add rt (get_prop (last products) ''id'') (JNum (Fin 1))))
   \<and> (distinct (map (\<lambda>p. get_prop p ''id'') products)
        \<and> (products \<noteq> []
             \<longrightarrow> (\<exists>m. get_prop (last products) ''id'' = JNum (Fin m)
                     \<and> rt_round rt (m + 1) = Fin (m + 1)
                     \<and> (\<forall>p \<in> set products. \<exists>r. get_prop p ''id'' = JNum (Fin r) \<and> r \<le> m)))
      \<longrightarrow> distinct (map (\<lambda>p. get_prop p ''id'')
                      (snd (create_product rt now user products body))))
   \<and> (ieee_rounding rt
      \<longrightarrow> (\<forall>i :: int. \<bar>i + 1\<bar> \<le> 2 ^ 53
             \<longrightarrow> js_add rt (JNum (Fin (of_int i))) (JNum (Fin 1)) = JNum (Fin (of_int i + 1))))"
proof -
  have u: "map_of updates ''id'' = None
      \<longrightarrow> map (\<lambda>p. get_prop p ''id'') (snd (update_product rt now products idParam updates))
            = map (\<lambda>p. get_prop p ''id'') products"
    using update_product_ids by blast
  have sd: "\<not> truthy (with_default (JBool False) (get_prop query ''permanent''))
      \<longrightarrow> map (\<lambda>p. get_prop p ''id'') (snd (delete_product rt now products idParam query))
            = map (\<lambda>p. get_prop p ''id'') products"
    using delete_product_soft_ids by blast
  have pd: "truthy (with_default (JBool False) (get_prop query ''permanent''))
      \<longrightarrow> (\<exists>i. snd (delete_product rt now products idParam query)
                  = take i products @ drop (Suc i) products
               \<and> (fst (delete_product rt now products idParam query) = Inr Deleted
                    \<longleftrightarrow> i < length products)
               \<and> (i < length products
                    \<longrightarrow> strict_eq (get_prop (products ! i) ''id'')
                          (JNum (parseInt_str rt idParam))))"
    using delete_product_permanent by blast
  have dd: "distinct (map (\<lambda>p. get_prop p ''id'') products)
      \<longrightarrow> distinct (map (\<lambda>p. get_prop p ''id'')
                      (snd (delete_product rt now products idParam query)))"
    using delete_product_distinct by blast
  have ud: "map_of updates ''id'' = None \<and> distinct (map (\<lambda>p. get_prop p ''id'') products)
      \<longrightarrow> distinct (map (\<lambda>p. get_prop p ''id'')
                      (snd (update_product rt now products idParam updates)))"
    by (simp add: update_product_ids)
  have cp: "take (length products) (snd (create_product rt now user products body)) = products"
    by (rule create_product_prefix)
  have ci: "\<forall>p. fst (create_product rt now user products body) = Inr p
        \<longrightarrow> snd (create_product rt now user products body) = products @ [p]
            \<and> get_prop p ''id''
                = (if products = [] then JNum (Fin 1)
                   else js_add rt (get_prop (last products) ''id'') (JNum (Fin 1)))"
  proof (intro allI impI conjI)
    fix p assume p: "fst (create_product rt now user products body) = Inr p"
    then show "snd (create_product rt now user products body) = products @ [p]"
      unfolding create_product_def Let_def by (auto split: if_splits sum.splits)
    from create_product_id[OF p]
    show "get_prop p ''id''
                = (if products = [] then JNum (Fin 1)
                   else js_add rt (get_prop (last products) ''id'') (JNum (Fin 1)))"
      by (simp add: newId_def)
  qed
  have cd: "distinct (map (\<lambda>p. get_prop p ''id'') products)
        \<and> (products \<noteq> []
             \<longrightarrow> (\<exists>m. get_prop (last products) ''id'' = JNum (Fin m)
                     \<and> rt_round rt (m + 1) = Fin (m + 1)
                     \<and> (\<forall>p \<in> set products. \<exists>r. get_prop p ''id'' = JNum (Fin r) \<and> r \<le> m)))
      \<longrightarrow> distinct (map (\<lambda>p. get_prop p ''id'')
                      (snd (create_product rt now user products body)))"
    using create_product_distinct by blast
  have ex: "ieee_rounding rt
      \<longrightarrow> (\<forall>i :: int. \<bar>i + 1\<bar> \<le> 2 ^ 53
             \<longrightarrow> js_add rt (JNum (Fin (of_int i))) (JNum (Fin 1)) = JNum (Fin (of_int i + 1)))"
  proof (intro impI allI)
    fix i :: int assume r: "ieee_rounding rt" and i: "\<bar>i + 1\<bar> \<le> 2 ^ 53"
    from ieee_int[OF r i] have "rt_round rt (of_int i + 1) = Fin (of_int i + 1)" by simp
    then show "js_add rt (JNum (Fin (of_int i))) (JNum (Fin 1)) = JNum (Fin (of_int i + 1))"
      by (simp add: js_add_Fin)
  qed
  show ?thesis by (intro conjI u sd pd dd ud cp ci cd ex)
qed

text \<open>
  On the sample catalogue: a new title for product 1, the soft deletion of product 1 and
  the creation of a fourth book leave the identifiers 1, 2, 3 of the stored products, and
  the permanent deletion of product 1 leaves products 2 and 3.
\<close>

theorem product_ids_preserved_witness:
  "map (\<lambda>p. get_prop p ''id'')
       (snd (update_product sample_runtime ''2026-01-01'' sample_products ''1''
               [(''title'', JStr ''Updated Title'')]))
     = [JNum (Fin 1), JNum (Fin 2), JNum (Fin 3)]
   \<and> fst (update_product sample_runtime ''2026-01-01'' sample_products ''1''
               [(''title'', JStr ''Updated Title'')])
     \<noteq> Inl ProductNotFound
   \<and> map (\<lambda>p. get_prop p ''id'')
       (snd (delete_product sample_runtime ''2026-01-01'' sample_products ''1'' []))
     = [JNum (Fin 1), JNum (Fin 2), JNum (Fin 3)]
   \<and> fst (delete_product sample_runtime ''2026-01-01'' sample_products ''1'' []) = Inr Deactivated
   \<and> fst (delete_product sample_runtime ''2026-01-01'' sample_products ''1''
            [(''permanent'', JStr ''true'')]) = Inr Deleted
   \<and> (\<exists>i < length sample_products.
         snd (delete_product sample_runtime ''2026-01-01'' sample_products ''1''
                [(''permanent'', JStr ''true'')])
           = take i sample_products @ drop (Suc i) sample_products)
   \<and> distinct (map (\<lambda>p. get_prop p ''id'')
       (snd (create_product sample_runtime ''2026-01-01'' [(''id'', JNum (Fin 7))]
               sample_products
               [(''title'', JStr ''Test Book''), (''author'', JStr ''Test Author''),
                (''price'', JNum (Fin 20)), (''stock'', JNum (Fin 10))])))
   \<and> ieee_rounding sample_runtime
   \<and> js_add sample_runtime (JNum (Fin (of_int 3))) (JNum (Fin 1)) = JNum (Fin (of_int 3 + 1))"
proof -
  let ?b = "[(''title'', JStr ''Test Book''), (''author'', JStr ''Test Author''),
             (''price'', JNum (Fin 20)), (''stock'', JNum (Fin 10))]"
  note t = product_ids_preserved[where updates = "[(''title'', JStr ''Updated Title'')]"
      and now = "''2026-01-01''" and products = sample_products and idParam = "''1''"
      and query = "[]" and rt = sample_runtime and user = "[(''id'', JNum (Fin 7))]"
      and body = ?b]
  note t' = product_ids_preserved[where updates = "[(''title'', JStr ''Updated Title'')]"
      and now = "''2026-01-01''" and products = sample_products and idParam = "''1''"
      and query = "[(''permanent'', JStr ''true'')]" and rt = sample_runtime
      and user = "[(''id'', JNum (Fin 7))]" and body = ?b]
  have ids: "map (\<lambda>p. get_prop p ''id'') sample_products
             = [JNum (Fin 1), JNum (Fin 2), JNum (Fin 3)]"
    by code_simp
  have h1: "map_of [(''title'', JStr ''Updated Title'')] ''id'' = None" by simp
  have h2: "\<not> truthy (with_default (JBool False) (get_prop [] ''permanent''))"
    by (simp add: with_default_def get_prop_def)
  have h2': "truthy (with_default (JBool False)
                      (get_prop [(''permanent'', JStr ''true'')] ''permanent''))"
    by (simp add: with_default_def get_prop_def)
  have h3: "distinct (map (\<lambda>p. get_prop p ''id'') sample_products)"
    unfolding ids by simp
  have h4: "sample_products \<noteq> []
            \<longrightarrow> (\<exists>m. get_prop (last sample_products) ''id'' = JNum (Fin m)
                    \<and> rt_round sample_runtime (m + 1) = Fin (m + 1)
                    \<and> (\<forall>p \<in> set sample_products.
                          \<exists>r. get_prop p ''id'' = JNum (Fin r) \<and> r \<le> m))"
    by (simp add: sample_products_def book_def get_prop_def sample_runtime_def)
  have e1: "fst (update_product sample_runtime ''2026-01-01'' sample_products ''1''
               [(''title'', JStr ''Updated Title'')]) \<noteq> Inl ProductNotFound"
    by code_simp
  have e2: "fst (delete_product sample_runtime ''2026-01-01'' sample_products ''1'' [])
            = Inr Deactivated"
    by code_simp
  have e3: "fst (delete_product sample_runtime ''2026-01-01'' sample_products ''1''
            [(''permanent'', JStr ''true'')]) = Inr Deleted"
    by code_simp
  from t h1 ids have r1: "map (\<lambda>p. get_prop p ''id'')
       (snd (update_product sample_runtime ''2026-01-01'' sample_products ''1''
               [(''title'', JStr ''Updated Title'')]))
     = [JNum (Fin 1), JNum (Fin 2), JNum (Fin 3)]" by simp
  from t h2 ids have r2: "map (\<lambda>p. get_prop p ''id'')
       (snd (delete_product sample_runtime ''2026-01-01'' sample_products ''1'' []))
     = [JNum (Fin 1), JNum (Fin 2), JNum (Fin 3)]" by simp
  from t' h2' e3 have r3: "\<exists>i < length sample_products.
         snd (delete_product sample_runtime ''2026-01-01'' sample_products ''1''
                [(''permanent'', JStr ''true'')])
           = take i sample_products @ drop (Suc i) sample_products" by blast
  from t h3 h4 have r4: "distinct (map (\<lambda>p. get_prop p ''id'')
       (snd (create_product sample_runtime ''2026-01-01'' [(''id'', JNum (Fin 7))]
               sample_products ?b)))" by blast
  have "\<bar>(3::int) + 1\<bar> \<le> 2 ^ 53" by simp
  with t ieee_rounding_sample
  have r5: "js_add sample_runtime (JNum (Fin (of_int 3))) (JNum (Fin 1))
            = JNum (Fin (of_int 3 + 1))" by blast
  from r1 e1 r2 e2 e3 r3 r4 ieee_rounding_sample r5 show ?thesis by (intro conjI)
qed

section \<open>Admin login\<close>

lemma login_Inr_iff:
  assumes "truthy (get_prop body ''email'')" "truthy (get_prop body ''password'')"
  shows "(\<exists>r. login rt users body = Inr r)
         \<longleftrightarrow> (\<exists>u. find (is_admin_with_email (get_prop body ''email'')) users = Some u
                 \<and> bcrypt_compare rt (get_prop body ''password'') (get_prop u ''password'')
                     = Inr True)"
proof (cases "find (is_admin_with_email (get_prop body ''email'')) users")
  case None
  then show ?thesis using assms by (simp add: login_def)
next
  case (Some u)
  show ?thesis
  proof (cases "bcrypt_compare rt (get_prop body ''password'') (get_prop u ''password'')")
    case (Inl e)
    then show ?thesis using assms Some by (simp add: login_def bindE_def)
  next
    case (Inr valid)
    then show ?thesis using assms Some by (cases valid) (simp_all add: login_def bindE_def)
  qed
qed

lemma find_unique:
  assumes "\<forall>u \<in> set xs. \<forall>v \<in> set xs. P u \<and> P v \<longrightarrow> u = v"
  shows "(\<exists>u. find P xs = Some u \<and> Q u) \<longleftrightarrow> (\<exists>u \<in> set xs. P u \<and> Q u)"
proof
  assume "\<exists>u. find P xs = Some u \<and> Q u"
  then obtain u where u: "find P xs = Some u" "Q u" by blast
  from u(1) have "P u \<and> u \<in> set xs" by (auto simp: find_Some_iff)
  with u(2) show "\<exists>u \<in> set xs. P u \<and> Q u" by blast
next
  assume "\<exists>u \<in> set xs. P u \<and> Q u"
  then obtain u where u: "u \<in> set xs" "P u" "Q u" by blast
  then have "find P xs \<noteq> None" by (auto simp: find_None_iff)
  then obtain v where v: "find P xs = Some v" by blast
  then have "P v \<and> v \<in> set xs" by (auto simp: find_Some_iff)
  with assms u have "v = u" by blast
  with v u(3) show "\<exists>u. find P xs = Some u \<and> Q u" by blast
qed

text \<open>
  Claim C2, as stated, fails: the handler first rejects an empty email or password. An
  administrator whose stored hash matches the empty password has exactly the given email,
  the role \<open>admin\<close> and a matching password, and still gets no token.
\<close>

theorem login_rejects_empty_password:
  "login sample_runtime
       [[(''id'', JNum (Fin 3)), (''email'', JStr ''op@bookstore.com''),
          (''password'', JStr ''bcrypt:''), (''role'', JStr ''admin''), (''name'', JStr ''Op'')]]
       [(''email'', JStr ''op@bookstore.com''), (''password'', JStr [])]
     = Inl MissingCredentials
   \<and> get_prop [(''id'', JNum (Fin 3)), (''email'', JStr ''op@bookstore.com''),
          (''password'', JStr ''bcrypt:''), (''role'', JStr ''admin''), (''name'', JStr ''Op'')] ''email''
       = JStr ''op@bookstore.com''
   \<and> get_prop [(''id'', JNum (Fin 3)), (''email'', JStr ''op@bookstore.com''),
          (''password'', JStr ''bcrypt:''), (''role'', JStr ''admin''), (''name'', JStr ''Op'')] ''role''
       = JStr ''admin''
   \<and> bcrypt_compare sample_runtime (JStr [])
         (get_prop [(''id'', JNum (Fin 3)), (''email'', JStr ''op@bookstore.com''),
          (''password'', JStr ''bcrypt:''), (''role'', JStr ''admin''), (''name'', JStr ''Op'')] ''password'')
       = Inr True"
  by code_simp

text \<open>
  Claim C2, amended. A login with an empty (falsy) email or password fails with
  \<open>MissingCredentials\<close>. Otherwise a token is issued if and only if there is a user with
  exactly that email and the role \<open>admin\<close>, and the password matches the stored hash of the
  first such user; when at most one user has that email and role, this is: some user has
  exactly that email, the role \<open>admin\<close> and a stored hash that the password matches. When no
  user has both that email and the role \<open>admin\<close> the failure is \<open>AdminNotFound\<close>, whether
  the email is unknown or belongs to a user of another role.
\<close>

theorem login_issues_token_iff:
  "(\<not> truthy (get_prop body ''email'') \<or> \<not> truthy (get_prop body ''password'')
      \<longrightarrow> login rt users body = Inl MissingCredentials)
   \<and> (truthy (get_prop body ''email'') \<and> truthy (get_prop body ''password'')
      \<longrightarrow> ((\<exists>r. login rt users body = Inr r)
            \<longleftrightarrow> (\<exists>u. find (is_admin_with_email (get_prop body ''email'')) users = Some u
                    \<and> bcrypt_compare rt (get_prop body ''password'') (get_prop u ''password'')
                        = Inr True))
          \<and> ((\<forall>u \<in> set users. \<forall>v \<in> set users.
                 is_admin_with_email (get_prop body ''email'') u
                 \<and> is_admin_with_email (get_prop body ''email'') v \<longrightarrow> u = v)
              \<longrightarrow> ((\<exists>r. login rt users body = Inr r)
                    \<longleftrightarrow> (\<exists>u \<in> set users.
                           strict_eq (get_prop u ''email'') (get_prop body ''email'')
                           \<and> get_prop u ''role'' = JStr ''admin''
                           \<and> bcrypt_compare rt (get_prop body ''password'')
                                (get_prop u ''password'') = Inr True)))
          \<and> ((\<forall>u \<in> set users. \<not> (strict_eq (get_prop u ''email'') (get_prop body ''email'')
                                    \<and> get_prop u ''role'' = JStr ''admin''))
              \<longrightarrow> login rt users body = Inl AdminNotFound))"
proof -
  have guard: "login rt users body = Inl MissingCredentials"
    if "\<not> truthy (get_prop body ''email'') \<or> \<not> truthy (get_prop body ''password'')"
    using that by (auto simp: login_def)
  have first: "(\<exists>r. login rt users body = Inr r)
            \<longleftrightarrow> (\<exists>u. find (is_admin_with_email (get_prop body ''email'')) users = Some u
                    \<and> bcrypt_compare rt (get_prop body ''password'') (get_prop u ''password'')
                        = Inr True)"
    if "truthy (get_prop body ''email'')" "truthy (get_prop body ''password'')"
    using that by (rule login_Inr_iff)
  have uniq: "(\<exists>r. login rt users body = Inr r)
                    \<longleftrightarrow> (\<exists>u \<in> set users.
                           strict_eq (get_prop u ''email'') (get_prop body ''email'')
                           \<and> get_prop u ''role'' = JStr ''admin''
                           \<and> bcrypt_compare rt (get_prop body ''password'')
                                (get_prop u ''password'') = Inr True)"
    if "truthy (get_prop body ''email'')" "truthy (get_prop body ''password'')"
       "\<forall>u \<in> set users. \<forall>v \<in> set users.
                 is_admin_with_email (get_prop body ''email'') u
                 \<and> is_admin_with_email (get_prop body ''email'') v \<longrightarrow> u = v"
    unfolding first[OF that(1,2)] find_unique[OF that(3)]
    by (simp add: is_admin_with_email_def)
  have nf: "login rt users body = Inl AdminNotFound"
    if "truthy (get_prop body ''email'')" "truthy (get_prop body ''password'')"
       "\<forall>u \<in> set users. \<not> (strict_eq (get_prop u ''email'') (get_prop body ''email'')
                                    \<and> get_prop u ''role'' = JStr ''admin'')"
  proof -
    have "find (is_admin_with_email (get_prop body ''email'')) users = None"
      using that(3) by (auto simp: find_None_iff is_admin_with_email_def)
    then show ?thesis using that(1,2) by (simp add: login_def)
  qed
  from guard first uniq nf show ?thesis by blast
qed

text \<open>
  The sample administrator logs in; the customer, whose email exists with another role,
  and an unknown email are both answered \<open>AdminNotFound\<close>.
\<close>

theorem login_issues_token_iff_witness:
  "login sample_runtime [sample_customer, sample_admin]
       [(''email'', JStr ''admin@bookstore.com''), (''password'', JStr ''passAdm'')]
     = Inr \<lparr> lr_token = ''jwt'',
             lr_user = [(''id'', JNum (Fin 1)), (''email'', JStr ''admin@bookstore.com''),
                        (''name'', JStr ''Admin''), (''role'', JStr ''admin'')] \<rparr>
   \<and> login sample_runtime [sample_customer, sample_admin]
       [(''email'', JStr ''ana@bookstore.com''), (''password'', JStr ''passAdm'')]
     = Inl AdminNotFound
   \<and> login sample_runtime [sample_customer, sample_admin]
       [(''email'', JStr ''wrong@email.com''), (''password'', JStr ''wrongpassword'')]
     = Inl AdminNotFound"
proof -
  let ?users = "[sample_customer, sample_admin]"
  let ?b2 = "[(''email'', JStr ''ana@bookstore.com''), (''password'', JStr ''passAdm'')]"
  let ?b3 = "[(''email'', JStr ''wrong@email.com''), (''password'', JStr ''wrongpassword'')]"
  have ok: "login sample_runtime ?users
       [(''email'', JStr ''admin@bookstore.com''), (''password'', JStr ''passAdm'')]
     = Inr \<lparr> lr_token = ''jwt'',
             lr_user = [(''id'', JNum (Fin 1)), (''email'', JStr ''admin@bookstore.com''),
                        (''name'', JStr ''Admin''), (''role'', JStr ''admin'')] \<rparr>"
    by code_simp
  have t2: "truthy (get_prop ?b2 ''email'') \<and> truthy (get_prop ?b2 ''password'')"
    by (simp add: get_prop_def)
  have n2: "\<forall>u \<in> set ?users. \<not> (strict_eq (get_prop u ''email'') (get_prop ?b2 ''email'')
                                    \<and> get_prop u ''role'' = JStr ''admin'')"
    by (simp add: get_prop_def sample_customer_def sample_admin_def)
  have t3: "truthy (get_prop ?b3 ''email'') \<and> truthy (get_prop ?b3 ''password'')"
    by (simp add: get_prop_def)
  have n3: "\<forall>u \<in> set ?users. \<not> (strict_eq (get_prop u ''email'') (get_prop ?b3 ''email'')
                                    \<and> get_prop u ''role'' = JStr ''admin'')"
    by (simp add: get_prop_def sample_customer_def sample_admin_def)
  from login_issues_token_iff[of ?b2 sample_runtime ?users] t2 n2
  have r2: "login sample_runtime ?users ?b2 = Inl AdminNotFound" by blast
  from login_issues_token_iff[of ?b3 sample_runtime ?users] t3 n3
  have r3: "login sample_runtime ?users ?b3 = Inl AdminNotFound" by blast
  from ok r2 r3 show ?thesis by (intro conjI)
qed

section \<open>Adding to the cart\<close>

lemma findIndex_None: "findIndex P xs = None \<longleftrightarrow> (\<forall>x \<in> set xs. \<not> P x)"
  by (induction xs) auto

lemma strict_eq_same: "strict_eq x y \<Longrightarrow> x = y \<and> strict_eq y y"
  by (cases x; cases y) auto

subsection \<open>Failures\<close>

lemma addItem_failure_keeps:
  "fst (addItem rt now products stored body) = Inl e
   \<Longrightarrow> snd (addItem rt now products stored body) = stored"
  unfolding addItem_def Let_def
  by (auto split: if_splits option.splits)

lemma addItem_stock_error_iff:
  "fst (addItem rt now products stored body) = Inl InsufficientStock
   \<longleftrightarrow> truthy (get_prop body ''productId'')
       \<and> (\<exists>product. find_product (get_prop body ''productId'') products = Some product
            \<and> js_lt rt (get_prop product ''stock'')
                 (with_default (JNum (Fin 1)) (get_prop body ''quantity'')))"
  unfolding addItem_def Let_def
  by (auto split: if_splits option.splits)

text \<open>
  Claim C6. An add without a (truthy) \<open>productId\<close> fails with \<open>MissingProduct\<close>, status
  400. Otherwise, when no product has that id and \<open>isActive === true\<close>, be it absent or
  inactive, it fails with \<open>ProductNotFound\<close>, status 404. Otherwise, when the stock of the
  product found is below the quantity asked for, it fails with \<open>InsufficientStock\<close>, status
  400; the comparison is with the quantity of this call alone: the add succeeds as soon as
  that quantity fits, and whether the stock error occurs does not depend on the stored
  cart. Every failure leaves the stored cart as it was.
\<close>

theorem addItem_failures:
  "(\<not> truthy (get_prop body ''productId'')
      \<longrightarrow> addItem rt now products stored body = (Inl MissingProduct, stored))
   \<and> (truthy (get_prop body ''productId'')
       \<and> (\<forall>p \<in> set products. \<not> (strict_eq (get_prop p ''id'') (get_prop body ''productId'')
                                  \<and> get_prop p ''isActive'' = JBool True))
      \<longrightarrow> addItem rt now products stored body = (Inl ProductNotFound, stored))
   \<and> (truthy (get_prop body ''productId'')
       \<and> find_product (get_prop body ''productId'') products = Some product
       \<and> js_lt rt (get_prop product ''stock'')
            (with_default (JNum (Fin 1)) (get_prop body ''quantity''))
      \<longrightarrow> addItem rt now products stored body = (Inl InsufficientStock, stored))
   \<and> (truthy (get_prop body ''productId'')
       \<and> find_product (get_prop body ''productId'') products = Some product
       \<and> \<not> js_lt rt (get_prop product ''stock'')
              (with_default (JNum (Fin 1)) (get_prop body ''quantity''))
      \<longrightarrow> (\<exists>c. addItem rt now products stored body = (Inr c, Some c)))
   \<and> (\<forall>stored'. fst (addItem rt now products stored body) = Inl InsufficientStock
                \<longleftrightarrow> fst (addItem rt now products stored' body) = Inl InsufficientStock)
   \<and> (\<forall>e. fst (addItem rt now products stored body) = Inl e
          \<longrightarrow> snd (addItem rt now products stored body) = stored)
   \<and> http_status MissingProduct = 400 \<and> http_status ProductNotFound = 404
   \<and> http_status InsufficientStock = 400"
proof -
  have nf: "addItem rt now products stored body = (Inl ProductNotFound, stored)"
    if "truthy (get_prop body ''productId'')"
       "\<forall>p \<in> set products. \<not> (strict_eq (get_prop p ''id'') (get_prop body ''productId'')
                                  \<and> get_prop p ''isActive'' = JBool True)"
  proof -
    have "find_product (get_prop body ''productId'') products = None"
      using that(2) by (auto simp: find_product_def find_None_iff)
    with that(1) show ?thesis by (simp add: addItem_def)
  qed
  have indep: "\<forall>stored'. fst (addItem rt now products stored body) = Inl InsufficientStock
                \<longleftrightarrow> fst (addItem rt now products stored' body) = Inl InsufficientStock"
    by (simp add: addItem_stock_error_iff)
  have keeps: "\<forall>e. fst (addItem rt now products stored body) = Inl e
          \<longrightarrow> snd (addItem rt now products stored body) = stored"
    using addItem_failure_keeps by blast
  from nf indep keeps show ?thesis
    by (simp add: addItem_def Let_def)
qed

text \<open>
  On the sample catalogue, with a stored cart that already holds five copies of the first
  book (stock 5): no \<open>productId\<close>; the inactive second book; six copies of the first book;
  and five more copies of the first book, which are accepted.
\<close>

theorem addItem_failures_witness:
  "addItem sample_runtime ''2026-02-02'' sample_products (Some sample_cart) []
     = (Inl MissingProduct, Some sample_cart)
   \<and> addItem sample_runtime ''2026-02-02'' sample_products (Some sample_cart)
       [(''productId'', JNum (Fin 2))]
     = (Inl ProductNotFound, Some sample_cart)
   \<and> addItem sample_runtime ''2026-02-02'' sample_products (Some sample_cart)
       [(''productId'', JNum (Fin 1)), (''quantity'', JNum (Fin 6))]
     = (Inl InsufficientStock, Some sample_cart)
   \<and> (\<exists>c. addItem sample_runtime ''2026-02-02'' sample_products (Some sample_cart)
            [(''productId'', JNum (Fin 1)), (''quantity'', JNum (Fin 5))]
          = (Inr c, Some c))"
proof -
  let ?b2 = "[(''productId'', JNum (Fin 2))]"
  let ?b3 = "[(''productId'', JNum (Fin 1)), (''quantity'', JNum (Fin 6))]"
  let ?b4 = "[(''productId'', JNum (Fin 1)), (''quantity'', JNum (Fin 5))]"
  have f: "find_product (JNum (Fin 1)) sample_products = Some (book 1 ''Amintiri'' 30 5 True)"
    by code_simp
  have r1: "addItem sample_runtime ''2026-02-02'' sample_products (Some sample_cart) []
            = (Inl MissingProduct, Some sample_cart)"
    using addItem_failures[where body = "[]" and rt = sample_runtime
        and now = "''2026-02-02''" and products = sample_products
        and stored = "Some sample_cart"]
    by (simp add: get_prop_def)
  have n2: "\<forall>p \<in> set sample_products.
              \<not> (strict_eq (get_prop p ''id'') (get_prop ?b2 ''productId'')
                 \<and> get_prop p ''isActive'' = JBool True)"
    by (simp add: sample_products_def book_def get_prop_def)
  have r2: "addItem sample_runtime ''2026-02-02'' sample_products (Some sample_cart) ?b2
            = (Inl ProductNotFound, Some sample_cart)"
    using addItem_failures[where body = ?b2 and rt = sample_runtime
        and now = "''2026-02-02''" and products = sample_products
        and stored = "Some sample_cart"] n2
    by (simp add: get_prop_def)
  have l3: "js_lt sample_runtime (get_prop (book 1 ''Amintiri'' 30 5 True) ''stock'')
              (with_default (JNum (Fin 1)) (get_prop ?b3 ''quantity''))"
    by code_simp
  have r3: "addItem sample_runtime ''2026-02-02'' sample_products (Some sample_cart) ?b3
            = (Inl InsufficientStock, Some sample_cart)"
    using addItem_failures[where body = ?b3 and rt = sample_runtime
        and now = "''2026-02-02''" and products = sample_products
        and stored = "Some sample_cart" and product = "book 1 ''Amintiri'' 30 5 True"] f l3
    by (simp add: get_prop_def)
  have l4: "\<not> js_lt sample_runtime (get_prop (book 1 ''Amintiri'' 30 5 True) ''stock'')
              (with_default (JNum (Fin 1)) (get_prop ?b4 ''quantity''))"
    by code_simp
  have r4: "\<exists>c. addItem sample_runtime ''2026-02-02'' sample_products (Some sample_cart) ?b4
                = (Inr c, Some c)"
    using addItem_failures[where body = ?b4 and rt = sample_runtime
        and now = "''2026-02-02''" and products = sample_products
        and stored = "Some sample_cart" and product = "book 1 ''Amintiri'' 30 5 True"] f l4
    by (simp add: get_prop_def)
  from r1 r2 r3 r4 show ?thesis by (intro conjI)
qed

subsection \<open>Strict equality of identifiers\<close>

lemma merge_item_no_match:
  assumes "\<forall>it \<in> set its. \<not> strict_eq (get_prop it ''productId'') productId"
  shows "merge_item rt now product productId quantity its
         = its @ [new_item now product productId quantity]"
proof -
  have "findIndex (\<lambda>item. strict_eq (get_prop item ''productId'') productId) its = None"
    using assms by (simp add: findIndex_None)
  then show ?thesis by (simp add: merge_item_def)
qed

lemma findIndex_first:
  "findIndex P xs = Some i \<Longrightarrow> i < length xs \<and> P (xs ! i) \<and> (\<forall>j < i. \<not> P (xs ! j))"
proof (induction xs arbitrary: i)
  case Nil
  then show ?case by simp
next
  case (Cons x xs)
  show ?case
  proof (cases "P x")
    case True
    with Cons.prems show ?thesis by simp
  next
    case False
    with Cons.prems obtain k where k: "findIndex P xs = Some k" "i = Suc k" by auto
    from Cons.IH[OF k(1)] have ih: "k < length xs" "P (xs ! k)" "\<forall>j < k. \<not> P (xs ! j)"
      by simp_all
    have "\<not> P ((x # xs) ! j)" if "j < i" for j
      using that False ih(3) k(2) by (cases j) simp_all
    with ih(1,2) k(2) show ?thesis by simp
  qed
qed

lemma merge_item_match:
  assumes "\<exists>it \<in> set its. strict_eq (get_prop it ''productId'') productId"
  shows "\<exists>i < length its.
           strict_eq (get_prop (its ! i) ''productId'') productId
           \<and> (\<forall>j < i. \<not> strict_eq (get_prop (its ! j) ''productId'') productId)
           \<and> merge_item rt now product productId quantity its
               = its[i := set_prop (its ! i) ''quantity''
                            (js_add rt (get_prop (its ! i) ''quantity'') quantity)]"
proof -
  have "findIndex (\<lambda>item. strict_eq (get_prop item ''productId'') productId) its \<noteq> None"
    using assms by (simp add: findIndex_None)
  then obtain i where
    i: "findIndex (\<lambda>item. strict_eq (get_prop item ''productId'') productId) its = Some i"
    by blast
  from findIndex_first[OF i] i show ?thesis by (intro exI[of _ i]) (simp add: merge_item_def)
qed

lemma addItem_Inr:
  assumes "addItem rt now products stored body = (Inr c, st)"
  shows "\<exists>product. find_product (get_prop body ''productId'') products = Some product
           \<and> st = Some c
           \<and> items c = merge_item rt now product (get_prop body ''productId'')
                          (with_default (JNum (Fin 1)) (get_prop body ''quantity''))
                          (items (readCart now stored))
           \<and> total c = cart_total rt (items c)
           \<and> totalItems c = cart_totalItems rt (items c)
           \<and> lastUpdated c = JStr now"
  using assms unfolding addItem_def Let_def saveCart_def
  by (auto split: if_splits option.splits)

lemma find_product_Some:
  "find_product productId products = Some product
   \<Longrightarrow> product \<in> set products \<and> strict_eq (get_prop product ''id'') productId
       \<and> get_prop product ''isActive'' = JBool True"
  by (auto simp: find_product_def find_Some_iff)

lemma addItem_not_found_iff:
  assumes "truthy (get_prop body ''productId'')"
  shows "addItem rt now products stored body = (Inl ProductNotFound, stored)
         \<longleftrightarrow> find_product (get_prop body ''productId'') products = None"
  using assms unfolding addItem_def Let_def saveCart_def
  by (auto split: option.splits)

text \<open>
  Claim C10, as stated, fails: a collection that holds an active product with the numeric
  identifier 1 may also hold an active product whose identifier is the string \<open>"1"\<close>, and
  then the add with the \<open>productId\<close> \<open>"1"\<close> does not fail: it adds that second product.
\<close>

theorem string_id_product_is_added:
  "addItem sample_runtime ''2026-02-02''
       [book 1 ''Amintiri'' 30 5 True,
        [(''id'', JStr ''1''), (''title'', JStr ''Povesti''), (''author'', JStr ''Ion Creanga''),
         (''price'', JNum (Fin 25)), (''stock'', JNum (Fin 4)), (''isActive'', JBool True)]]
       None [(''productId'', JStr ''1'')]
     = (Inr \<lparr> items = [[(''productId'', JStr ''1''), (''quantity'', JNum (Fin 1)),
                      (''title'', JStr ''Povesti''), (''author'', JStr ''Ion Creanga''),
                      (''price'', JNum (Fin 25)), (''imageUrl'', JUndefined),
                      (''addedAt'', JStr ''2026-02-02'')]],
            total = JNum (Fin 25), totalItems = JNum (Fin 1),
            lastUpdated = JStr ''2026-02-02'' \<rparr>,
        Some \<lparr> items = [[(''productId'', JStr ''1''), (''quantity'', JNum (Fin 1)),
                      (''title'', JStr ''Povesti''), (''author'', JStr ''Ion Creanga''),
                      (''price'', JNum (Fin 25)), (''imageUrl'', JUndefined),
                      (''addedAt'', JStr ''2026-02-02'')]],
            total = JNum (Fin 25), totalItems = JNum (Fin 1),
            lastUpdated = JStr ''2026-02-02'' \<rparr>)
   \<and> get_prop (book 1 ''Amintiri'' 30 5 True) ''id'' = JNum (Fin 1)
   \<and> get_prop (book 1 ''Amintiri'' 30 5 True) ''isActive'' = JBool True
   \<and> get_prop (book 1 ''Amintiri'' 30 5 True) ''stock'' = JNum (Fin 5)"
  by code_simp

text \<open>
  Claim C10, amended. The product is looked up, and the line item to merge with is looked
  up, with \<open>===\<close>, which never equates a number and a string.
  \<^item> An add whose \<open>productId\<close> is a non-empty string fails with \<open>ProductNotFound\<close>, and
    leaves the cart as it was, exactly when no stored product is active and has that very
    string as its identifier; so it does when every stored identifier is a number.
  \<^item> The product of a successful add is a stored, active product whose identifier is
    strictly equal to the \<open>productId\<close>: for a string \<open>productId\<close>, that string, never a
    number.
  \<^item> A successful add appends a new line when no line of the cart has a \<open>productId\<close>
    strictly equal to the given one (so always for a string \<open>productId\<close> in a cart whose
    lines have numeric ones); otherwise it changes the first such line, and nothing else:
    the quantity asked for is added to the quantity of that line.
\<close>

theorem addItem_strict_equality:
  "(get_prop body ''productId'' = JStr s \<and> s \<noteq> []
      \<longrightarrow> (addItem rt now products stored body = (Inl ProductNotFound, stored)
            \<longleftrightarrow> (\<forall>p \<in> set products.
                   \<not> (get_prop p ''id'' = JStr s \<and> get_prop p ''isActive'' = JBool True))))
   \<and> ((\<forall>p \<in> set products. \<exists>n. get_prop p ''id'' = JNum n)
      \<and> get_prop body ''productId'' = JStr s \<and> s \<noteq> []
      \<longrightarrow> addItem rt now products stored body = (Inl ProductNotFound, stored))
   \<and> (addItem rt now products stored body = (Inr c, st)
      \<longrightarrow> (\<exists>product \<in> set products.
             find_product (get_prop body ''productId'') products = Some product
             \<and> strict_eq (get_prop product ''id'') (get_prop body ''productId'')
             \<and> get_prop product ''isActive'' = JBool True
             \<and> (\<forall>t. get_prop body ''productId'' = JStr t \<longrightarrow> get_prop product ''id'' = JStr t)
             \<and> ((\<forall>it \<in> set (items (readCart now stored)).
                    \<not> strict_eq (get_prop it ''productId'') (get_prop body ''productId''))
                 \<longrightarrow> items c = items (readCart now stored)
                       @ [new_item now product (get_prop body ''productId'')
                            (with_default (JNum (Fin 1)) (get_prop body ''quantity''))])
             \<and> ((\<exists>it \<in> set (items (readCart now stored)).
                    strict_eq (get_prop it ''productId'') (get_prop body ''productId''))
                 \<longrightarrow> (\<exists>i < length (items (readCart now stored)).
                        strict_eq (get_prop (items (readCart now stored) ! i) ''productId'')
                          (get_prop body ''productId'')
                        \<and> (\<forall>j < i. \<not> strict_eq
                                       (get_prop (items (readCart now stored) ! j) ''productId'')
                                       (get_prop body ''productId''))
                        \<and> items c
                            = (items (readCart now stored))
                                [i := set_prop (items (readCart now stored) ! i) ''quantity''
                                        (js_add rt
                                           (get_prop (items (readCart now stored) ! i)
                                              ''quantity'')
                                           (with_default (JNum (Fin 1))
                                              (get_prop body ''quantity'')))]))))
   \<and> ((\<forall>it \<in> set (items (readCart now stored)). \<exists>n. get_prop it ''productId'' = JNum n)
       \<and> get_prop body ''productId'' = JStr s
       \<and> addItem rt now products stored body = (Inr c, st)
      \<longrightarrow> length (items c) = Suc (length (items (readCart now stored))))"
proof -
  have iff: "addItem rt now products stored body = (Inl ProductNotFound, stored)
            \<longleftrightarrow> (\<forall>p \<in> set products.
                   \<not> (get_prop p ''id'' = JStr s \<and> get_prop p ''isActive'' = JBool True))"
    if h: "get_prop body ''productId'' = JStr s" "s \<noteq> []"
  proof -
    have "truthy (get_prop body ''productId'')" using h by simp
    from addItem_not_found_iff[OF this, of rt now products stored]
    have nf: "addItem rt now products stored body = (Inl ProductNotFound, stored)
              \<longleftrightarrow> find_product (JStr s) products = None"
      by (simp only: h(1))
    have "find_product (JStr s) products = None
          \<longleftrightarrow> (\<forall>p \<in> set products.
                 \<not> (get_prop p ''id'' = JStr s \<and> get_prop p ''isActive'' = JBool True))"
      by (auto simp: find_product_def find_None_iff)
    with nf show ?thesis by (simp only:)
  qed
  have a: "addItem rt now products stored body = (Inl ProductNotFound, stored)"
    if "\<forall>p \<in> set products. \<exists>n. get_prop p ''id'' = JNum n"
       "get_prop body ''productId'' = JStr s" "s \<noteq> []"
  proof -
    have "\<forall>p \<in> set products.
            \<not> (get_prop p ''id'' = JStr s \<and> get_prop p ''isActive'' = JBool True)"
      using that(1) by auto
    with iff[OF that(2,3)] show ?thesis by simp
  qed
  have b: "\<exists>product \<in> set products.
             find_product (get_prop body ''productId'') products = Some product
             \<and> strict_eq (get_prop product ''id'') (get_prop body ''productId'')
             \<and> get_prop product ''isActive'' = JBool True
             \<and> (\<forall>t. get_prop body ''productId'' = JStr t \<longrightarrow> get_prop product ''id'' = JStr t)
             \<and> ((\<forall>it \<in> set (items (readCart now stored)).
                    \<not> strict_eq (get_prop it ''productId'') (get_prop body ''productId''))
                 \<longrightarrow> items c = items (readCart now stored)
                       @ [new_item now product (get_prop body ''productId'')
                            (with_default (JNum (Fin 1)) (get_prop body ''quantity''))])
             \<and> ((\<exists>it \<in> set (items (readCart now stored)).
                    strict_eq (get_prop it ''productId'') (get_prop body ''productId''))
                 \<longrightarrow> (\<exists>i < length (items (readCart now stored)).
                        strict_eq (get_prop (items (readCart now stored) ! i) ''productId'')
                          (get_prop body ''productId'')
                        \<and> (\<forall>j < i. \<not> strict_eq
                                       (get_prop (items (readCart now stored) ! j) ''productId'')
                                       (get_prop body ''productId''))
                        \<and> items c
                            = (items (readCart now stored))
                                [i := set_prop (items (readCart now stored) ! i) ''quantity''
                                        (js_add rt
                                           (get_prop (items (readCart now stored) ! i)
                                              ''quantity'')
                                           (with_default (JNum (Fin 1))
                                              (get_prop body ''quantity'')))]))"
    if h: "addItem rt now products stored body = (Inr c, st)"
  proof -
    from addItem_Inr[OF h] obtain product where
      f: "find_product (get_prop body ''productId'') products = Some product" and
      m: "items c = merge_item rt now product (get_prop body ''productId'')
                          (with_default (JNum (Fin 1)) (get_prop body ''quantity''))
                          (items (readCart now stored))"
      by blast
    from find_product_Some[OF f] have p: "product \<in> set products"
      "strict_eq (get_prop product ''id'') (get_prop body ''productId'')"
      "get_prop product ''isActive'' = JBool True" by simp_all
    have str: "\<forall>t. get_prop body ''productId'' = JStr t \<longrightarrow> get_prop product ''id'' = JStr t"
      using p(2) by auto
    have app: "(\<forall>it \<in> set (items (readCart now stored)).
                    \<not> strict_eq (get_prop it ''productId'') (get_prop body ''productId''))
                 \<longrightarrow> items c = items (readCart now stored)
                       @ [new_item now product (get_prop body ''productId'')
                            (with_default (JNum (Fin 1)) (get_prop body ''quantity''))]"
      unfolding m using merge_item_no_match by blast
    have upd: "(\<exists>it \<in> set (items (readCart now stored)).
                    strict_eq (get_prop it ''productId'') (get_prop body ''productId''))
                 \<longrightarrow> (\<exists>i < length (items (readCart now stored)).
                        strict_eq (get_prop (items (readCart now stored) ! i) ''productId'')
                          (get_prop body ''productId'')
                        \<and> (\<forall>j < i. \<not> strict_eq
                                       (get_prop (items (readCart now stored) ! j) ''productId'')
                                       (get_prop body ''productId''))
                        \<and> items c
                            = (items (readCart now stored))
                                [i := set_prop (items (readCart now stored) ! i) ''quantity''
                                        (js_add rt
                                           (get_prop (items (readCart now stored) ! i)
                                              ''quantity'')
                                           (with_default (JNum (Fin 1))
                                              (get_prop body ''quantity'')))])"
      unfolding m using merge_item_match by blast
    from p(1) f p(2,3) str app upd show ?thesis by (intro bexI[of _ product] conjI)
  qed
  have c: "length (items c) = Suc (length (items (readCart now stored)))"
    if h: "\<forall>it \<in> set (items (readCart now stored)). \<exists>n. get_prop it ''productId'' = JNum n"
       "get_prop body ''productId'' = JStr s"
       "addItem rt now products stored body = (Inr c, st)"
  proof -
    have "\<forall>it \<in> set (items (readCart now stored)).
           \<not> strict_eq (get_prop it ''productId'') (get_prop body ''productId'')"
      using h(1,2) by auto
    with b[OF h(3)] show ?thesis by auto
  qed
  from iff a b c show ?thesis by blast
qed

text \<open>
  The first sample book has the identifier 1: asking for \<open>"1"\<close> does not find it. With a
  catalogue whose only product has the identifier \<open>"1"\<close>, the same request is accepted and
  appended as a second line next to the stored line of product 1. And asking for the
  number 1 adds to the quantity of that stored line.
\<close>

theorem addItem_strict_equality_witness:
  "addItem sample_runtime ''2026-02-02'' sample_products (Some sample_cart)
       [(''productId'', JStr ''1'')]
     = (Inl ProductNotFound, Some sample_cart)
   \<and> map_sum id (\<lambda>c. map (\<lambda>it. get_prop it ''productId'') (items c))
       (fst (addItem sample_runtime ''2026-02-02''
               [[(''id'', JStr ''1''), (''title'', JStr ''Amintiri''),
                 (''price'', JNum (Fin 30)), (''stock'', JNum (Fin 5)),
                 (''isActive'', JBool True)]]
               (Some sample_cart) [(''productId'', JStr ''1'')]))
     = Inr [JNum (Fin 1), JStr ''1'']
   \<and> (\<exists>c. addItem sample_runtime ''2026-02-02'' sample_products (Some sample_cart)
              [(''productId'', JNum (Fin 1)), (''quantity'', JNum (Fin 2))]
            = (Inr c, Some c)
          \<and> items c
              = (items sample_cart)
                  [0 := set_prop (items sample_cart ! 0) ''quantity''
                          (js_add sample_runtime (get_prop (items sample_cart ! 0) ''quantity'')
                             (JNum (Fin 2)))]
          \<and> map (\<lambda>it. get_prop it ''quantity'') (items c) = [JNum (Fin 7)])"
proof -
  have ids: "\<forall>p \<in> set sample_products. \<exists>n. get_prop p ''id'' = JNum n"
    by (simp add: sample_products_def book_def get_prop_def)
  have r1: "addItem sample_runtime ''2026-02-02'' sample_products (Some sample_cart)
              [(''productId'', JStr ''1'')]
            = (Inl ProductNotFound, Some sample_cart)"
    using addItem_strict_equality[where products = sample_products
        and body = "[(''productId'', JStr ''1'')]" and s = "''1''" and rt = sample_runtime
        and now = "''2026-02-02''" and stored = "Some sample_cart"] ids
    by (simp add: get_prop_def)
  have r2: "map_sum id (\<lambda>c. map (\<lambda>it. get_prop it ''productId'') (items c))
       (fst (addItem sample_runtime ''2026-02-02''
               [[(''id'', JStr ''1''), (''title'', JStr ''Amintiri''),
                 (''price'', JNum (Fin 30)), (''stock'', JNum (Fin 5)),
                 (''isActive'', JBool True)]]
               (Some sample_cart) [(''productId'', JStr ''1'')]))
     = Inr [JNum (Fin 1), JStr ''1'']"
    by code_simp
  let ?b = "[(''productId'', JNum (Fin 1)), (''quantity'', JNum (Fin 2))]"
  let ?c = "\<lparr> items = [[(''productId'', JNum (Fin 1)), (''quantity'', JNum (Fin 7)),
                      (''title'', JStr ''Amintiri''), (''author'', JStr ''Ion Creanga''),
                      (''price'', JNum (Fin 30)), (''imageUrl'', JUndefined),
                      (''addedAt'', JStr ''2026-01-01'')]],
            total = JNum (Fin 210), totalItems = JNum (Fin 7),
            lastUpdated = JStr ''2026-02-02'' \<rparr>"
  have ev: "addItem sample_runtime ''2026-02-02'' sample_products (Some sample_cart) ?b
            = (Inr ?c, Some ?c)"
    by code_simp
  have its: "items (readCart ''2026-02-02'' (Some sample_cart)) = items sample_cart"
    by (simp add: readCart_def)
  have len: "length (items sample_cart) = 1" by (simp add: sample_cart_def)
  have ex: "\<exists>it \<in> set (items sample_cart).
              strict_eq (get_prop it ''productId'') (get_prop ?b ''productId'')"
    by (simp add: sample_cart_def get_prop_def)
  have q: "with_default (JNum (Fin 1)) (get_prop ?b ''quantity'') = JNum (Fin 2)"
    by (simp add: with_default_def get_prop_def)
  from addItem_strict_equality[where products = sample_products and body = ?b
        and rt = sample_runtime and now = "''2026-02-02''" and stored = "Some sample_cart"
        and c = ?c and st = "Some ?c", THEN conjunct2, THEN conjunct2, THEN conjunct1,
        rule_format, OF ev]
  obtain i where i: "i < length (items sample_cart)"
    "items ?c = (items sample_cart)
                  [i := set_prop (items sample_cart ! i) ''quantity''
                          (js_add sample_runtime (get_prop (items sample_cart ! i) ''quantity'')
                             (JNum (Fin 2)))]"
    unfolding its q using ex by blast
  from i(1) len have "i = 0" by simp
  with i(2) have upd: "items ?c = (items sample_cart)
                  [0 := set_prop (items sample_cart ! 0) ''quantity''
                          (js_add sample_runtime (get_prop (items sample_cart ! 0) ''quantity'')
                             (JNum (Fin 2)))]"
    by (simp only:)
  have qty: "map (\<lambda>it. get_prop it ''quantity'') (items ?c) = [JNum (Fin 7)]"
    by (simp add: get_prop_def)
  from ev upd qty
  have r3: "\<exists>c. addItem sample_runtime ''2026-02-02'' sample_products (Some sample_cart) ?b
            = (Inr c, Some c)
          \<and> items c
              = (items sample_cart)
                  [0 := set_prop (items sample_cart ! 0) ''quantity''
                          (js_add sample_runtime (get_prop (items sample_cart ! 0) ''quantity'')
                             (JNum (Fin 2)))]
          \<and> map (\<lambda>it. get_prop it ''quantity'') (items c) = [JNum (Fin 7)]"
    by (intro exI[of _ ?c] conjI)
  from r1 r2 r3 show ?thesis by (intro conjI)
qed

subsection \<open>Adding the same product twice\<close>

lemma filter_update_single:
  assumes fi: "findIndex P xs = Some i" and one: "length (filter P xs) \<le> 1" and py: "P y"
  shows "filter P xs = [xs ! i] \<and> filter P (xs[i := y]) = [y]"
proof -
  from findIndex_Some[OF fi] have i: "i < length xs" "P (xs ! i)" by auto
  have xs: "xs = take i xs @ xs ! i # drop (Suc i) xs" using i(1) by (rule id_take_nth_drop)
  have "length (filter P (take i xs)) + 1 + length (filter P (drop (Suc i) xs)) \<le> 1"
    using one i(2) by (subst (asm) xs) simp
  then have e: "filter P (take i xs) = []" "filter P (drop (Suc i) xs) = []" by auto
  have 1: "filter P xs = [xs ! i]" using e i(2) by (subst xs) simp
  have "xs[i := y] = take i xs @ y # drop (Suc i) xs" using i(1) by (rule upd_conv_take_nth_drop)
  then have 2: "filter P (xs[i := y]) = [y]" using e py by simp
  from 1 2 show ?thesis by blast
qed

lemma merge_item_quantities:
  assumes self: "strict_eq pid pid"
      and one: "length (filter (\<lambda>it. strict_eq (get_prop it ''productId'') pid) its) \<le> 1"
  shows "map (\<lambda>it. get_prop it ''quantity'')
           (filter (\<lambda>it. strict_eq (get_prop it ''productId'') pid)
              (merge_item rt now product pid q its))
         = [case map (\<lambda>it. get_prop it ''quantity'')
                  (filter (\<lambda>it. strict_eq (get_prop it ''productId'') pid) its) of
              [] \<Rightarrow> q
            | q0 # rest \<Rightarrow> js_add rt q0 q]"
proof (cases "findIndex (\<lambda>it. strict_eq (get_prop it ''productId'') pid) its")
  case None
  then have none: "\<forall>it \<in> set its. \<not> strict_eq (get_prop it ''productId'') pid"
    by (simp add: findIndex_None)
  then have "filter (\<lambda>it. strict_eq (get_prop it ''productId'') pid) its = []" by simp
  then show ?thesis
    using merge_item_no_match[OF none] none self
    by (simp add: new_item_def get_prop_def)
next
  case (Some i)
  let ?P = "\<lambda>it. strict_eq (get_prop it ''productId'') pid"
  let ?y = "set_prop (its ! i) ''quantity'' (js_add rt (get_prop (its ! i) ''quantity'') q)"
  from findIndex_Some[OF Some] have i: "i < length its" "?P (its ! i)" by auto
  have py: "?P ?y" using i(2) by (simp add: get_prop_set_prop)
  from filter_update_single[of ?P its i ?y, OF Some one py]
  have f: "filter ?P its = [its ! i]" "filter ?P (its[i := ?y]) = [?y]" by auto
  show ?thesis
    using Some f by (simp add: merge_item_def get_prop_set_prop)
qed

lemma js_mul_Fin: "js_mul rt (JNum (Fin a)) (JNum (Fin b)) = rt_round rt (a * b)"
  by (simp add: js_mul_def fl_mul_def)

lemma ieee_nat_rat:
  assumes "ieee_rounding rt" "(of_nat n :: rat) \<le> 2 ^ 53"
  shows "rt_round rt (of_nat n) = Fin (of_nat n)"
proof -
  have "(of_nat n :: rat) \<le> of_nat (2 ^ 53)" using assms(2) by simp
  then have "n \<le> 2 ^ 53" by (simp only: of_nat_le_iff)
  with assms(1) show ?thesis by (rule ieee_nat)
qed

lemma cart_sum_nonneg:
  assumes "\<forall>it \<in> set its. \<exists>p q :: nat. get_prop it ''price'' = JNum (Fin (of_nat p))
                                      \<and> get_prop it ''quantity'' = JNum (Fin (of_nat q))"
  shows "0 \<le> (\<Sum>it\<leftarrow>its. num_of (get_prop it ''price'') * num_of (get_prop it ''quantity''))"
proof (rule sum_list_nonneg)
  fix x assume "x \<in> set (map (\<lambda>it. num_of (get_prop it ''price'')
                                   * num_of (get_prop it ''quantity'')) its)"
  then obtain it where "it \<in> set its"
    "x = num_of (get_prop it ''price'') * num_of (get_prop it ''quantity'')" by auto
  with assms show "0 \<le> x" by fastforce
qed

lemma quantity_sum_nonneg:
  assumes "\<forall>it \<in> set its. \<exists>q :: nat. get_prop it ''quantity'' = JNum (Fin (of_nat q))"
  shows "0 \<le> (\<Sum>it\<leftarrow>its. num_of (get_prop it ''quantity''))"
proof (rule sum_list_nonneg)
  fix x assume "x \<in> set (map (\<lambda>it. num_of (get_prop it ''quantity'')) its)"
  then obtain it where "it \<in> set its" "x = num_of (get_prop it ''quantity'')" by auto
  with assms show "0 \<le> x" by fastforce
qed

lemma cart_total_exact_aux:
  assumes r: "ieee_rounding rt"
      and nat: "\<forall>it \<in> set its. \<exists>p q :: nat. get_prop it ''price'' = JNum (Fin (of_nat p))
                                      \<and> get_prop it ''quantity'' = JNum (Fin (of_nat q))"
      and bound: "of_nat n + (\<Sum>it\<leftarrow>its. num_of (get_prop it ''price'')
                                        * num_of (get_prop it ''quantity'')) \<le> (2 ^ 53 :: rat)"
  shows "foldl (\<lambda>sum item. js_add rt sum
               (JNum (js_mul rt (get_prop item ''price'') (get_prop item ''quantity''))))
           (JNum (Fin (of_nat n))) its
         = JNum (Fin (of_nat n + (\<Sum>it\<leftarrow>its. num_of (get_prop it ''price'')
                                           * num_of (get_prop it ''quantity''))))"
  using nat bound
proof (induction its arbitrary: n)
  case Nil
  then show ?case by simp
next
  case (Cons it its)
  let ?R = "\<Sum>it\<leftarrow>its. num_of (get_prop it ''price'') * num_of (get_prop it ''quantity'')"
  from Cons.prems(1) obtain p q :: nat where
    pq: "get_prop it ''price'' = JNum (Fin (of_nat p))"
        "get_prop it ''quantity'' = JNum (Fin (of_nat q))"
    by auto
  from Cons.prems(1) have rest: "\<forall>it \<in> set its. \<exists>p q :: nat.
      get_prop it ''price'' = JNum (Fin (of_nat p))
      \<and> get_prop it ''quantity'' = JNum (Fin (of_nat q))" by simp
  have R0: "0 \<le> ?R" using rest by (rule cart_sum_nonneg)
  have b: "of_nat n + (of_nat (p * q) + ?R) \<le> (2 ^ 53 :: rat)"
    using Cons.prems(2) by (simp add: pq)
  have "(of_nat (p * q) :: rat) \<le> of_nat n + (of_nat (p * q) + ?R)" using R0 by simp
  then have "(of_nat (p * q) :: rat) \<le> 2 ^ 53" using b by (rule order_trans)
  from ieee_nat_rat[OF r this]
  have m: "js_mul rt (get_prop it ''price'') (get_prop it ''quantity'') = Fin (of_nat (p * q))"
    by (simp add: pq js_mul_Fin)
  have "(of_nat (n + p * q) :: rat) \<le> of_nat n + (of_nat (p * q) + ?R)" using R0 by simp
  then have "(of_nat (n + p * q) :: rat) \<le> 2 ^ 53" using b by (rule order_trans)
  from ieee_nat_rat[OF r this]
  have a: "js_add rt (JNum (Fin (of_nat n))) (JNum (Fin (of_nat (p * q))))
           = JNum (Fin (of_nat (n + p * q)))"
    by (simp add: js_add_Fin)
  have b': "of_nat (n + p * q) + ?R \<le> (2 ^ 53 :: rat)" using b by simp
  have "foldl (\<lambda>sum item. js_add rt sum
               (JNum (js_mul rt (get_prop item ''price'') (get_prop item ''quantity''))))
           (JNum (Fin (of_nat n))) (it # its)
        = foldl (\<lambda>sum item. js_add rt sum
               (JNum (js_mul rt (get_prop item ''price'') (get_prop item ''quantity''))))
           (JNum (Fin (of_nat (n + p * q)))) its"
    by (simp only: foldl_Cons m a)
  also have "\<dots> = JNum (Fin (of_nat (n + p * q) + ?R))"
    by (rule Cons.IH[OF rest b'])
  also have "\<dots> = JNum (Fin (of_nat n + (\<Sum>it\<leftarrow>it # its. num_of (get_prop it ''price'')
                                           * num_of (get_prop it ''quantity''))))"
    by (simp add: pq)
  finally show ?case .
qed

lemma cart_totalItems_exact_aux:
  assumes r: "ieee_rounding rt"
      and nat: "\<forall>it \<in> set its. \<exists>q :: nat. get_prop it ''quantity'' = JNum (Fin (of_nat q))"
      and bound: "of_nat n + (\<Sum>it\<leftarrow>its. num_of (get_prop it ''quantity'')) \<le> (2 ^ 53 :: rat)"
  shows "foldl (\<lambda>sum item. js_add rt sum (get_prop item ''quantity'')) (JNum (Fin (of_nat n))) its
         = JNum (Fin (of_nat n + (\<Sum>it\<leftarrow>its. num_of (get_prop it ''quantity''))))"
  using nat bound
proof (induction its arbitrary: n)
  case Nil
  then show ?case by simp
next
  case (Cons it its)
  let ?R = "\<Sum>it\<leftarrow>its. num_of (get_prop it ''quantity'')"
  from Cons.prems(1) obtain q :: nat where
    q: "get_prop it ''quantity'' = JNum (Fin (of_nat q))" by auto
  from Cons.prems(1) have rest: "\<forall>it \<in> set its. \<exists>q :: nat.
      get_prop it ''quantity'' = JNum (Fin (of_nat q))" by simp
  have R0: "0 \<le> ?R" using rest by (rule quantity_sum_nonneg)
  have b: "of_nat n + (of_nat q + ?R) \<le> (2 ^ 53 :: rat)"
    using Cons.prems(2) by (simp add: q)
  have "(of_nat (n + q) :: rat) \<le> of_nat n + (of_nat q + ?R)" using R0 by simp
  then have "(of_nat (n + q) :: rat) \<le> 2 ^ 53" using b by (rule order_trans)
  from ieee_nat_rat[OF r this]
  have a: "js_add rt (JNum (Fin (of_nat n))) (get_prop it ''quantity'')
           = JNum (Fin (of_nat (n + q)))"
    by (simp add: q js_add_Fin)
  have b': "of_nat (n + q) + ?R \<le> (2 ^ 53 :: rat)" using b by simp
  have "foldl (\<lambda>sum item. js_add rt sum (get_prop item ''quantity''))
           (JNum (Fin (of_nat n))) (it # its)
        = foldl (\<lambda>sum item. js_add rt sum (get_prop item ''quantity''))
           (JNum (Fin (of_nat (n + q)))) its"
    by (simp only: foldl_Cons a)
  also have "\<dots> = JNum (Fin (of_nat (n + q) + ?R))"
    by (rule Cons.IH[OF rest b'])
  also have "\<dots> = JNum (Fin (of_nat n + (\<Sum>it\<leftarrow>it # its. num_of (get_prop it ''quantity''))))"
    by (simp add: q)
  finally show ?case .
qed

lemma cart_total_exact:
  assumes "ieee_rounding rt"
      and "\<forall>it \<in> set its. \<exists>p q :: nat. get_prop it ''price'' = JNum (Fin (of_nat p))
                                      \<and> get_prop it ''quantity'' = JNum (Fin (of_nat q))"
      and "(\<Sum>it\<leftarrow>its. num_of (get_prop it ''price'') * num_of (get_prop it ''quantity''))
           \<le> 2 ^ 53"
  shows "cart_total rt its
           = JNum (Fin (\<Sum>it\<leftarrow>its. num_of (get_prop it ''price'')
                                 * num_of (get_prop it ''quantity'')))"
  unfolding cart_total_def using cart_total_exact_aux[OF assms(1,2), of 0] assms(3) by simp

lemma cart_totalItems_exact:
  assumes "ieee_rounding rt"
      and "\<forall>it \<in> set its. \<exists>q :: nat. get_prop it ''quantity'' = JNum (Fin (of_nat q))"
      and "(\<Sum>it\<leftarrow>its. num_of (get_prop it ''quantity'')) \<le> 2 ^ 53"
  shows "cart_totalItems rt its = JNum (Fin (\<Sum>it\<leftarrow>its. num_of (get_prop it ''quantity'')))"
  unfolding cart_totalItems_def using cart_totalItems_exact_aux[OF assms(1,2), of 0] assms(3)
  by simp

lemma addItem_success:
  assumes "truthy (get_prop body ''productId'')"
      and "find_product (get_prop body ''productId'') products = Some product"
      and "\<not> js_lt rt (get_prop product ''stock'')
              (with_default (JNum (Fin 1)) (get_prop body ''quantity''))"
  shows "\<exists>c. addItem rt now products stored body = (Inr c, Some c)
           \<and> items c = merge_item rt now product (get_prop body ''productId'')
                          (with_default (JNum (Fin 1)) (get_prop body ''quantity''))
                          (items (readCart now stored))
           \<and> total c = cart_total rt (items c)
           \<and> totalItems c = cart_totalItems rt (items c)"
  using assms unfolding addItem_def Let_def saveCart_def by simp

lemma quantity_sum_exact:
  assumes r: "ieee_rounding rt" and b: "sum_list qs + a + b \<le> 2 ^ 53" and one: "length qs \<le> 1"
  shows "(case map (\<lambda>q. JNum (Fin (of_nat q))) qs of
            [] \<Rightarrow> js_add rt (JNum (Fin (of_nat a))) (JNum (Fin (of_nat b)))
          | q0 # rest \<Rightarrow> js_add rt (js_add rt q0 (JNum (Fin (of_nat a)))) (JNum (Fin (of_nat b))))
         = JNum (Fin (of_nat (sum_list qs + a + b)))"
proof (cases qs)
  case Nil
  with b have "a + b \<le> 2 ^ 53" by simp
  from ieee_nat[OF r this] show ?thesis using Nil by (simp add: js_add_Fin)
next
  case (Cons q0 rest)
  with one have rest: "rest = []" by simp
  from b Cons rest have 1: "q0 + a \<le> 2 ^ 53" and 2: "q0 + a + b \<le> 2 ^ 53" by simp_all
  have s1: "js_add rt (JNum (Fin (of_nat q0))) (JNum (Fin (of_nat a)))
            = JNum (Fin (of_nat (q0 + a)))"
    using ieee_nat[OF r 1] by (simp add: js_add_Fin)
  have s2: "js_add rt (JNum (Fin (of_nat (q0 + a)))) (JNum (Fin (of_nat b)))
            = JNum (Fin (of_nat (q0 + a + b)))"
    using ieee_nat[OF r 2] by (simp add: js_add_Fin)
  show ?thesis using Cons rest by (simp only: list.map list.case s1 s2 sum_list.Cons sum_list.Nil add_0_right)
qed

text \<open>
  Claim C3, as stated, fails for a cart that already holds the product: the quantity of
  its line grows by the two quantities asked for, it does not become their sum. With five
  copies of the first sample book in the cart, adding 2 and then 3 gives 10, not 5.
\<close>

theorem addItem_twice_adds_to_stored_quantity:
  "addItem sample_runtime ''2026-02-02'' sample_products
       (snd (addItem sample_runtime ''2026-02-01'' sample_products (Some sample_cart)
               [(''productId'', JNum (Fin 1)), (''quantity'', JNum (Fin 2))]))
       [(''productId'', JNum (Fin 1)), (''quantity'', JNum (Fin 3))]
     = (Inr \<lparr> items = [[(''productId'', JNum (Fin 1)), (''quantity'', JNum (Fin 10)),
                      (''title'', JStr ''Amintiri''), (''author'', JStr ''Ion Creanga''),
                      (''price'', JNum (Fin 30)), (''imageUrl'', JUndefined),
                      (''addedAt'', JStr ''2026-01-01'')]],
            total = JNum (Fin 300), totalItems = JNum (Fin 10),
            lastUpdated = JStr ''2026-02-02'' \<rparr>,
        Some \<lparr> items = [[(''productId'', JNum (Fin 1)), (''quantity'', JNum (Fin 10)),
                      (''title'', JStr ''Amintiri''), (''author'', JStr ''Ion Creanga''),
                      (''price'', JNum (Fin 30)), (''imageUrl'', JUndefined),
                      (''addedAt'', JStr ''2026-01-01'')]],
            total = JNum (Fin 300), totalItems = JNum (Fin 10),
            lastUpdated = JStr ''2026-02-02'' \<rparr>)
   \<and> JNum (Fin 10) \<noteq> JNum (Fin (2 + 3))"
  by code_simp

text \<open>
  Claim C3, amended. Let the product be active and found by the given \<open>productId\<close>, let
  \<open>q1\<close> and \<open>q2\<close> be the quantities of the two calls (the quantity of the body, 1 when the
  body has none), each within the stock, and let the cart hold at most one line for that
  \<open>productId\<close>. Then both adds succeed and the cart holds exactly one line for that
  \<open>productId\<close>. Its quantity is \<open>q1 + q2\<close> when the cart had no such line, and
  \<open>(q0 + q1) + q2\<close> when it had one with the quantity \<open>q0\<close>, with the \<open>+\<close> of JavaScript;
  with the rounding of IEEE doubles, when these quantities are natural numbers whose sum
  is at most \<open>2^53\<close>, that is their sum.

  After every successful add the stored cart is the returned one, its \<open>total\<close> is
  \<open>items.reduce((sum, item) => sum + item.price * item.quantity, 0)\<close> and its
  \<open>totalItems\<close> is \<open>items.reduce((sum, item) => sum + item.quantity, 0)\<close>: the sums from
  left to right in the arithmetic of doubles, every product and every partial sum
  rounded. With the rounding of IEEE doubles they are the exact sums when the prices and
  quantities of the line items are natural numbers and the exact sum is at most \<open>2^53\<close>.
\<close>

theorem addItem_twice_merges:
  assumes found: "find_product pid products = Some product"
      and pid: "truthy pid"
      and b1: "get_prop body1 ''productId'' = pid"
              "with_default (JNum (Fin 1)) (get_prop body1 ''quantity'') = q1"
      and b2: "get_prop body2 ''productId'' = pid"
              "with_default (JNum (Fin 1)) (get_prop body2 ''quantity'') = q2"
      and s1: "\<not> js_lt rt (get_prop product ''stock'') q1"
      and s2: "\<not> js_lt rt (get_prop product ''stock'') q2"
      and one: "length (filter (\<lambda>it. strict_eq (get_prop it ''productId'') pid)
                          (items (readCart now1 stored))) \<le> 1"
  shows "(\<exists>c1 c2. addItem rt now1 products stored body1 = (Inr c1, Some c1)
           \<and> addItem rt now2 products (Some c1) body2 = (Inr c2, Some c2)
           \<and> map (\<lambda>it. get_prop it ''quantity'')
                (filter (\<lambda>it. strict_eq (get_prop it ''productId'') pid) (items c2))
              = [case map (\<lambda>it. get_prop it ''quantity'')
                       (filter (\<lambda>it. strict_eq (get_prop it ''productId'') pid)
                          (items (readCart now1 stored))) of
                   [] \<Rightarrow> js_add rt q1 q2
                 | q0 # rest \<Rightarrow> js_add rt (js_add rt q0 q1) q2]
           \<and> (\<forall>qs a b.
                 ieee_rounding rt
                 \<and> map (\<lambda>it. get_prop it ''quantity'')
                      (filter (\<lambda>it. strict_eq (get_prop it ''productId'') pid)
                         (items (readCart now1 stored)))
                    = map (\<lambda>q. JNum (Fin (of_nat q))) qs
                 \<and> q1 = JNum (Fin (of_nat a)) \<and> q2 = JNum (Fin (of_nat b))
                 \<and> sum_list qs + a + b \<le> 2 ^ 53
                 \<longrightarrow> map (\<lambda>it. get_prop it ''quantity'')
                       (filter (\<lambda>it. strict_eq (get_prop it ''productId'') pid) (items c2))
                     = [JNum (Fin (of_nat (sum_list qs + a + b)))]))
       \<and> (\<forall>now' products' stored' body' c st.
             addItem rt now' products' stored' body' = (Inr c, st)
             \<longrightarrow> st = Some c
                 \<and> total c = cart_total rt (items c)
                 \<and> totalItems c = cart_totalItems rt (items c)
                 \<and> (ieee_rounding rt
                      \<and> (\<forall>it \<in> set (items c). \<exists>p q :: nat.
                             get_prop it ''price'' = JNum (Fin (of_nat p))
                             \<and> get_prop it ''quantity'' = JNum (Fin (of_nat q)))
                      \<and> (\<Sum>it\<leftarrow>items c. num_of (get_prop it ''price'')
                                           * num_of (get_prop it ''quantity'')) \<le> 2 ^ 53
                      \<longrightarrow> total c
                            = JNum (Fin (\<Sum>it\<leftarrow>items c. num_of (get_prop it ''price'')
                                                     * num_of (get_prop it ''quantity''))))
                 \<and> (ieee_rounding rt
                      \<and> (\<forall>it \<in> set (items c). \<exists>q :: nat.
                             get_prop it ''quantity'' = JNum (Fin (of_nat q)))
                      \<and> (\<Sum>it\<leftarrow>items c. num_of (get_prop it ''quantity'')) \<le> 2 ^ 53
                      \<longrightarrow> totalItems c
                            = JNum (Fin (\<Sum>it\<leftarrow>items c. num_of (get_prop it ''quantity'')))))"
proof -
  let ?P = "\<lambda>it. strict_eq (get_prop it ''productId'') pid"
  let ?prior = "map (\<lambda>it. get_prop it ''quantity'') (filter ?P (items (readCart now1 stored)))"
  have self: "strict_eq pid pid"
  proof -
    from found have "strict_eq (get_prop product ''id'') pid"
      by (auto simp: find_product_def find_Some_iff)
    then show ?thesis using strict_eq_same by blast
  qed
  from addItem_success[of body1 products product rt now1 stored] found pid b1 s1
  obtain c1 where c1: "addItem rt now1 products stored body1 = (Inr c1, Some c1)"
    "items c1 = merge_item rt now1 product pid q1 (items (readCart now1 stored))"
    by auto
  from addItem_success[of body2 products product rt now2 "Some c1"] found pid b2 s2
  obtain c2 where c2: "addItem rt now2 products (Some c1) body2 = (Inr c2, Some c2)"
    "items c2 = merge_item rt now2 product pid q2 (items c1)"
    by (auto simp: readCart_def)
  have m1: "map (\<lambda>it. get_prop it ''quantity'') (filter ?P (items c1))
              = [case ?prior of [] \<Rightarrow> q1 | q0 # rest \<Rightarrow> js_add rt q0 q1]"
    unfolding c1(2) by (rule merge_item_quantities[OF self one])
  then have "length (map (\<lambda>it. get_prop it ''quantity'') (filter ?P (items c1))) = 1"
    by simp
  then have one1: "length (filter ?P (items c1)) \<le> 1" by simp
  have m2: "map (\<lambda>it. get_prop it ''quantity'') (filter ?P (items c2))
              = [case ?prior of [] \<Rightarrow> js_add rt q1 q2
                 | q0 # rest \<Rightarrow> js_add rt (js_add rt q0 q1) q2]"
    unfolding c2(2) merge_item_quantities[OF self one1] m1
    by (cases ?prior) simp_all
  have exact: "map (\<lambda>it. get_prop it ''quantity'') (filter ?P (items c2))
                     = [JNum (Fin (of_nat (sum_list qs + a + b)))]"
    if h: "ieee_rounding rt" "?prior = map (\<lambda>q. JNum (Fin (of_nat q))) qs"
          "q1 = JNum (Fin (of_nat a))" "q2 = JNum (Fin (of_nat b))"
          "sum_list qs + a + b \<le> 2 ^ 53"
    for qs a b
  proof -
    have "length qs = length ?prior" unfolding h(2) by simp
    with one have "length qs \<le> 1" by simp
    from quantity_sum_exact[OF h(1) h(5) this] show ?thesis
      unfolding m2 h(2) h(3) h(4) by (simp only:)
  qed
  from exact have exact':
    "\<forall>qs a b.
                 ieee_rounding rt
                 \<and> ?prior = map (\<lambda>q. JNum (Fin (of_nat q))) qs
                 \<and> q1 = JNum (Fin (of_nat a)) \<and> q2 = JNum (Fin (of_nat b))
                 \<and> sum_list qs + a + b \<le> 2 ^ 53
                 \<longrightarrow> map (\<lambda>it. get_prop it ''quantity'') (filter ?P (items c2))
                     = [JNum (Fin (of_nat (sum_list qs + a + b)))]"
    by blast
  have twice: "\<exists>c1 c2. addItem rt now1 products stored body1 = (Inr c1, Some c1)
           \<and> addItem rt now2 products (Some c1) body2 = (Inr c2, Some c2)
           \<and> map (\<lambda>it. get_prop it ''quantity'') (filter ?P (items c2))
              = [case ?prior of [] \<Rightarrow> js_add rt q1 q2
                 | q0 # rest \<Rightarrow> js_add rt (js_add rt q0 q1) q2]
           \<and> (\<forall>qs a b.
                 ieee_rounding rt
                 \<and> ?prior = map (\<lambda>q. JNum (Fin (of_nat q))) qs
                 \<and> q1 = JNum (Fin (of_nat a)) \<and> q2 = JNum (Fin (of_nat b))
                 \<and> sum_list qs + a + b \<le> 2 ^ 53
                 \<longrightarrow> map (\<lambda>it. get_prop it ''quantity'') (filter ?P (items c2))
                     = [JNum (Fin (of_nat (sum_list qs + a + b)))])"
    by (intro exI[of _ c1] exI[of _ c2] conjI c1(1) c2(1) m2 exact')
  have every: "st = Some c
                 \<and> total c = cart_total rt (items c)
                 \<and> totalItems c = cart_totalItems rt (items c)
                 \<and> (ieee_rounding rt
                      \<and> (\<forall>it \<in> set (items c). \<exists>p q :: nat.
                             get_prop it ''price'' = JNum (Fin (of_nat p))
                             \<and> get_prop it ''quantity'' = JNum (Fin (of_nat q)))
                      \<and> (\<Sum>it\<leftarrow>items c. num_of (get_prop it ''price'')
                                           * num_of (get_prop it ''quantity'')) \<le> 2 ^ 53
                      \<longrightarrow> total c
                            = JNum (Fin (\<Sum>it\<leftarrow>items c. num_of (get_prop it ''price'')
                                                     * num_of (get_prop it ''quantity''))))
                 \<and> (ieee_rounding rt
                      \<and> (\<forall>it \<in> set (items c). \<exists>q :: nat.
                             get_prop it ''quantity'' = JNum (Fin (of_nat q)))
                      \<and> (\<Sum>it\<leftarrow>items c. num_of (get_prop it ''quantity'')) \<le> 2 ^ 53
                      \<longrightarrow> totalItems c
                            = JNum (Fin (\<Sum>it\<leftarrow>items c. num_of (get_prop it ''quantity''))))"
    if h: "addItem rt now' products' stored' body' = (Inr c, st)"
    for now' products' stored' body' c st
  proof -
    from addItem_Inr[OF h] have t: "st = Some c" "total c = cart_total rt (items c)"
      "totalItems c = cart_totalItems rt (items c)" by auto
    have e1: "ieee_rounding rt
                      \<and> (\<forall>it \<in> set (items c). \<exists>p q :: nat.
                             get_prop it ''price'' = JNum (Fin (of_nat p))
                             \<and> get_prop it ''quantity'' = JNum (Fin (of_nat q)))
                      \<and> (\<Sum>it\<leftarrow>items c. num_of (get_prop it ''price'')
                                           * num_of (get_prop it ''quantity'')) \<le> 2 ^ 53
                      \<longrightarrow> total c
                            = JNum (Fin (\<Sum>it\<leftarrow>items c. num_of (get_prop it ''price'')
                                                     * num_of (get_prop it ''quantity'')))"
      unfolding t(2) using cart_total_exact by blast
    have e2: "ieee_rounding rt
                      \<and> (\<forall>it \<in> set (items c). \<exists>q :: nat.
                             get_prop it ''quantity'' = JNum (Fin (of_nat q)))
                      \<and> (\<Sum>it\<leftarrow>items c. num_of (get_prop it ''quantity'')) \<le> 2 ^ 53
                      \<longrightarrow> totalItems c
                            = JNum (Fin (\<Sum>it\<leftarrow>items c. num_of (get_prop it ''quantity'')))"
      unfolding t(3) using cart_totalItems_exact by blast
    from t e1 e2 show ?thesis by (intro conjI)
  qed
  from twice every show ?thesis by blast
qed

text \<open>
  On the sample catalogue, with five copies of the first book in the stored cart: after
  adding 2 and then one more (a body without a quantity) the single line of that book has
  the quantity 8, the total is 240 and there are 8 items.
\<close>

theorem addItem_twice_merges_witness:
  "addItem sample_runtime ''2026-02-02'' sample_products
       (snd (addItem sample_runtime ''2026-02-01'' sample_products (Some sample_cart)
               [(''productId'', JNum (Fin 1)), (''quantity'', JNum (Fin 2))]))
       [(''productId'', JNum (Fin 1))]
     = (Inr \<lparr> items = [[(''productId'', JNum (Fin 1)), (''quantity'', JNum (Fin 8)),
                      (''title'', JStr ''Amintiri''), (''author'', JStr ''Ion Creanga''),
                      (''price'', JNum (Fin 30)), (''imageUrl'', JUndefined),
                      (''addedAt'', JStr ''2026-01-01'')]],
            total = JNum (Fin 240), totalItems = JNum (Fin 8),
            lastUpdated = JStr ''2026-02-02'' \<rparr>,
        Some \<lparr> items = [[(''productId'', JNum (Fin 1)), (''quantity'', JNum (Fin 8)),
                      (''title'', JStr ''Amintiri''), (''author'', JStr ''Ion Creanga''),
                      (''price'', JNum (Fin 30)), (''imageUrl'', JUndefined),
                      (''addedAt'', JStr ''2026-01-01'')]],
            total = JNum (Fin 240), totalItems = JNum (Fin 8),
            lastUpdated = JStr ''2026-02-02'' \<rparr>)
   \<and> ieee_rounding sample_runtime
   \<and> (\<exists>c1 c2.
         addItem sample_runtime ''2026-02-01'' sample_products (Some sample_cart)
             [(''productId'', JNum (Fin 1)), (''quantity'', JNum (Fin 2))]
           = (Inr c1, Some c1)
         \<and> addItem sample_runtime ''2026-02-02'' sample_products (Some c1)
             [(''productId'', JNum (Fin 1))]
           = (Inr c2, Some c2)
         \<and> map (\<lambda>it. get_prop it ''quantity'')
              (filter (\<lambda>it. strict_eq (get_prop it ''productId'') (JNum (Fin 1))) (items c2))
            = [JNum (Fin (of_nat (sum_list [5] + 2 + 1)))])
   \<and> JNum (Fin 240)
       = JNum (Fin (\<Sum>it\<leftarrow>[[(''productId'', JNum (Fin 1)), (''quantity'', JNum (Fin 8)),
                             (''title'', JStr ''Amintiri''), (''author'', JStr ''Ion Creanga''),
                             (''price'', JNum (Fin 30)), (''imageUrl'', JUndefined),
                             (''addedAt'', JStr ''2026-01-01'')]].
                      num_of (get_prop it ''price'') * num_of (get_prop it ''quantity'')))
   \<and> JNum (Fin 8)
       = JNum (Fin (\<Sum>it\<leftarrow>[[(''productId'', JNum (Fin 1)), (''quantity'', JNum (Fin 8)),
                             (''title'', JStr ''Amintiri''), (''author'', JStr ''Ion Creanga''),
                             (''price'', JNum (Fin 30)), (''imageUrl'', JUndefined),
                             (''addedAt'', JStr ''2026-01-01'')]].
                      num_of (get_prop it ''quantity'')))"
proof -
  let ?b1 = "[(''productId'', JNum (Fin 1)), (''quantity'', JNum (Fin 2))]"
  let ?b2 = "[(''productId'', JNum (Fin 1))]"
  let ?its = "[[(''productId'', JNum (Fin 1)), (''quantity'', JNum (Fin 8)),
                (''title'', JStr ''Amintiri''), (''author'', JStr ''Ion Creanga''),
                (''price'', JNum (Fin 30)), (''imageUrl'', JUndefined),
                (''addedAt'', JStr ''2026-01-01'')]]"
  let ?c = "\<lparr> items = ?its, total = JNum (Fin 240), totalItems = JNum (Fin 8),
            lastUpdated = JStr ''2026-02-02'' \<rparr>"
  have ev: "addItem sample_runtime ''2026-02-02'' sample_products
       (snd (addItem sample_runtime ''2026-02-01'' sample_products (Some sample_cart) ?b1)) ?b2
     = (Inr ?c, Some ?c)"
    by code_simp
  have f: "find_product (JNum (Fin 1)) sample_products = Some (book 1 ''Amintiri'' 30 5 True)"
    by code_simp
  have p: "truthy (JNum (Fin 1))" by simp
  have b1: "get_prop ?b1 ''productId'' = JNum (Fin 1)"
           "with_default (JNum (Fin 1)) (get_prop ?b1 ''quantity'') = JNum (Fin 2)"
    by (simp_all add: get_prop_def with_default_def)
  have b2: "get_prop ?b2 ''productId'' = JNum (Fin 1)"
           "with_default (JNum (Fin 1)) (get_prop ?b2 ''quantity'') = JNum (Fin 1)"
    by (simp_all add: get_prop_def with_default_def)
  have s1: "\<not> js_lt sample_runtime (get_prop (book 1 ''Amintiri'' 30 5 True) ''stock'')
               (JNum (Fin 2))"
    by code_simp
  have s2: "\<not> js_lt sample_runtime (get_prop (book 1 ''Amintiri'' 30 5 True) ''stock'')
               (JNum (Fin 1))"
    by code_simp
  have prior: "map (\<lambda>it. get_prop it ''quantity'')
              (filter (\<lambda>it. strict_eq (get_prop it ''productId'') (JNum (Fin 1)))
                 (items (readCart ''2026-02-01'' (Some sample_cart))))
            = map (\<lambda>q. JNum (Fin (of_nat q))) [5]"
    by (simp add: readCart_def sample_cart_def get_prop_def)
  have one: "length (filter (\<lambda>it. strict_eq (get_prop it ''productId'') (JNum (Fin 1)))
                       (items (readCart ''2026-02-01'' (Some sample_cart)))) \<le> 1"
    by (simp add: readCart_def sample_cart_def get_prop_def)
  note t = addItem_twice_merges[OF f p b1 b2 s1 s2 one, of "''2026-02-02''"]
  from t[THEN conjunct1] obtain c1 c2 where
    c: "addItem sample_runtime ''2026-02-01'' sample_products (Some sample_cart) ?b1
          = (Inr c1, Some c1)"
       "addItem sample_runtime ''2026-02-02'' sample_products (Some c1) ?b2 = (Inr c2, Some c2)"
    and ex: "\<forall>qs a b.
                 ieee_rounding sample_runtime
                 \<and> map (\<lambda>it. get_prop it ''quantity'')
                      (filter (\<lambda>it. strict_eq (get_prop it ''productId'') (JNum (Fin 1)))
                         (items (readCart ''2026-02-01'' (Some sample_cart))))
                    = map (\<lambda>q. JNum (Fin (of_nat q))) qs
                 \<and> JNum (Fin 2) = JNum (Fin (of_nat a)) \<and> JNum (Fin 1) = JNum (Fin (of_nat b))
                 \<and> sum_list qs + a + b \<le> 2 ^ 53
                 \<longrightarrow> map (\<lambda>it. get_prop it ''quantity'')
                       (filter (\<lambda>it. strict_eq (get_prop it ''productId'') (JNum (Fin 1)))
                          (items c2))
                     = [JNum (Fin (of_nat (sum_list qs + a + b)))]"
    by blast
  have "JNum (Fin 2) = JNum (Fin (of_nat 2))" "JNum (Fin 1) = JNum (Fin (of_nat 1))"
    "sum_list [5] + 2 + 1 \<le> (2 ^ 53 :: nat)" by simp_all
  with ex[rule_format, of "[5]" 2 1] ieee_rounding_sample prior
  have q: "map (\<lambda>it. get_prop it ''quantity'')
              (filter (\<lambda>it. strict_eq (get_prop it ''productId'') (JNum (Fin 1))) (items c2))
            = [JNum (Fin (of_nat (sum_list [5] + 2 + 1)))]"
    by blast
  have r2: "\<exists>c1 c2.
         addItem sample_runtime ''2026-02-01'' sample_products (Some sample_cart) ?b1
           = (Inr c1, Some c1)
         \<and> addItem sample_runtime ''2026-02-02'' sample_products (Some c1) ?b2
           = (Inr c2, Some c2)
         \<and> map (\<lambda>it. get_prop it ''quantity'')
              (filter (\<lambda>it. strict_eq (get_prop it ''productId'') (JNum (Fin 1))) (items c2))
            = [JNum (Fin (of_nat (sum_list [5] + 2 + 1)))]"
    by (intro exI[of _ c1] exI[of _ c2] conjI c(1) c(2) q)
  have nat2: "\<forall>it \<in> set (items ?c). \<exists>p q :: nat.
                get_prop it ''price'' = JNum (Fin (of_nat p))
                \<and> get_prop it ''quantity'' = JNum (Fin (of_nat q))"
  proof -
    have "JNum (Fin 30) = JNum (Fin (of_nat 30)) \<and> JNum (Fin 8) = JNum (Fin (of_nat 8))"
      by simp
    then have "\<exists>p q :: nat. JNum (Fin 30) = JNum (Fin (of_nat p))
                          \<and> JNum (Fin 8) = JNum (Fin (of_nat q))" by blast
    then show ?thesis by (simp add: get_prop_def)
  qed
  have nat1: "\<forall>it \<in> set (items ?c). \<exists>q :: nat. get_prop it ''quantity'' = JNum (Fin (of_nat q))"
    using nat2 by blast
  have bd2: "(\<Sum>it\<leftarrow>items ?c. num_of (get_prop it ''price'') * num_of (get_prop it ''quantity''))
             \<le> 2 ^ 53"
    by (simp add: get_prop_def)
  have bd1: "(\<Sum>it\<leftarrow>items ?c. num_of (get_prop it ''quantity'')) \<le> 2 ^ 53"
    by (simp add: get_prop_def)
  note e = t[THEN conjunct2, rule_format, OF ev]
  from e ieee_rounding_sample nat2 bd2
  have "total ?c = JNum (Fin (\<Sum>it\<leftarrow>items ?c. num_of (get_prop it ''price'')
                                               * num_of (get_prop it ''quantity'')))"
    by blast
  then have r3: "JNum (Fin 240)
       = JNum (Fin (\<Sum>it\<leftarrow>?its. num_of (get_prop it ''price'') * num_of (get_prop it ''quantity'')))"
    by (simp only: cart.simps)
  from e ieee_rounding_sample nat1 bd1
  have "totalItems ?c = JNum (Fin (\<Sum>it\<leftarrow>items ?c. num_of (get_prop it ''quantity'')))"
    by blast
  then have r4: "JNum (Fin 8)
       = JNum (Fin (\<Sum>it\<leftarrow>?its. num_of (get_prop it ''quantity'')))"
    by (simp only: cart.simps)
  from ev ieee_rounding_sample r2 r3 r4 show ?thesis by (intro conjI)
qed

end
